(* ===== verification/Prelude.thy ===== *)
theory Prelude
  imports Main "HOL-Library.Word"
begin

unbundle bit_operations_syntax

text \<open>
  What every component shares: bytes and C strings, the outcome of a piece of C++ code that
  may run into undefined behaviour, bounded buffers, and the lemma collections the component
  theories feed.

  A \<open>fault\<close> is an execution the C++ source does not define (a read or a write outside a
  buffer, a null pointer, a division by zero, a released object) or ends the process
  (a failed \<open>assert\<close>, \<open>abort\<close>).  An operation that can fault returns \<open>'a res\<close>; an error the
  code itself reports (a status code, a negative return value) is an ordinary value.
\<close>

named_theorems res_simps \<open>evaluation of the result combinators\<close>
named_theorems frame_simps \<open>fields an operation leaves alone\<close>
named_theorems inv_intros \<open>operations keep their component's invariant\<close>

type_synonym byte = "8 word"
type_synonym u16 = "16 word"
type_synonym u32 = "32 word"
type_synonym u64 = "64 word"

section \<open>Outcomes\<close>

datatype fault =
    OutOfBounds
  | Overflow
  | NullDeref
  | DivByZero
  | UseAfterFree
  | Uninitialized
  | AssertFail
  | Aborted | Blocked | LockMisuse

datatype 'a res = Ok 'a | Fault fault

fun rbind :: "'a res \<Rightarrow> ('a \<Rightarrow> 'b res) \<Rightarrow> 'b res" where
  "rbind (Ok x) f = f x"
| "rbind (Fault e) f = Fault e"

definition is_ok :: "'a res \<Rightarrow> bool" where
  "is_ok r \<longleftrightarrow> (case r of Ok _ \<Rightarrow> True | Fault _ \<Rightarrow> False)"

definition guard :: "bool \<Rightarrow> fault \<Rightarrow> unit res" where
  "guard b e = (if b then Ok () else Fault e)"

text \<open>A member that holds \<open>None\<close> until it is set must not be read before.\<close>

definition initialized :: "'a option \<Rightarrow> 'a res" where
  "initialized m = (case m of None \<Rightarrow> Fault Uninitialized | Some x \<Rightarrow> Ok x)"

text \<open>A \<open>for\<close> loop whose body may fault.\<close>

fun fold_res :: "('k \<Rightarrow> 's \<Rightarrow> 's res) \<Rightarrow> 'k list \<Rightarrow> 's \<Rightarrow> 's res" where
  "fold_res f [] s = Ok s"
| "fold_res f (k # ks) s = rbind (f k s) (fold_res f ks)"

lemma is_ok_simps [simp, res_simps]: "is_ok (Ok x)" "\<not> is_ok (Fault e)"
  by (simp_all add: is_ok_def)

lemma is_ok_iff: "is_ok r \<longleftrightarrow> (\<exists>x. r = Ok x)"
  by (cases r) simp_all

lemma rbind_eq_Ok [res_simps]: "rbind m f = Ok y \<longleftrightarrow> (\<exists>x. m = Ok x \<and> f x = Ok y)"
  by (cases m) simp_all

lemma rbind_eq_Fault [res_simps]:
  "rbind m f = Fault e \<longleftrightarrow> m = Fault e \<or> (\<exists>x. m = Ok x \<and> f x = Fault e)"
  by (cases m) simp_all

lemma rbind_assoc: "rbind (rbind m f) g = rbind m (\<lambda>x. rbind (f x) g)"
  by (cases m) simp_all

lemma rbind_Ok_right [simp]: "rbind m Ok = m"
  by (cases m) simp_all

lemma rbind_cong [fundef_cong]:
  "m = m' \<Longrightarrow> (\<And>x. m' = Ok x \<Longrightarrow> f x = f' x) \<Longrightarrow> rbind m f = rbind m' f'"
  by (cases m') simp_all

lemma rbind_fold_res_Nil [simp]: "rbind m (fold_res f []) = m"
  by (cases m) simp_all

lemma fold_res_append: "fold_res f (xs @ ys) s = rbind (fold_res f xs s) (fold_res f ys)"
  by (induction xs arbitrary: s) (auto simp: rbind_assoc intro!: rbind_cong)

lemma map_res_rbind: "map_res f m = rbind m (\<lambda>x. Ok (f x))"
  by (cases m) simp_all

lemma map_res_eq_Ok [res_simps]: "map_res f m = Ok y \<longleftrightarrow> (\<exists>x. m = Ok x \<and> y = f x)"
  by (cases m) auto

lemma guard_simps [simp, res_simps]: "guard True e = Ok ()" "guard False e = Fault e"
  by (simp_all add: guard_def)

lemma guard_eq_Ok [res_simps]: "guard b e = Ok u \<longleftrightarrow> b"
  by (simp add: guard_def)

lemma guard_eq_Fault [res_simps]: "guard b e = Fault e' \<longleftrightarrow> \<not> b \<and> e' = e"
  by (auto simp: guard_def)

section \<open>Bytes, C strings and buffers\<close>

text \<open>
  A C string is the list of its characters before the terminating NUL.  \<open>c_str\<close> is what a
  \<open>const char *\<close> consumer sees of a \<open>std::string\<close> that may hold NUL bytes.
\<close>

definition byte_of_char :: "char \<Rightarrow> byte" where
  "byte_of_char c = of_char c"

definition c_str :: "string \<Rightarrow> string" where
  "c_str s = takeWhile (\<lambda>c. c \<noteq> CHR 0x00) s"

definition bytes_of_string :: "string \<Rightarrow> byte list" where
  "bytes_of_string s = map byte_of_char s"

lemma length_bytes_of_string [simp]: "length (bytes_of_string s) = length s"
  by (simp add: bytes_of_string_def)

lemma unat_byte_of_char: "unat (byte_of_char c) = of_char c"
proof -
  have "byte_of_char c = of_nat (of_char c)" by (simp add: byte_of_char_def of_nat_of_char)
  then show ?thesis using nat_of_char_less_256 [of c] by (simp only: unat_of_nat) simp
qed

lemma c_str_no_nul: "CHR 0x00 \<notin> set (c_str s)"
  by (auto simp: c_str_def dest: set_takeWhileD)

lemma c_str_id: "CHR 0x00 \<notin> set s \<Longrightarrow> c_str s = s"
  unfolding c_str_def by (rule takeWhile_eq_all_conv [THEN iffD2]) auto

text \<open>\<open>strcpy\<close> into an array of \<open>cap\<close> characters needs room for the text and its NUL.\<close>

definition strcpy_to :: "nat \<Rightarrow> string \<Rightarrow> string res" where
  "strcpy_to cap s = (if length s + 1 \<le> cap then Ok s else Fault Overflow)"

lemma strcpy_to_eq_Ok [res_simps]: "strcpy_to cap s = Ok t \<longleftrightarrow> length s + 1 \<le> cap \<and> t = s"
  by (auto simp: strcpy_to_def)

lemma strcpy_to_eq_Fault [res_simps]: "strcpy_to cap s = Fault e \<longleftrightarrow> cap < length s + 1 \<and> e = Overflow"
  by (auto simp: strcpy_to_def)

text \<open>Reads of a byte array, checked against its extent.\<close>

definition read_byte :: "byte list \<Rightarrow> nat \<Rightarrow> byte res" where
  "read_byte buf i = (if i < length buf then Ok (buf ! i) else Fault OutOfBounds)"

definition read_bytes :: "byte list \<Rightarrow> nat \<Rightarrow> nat \<Rightarrow> byte list res" where
  "read_bytes buf i n = (if i + n \<le> length buf then Ok (take n (drop i buf)) else Fault OutOfBounds)"

definition read_u16be :: "byte list \<Rightarrow> nat \<Rightarrow> u16 res" where
  "read_u16be buf i =
     rbind (read_byte buf i) (\<lambda>h. rbind (read_byte buf (i + 1)) (\<lambda>l.
       Ok (push_bit 8 (ucast h) OR ucast l)))"

definition u16_bytes :: "u16 \<Rightarrow> byte list" where
  "u16_bytes v = [ucast (drop_bit 8 v), ucast (v AND 0xff)]"

lemma length_u16_bytes [simp]: "length (u16_bytes v) = 2"
  by (simp add: u16_bytes_def)

lemma ff_mask: "(0xff :: 'a::len word) = mask 8"
  by (simp add: mask_eq_exp_minus_1)

lemma f_mask: "(0xf :: 'a::len word) = mask 4"
  by (simp add: mask_eq_exp_minus_1)

lemma unat_byte_less: "unat (b :: byte) < 256"
  using unsigned_less [of b] by simp

lemma unat_u16_less: "unat (v :: u16) < 65536"
  using unsigned_less [of v] by simp

lemma u16_join: "push_bit 8 (ucast (ucast (drop_bit 8 v) :: byte)) OR ucast (ucast (v AND 0xff) :: byte) = (v :: u16)"
  unfolding ff_mask by (rule bit_word_eqI) (auto simp: bit_simps)

lemma read_byte_simps [simp]:
  "read_byte [] i = Fault OutOfBounds"
  "read_byte (b # bs) 0 = Ok b"
  "read_byte (b # bs) (Suc i) = read_byte bs i"
  by (simp_all add: read_byte_def)

lemma read_byte_append [simp]:
  "length pre = i \<Longrightarrow> read_byte (pre @ b # post) i = Ok b"
  by (simp add: read_byte_def nth_append)

lemma read_byte_append_shift:
  "read_byte (pre @ xs) (length pre + i) = read_byte xs i"
  by (simp add: read_byte_def nth_append)

lemma read_bytes_append [simp]:
  "length pre = i \<Longrightarrow> length bs = n \<Longrightarrow> read_bytes (pre @ bs @ post) i n = Ok bs"
  by (auto simp: read_bytes_def)

lemma read_bytes_append_shift:
  "read_bytes (pre @ xs) (length pre + i) n = read_bytes xs i n"
  by (simp add: read_bytes_def)

lemma read_u16be_shift: "read_u16be (pre @ xs) (length pre + i) = read_u16be xs i"
proof -
  have "read_byte (pre @ xs) (length pre + i + 1) = read_byte xs (i + 1)"
    using read_byte_append_shift [of pre xs "i + 1"] by (simp add: add.assoc)
  then show ?thesis
    by (simp add: read_u16be_def read_byte_append_shift)
qed

lemma read_u16be_bytes: "read_u16be (u16_bytes v @ post) 0 = Ok v"
  by (simp add: read_u16be_def read_byte_def u16_bytes_def u16_join)

section \<open>Lists\<close>

text \<open>Dropping the first element that satisfies a predicate: \<open>erase\<close> after a search.\<close>

fun remove_first :: "('a \<Rightarrow> bool) \<Rightarrow> 'a list \<Rightarrow> 'a list" where
  "remove_first P [] = []"
| "remove_first P (x # xs) = (if P x then xs else x # remove_first P xs)"

lemma remove_first_none: "\<not> (\<exists>x\<in>set xs. P x) \<Longrightarrow> remove_first P xs = xs"
  by (induction xs) auto

lemma remove_first_snoc: "\<forall>x\<in>set xs. \<not> P x \<Longrightarrow> P y \<Longrightarrow> remove_first P (xs @ [y]) = xs"
  by (induction xs) auto

lemma find_snoc_fresh: "\<forall>x\<in>set xs. \<not> P x \<Longrightarrow> P y \<Longrightarrow> find P (xs @ [y]) = Some y"
  by (induction xs) auto

lemma find_map_if:
  "(\<And>x. k (f x) = k x) \<Longrightarrow> find (\<lambda>x. k x = b) (map (\<lambda>x. if k x = a then f x else x) xs)
     = (if a = b then map_option f (find (\<lambda>x. k x = b) xs) else find (\<lambda>x. k x = b) xs)"
  by (induction xs) auto

lemma find_append: "find P xs = Some x \<Longrightarrow> find P (xs @ ys) = Some x"
  by (induction xs) auto

lemma find_filter_other: "b \<noteq> a \<Longrightarrow> find (\<lambda>x. k x = b) (filter (\<lambda>x. k x \<noteq> a) xs) = find (\<lambda>x. k x = b) xs"
  by (induction xs) auto

lemma filter_fresh_key: "k \<notin> fst ` set xs \<Longrightarrow> filter (\<lambda>x. fst x \<noteq> k) xs = xs"
  by (induction xs) auto

lemma find_distinct: "distinct (map f xs) \<Longrightarrow> x \<in> set xs \<Longrightarrow> find (\<lambda>y. f y = f x) xs = Some x"
  by (induction xs) force+

lemma set_remove_first_subset: "set (remove_first P xs) \<subseteq> set xs"
  by (induction xs) auto

lemma remove_first_map: "remove_first P (map f xs) = map f (remove_first (P \<circ> f) xs)"
  by (induction xs) auto

lemma remove_first_distinct_keys:
  "distinct (map f xs) \<Longrightarrow> remove_first (\<lambda>x. f x = k) xs = filter (\<lambda>x. f x \<noteq> k) xs"
proof (induction xs)
  case Nil
  then show ?case by simp
next
  case (Cons x xs)
  show ?case
  proof (cases "f x = k")
    case True
    with Cons.prems have "k \<notin> f ` set xs" by auto
    then have "filter (\<lambda>x. f x \<noteq> k) xs = xs" by (auto simp: filter_id_conv)
    with True show ?thesis by simp
  next
    case False
    with Cons show ?thesis by simp
  qed
qed

lemma distinct_map_remove_first: "distinct (map f xs) \<Longrightarrow> distinct (map f (remove_first P xs))"
proof (induction xs)
  case Nil
  then show ?case by simp
next
  case (Cons x xs)
  have "f ` set (remove_first P xs) \<subseteq> f ` set xs"
    using set_remove_first_subset [of P xs] by blast
  with Cons show ?case by auto
qed

text \<open>The position a \<open>foreach\<close> with an early \<open>break\<close> stops at.\<close>

fun index_of :: "('a \<Rightarrow> bool) \<Rightarrow> 'a list \<Rightarrow> nat option" where
  "index_of P [] = None"
| "index_of P (x # xs) = (if P x then Some 0 else map_option Suc (index_of P xs))"

definition delete_at :: "nat \<Rightarrow> 'a list \<Rightarrow> 'a list" where
  "delete_at i xs = take i xs @ drop (Suc i) xs"

lemma index_of_None_iff: "index_of P xs = None \<longleftrightarrow> (\<forall>x\<in>set xs. \<not> P x)"
  by (induction xs) auto

lemma index_of_SomeD: "index_of P xs = Some i \<Longrightarrow> i < length xs \<and> P (xs ! i)"
  by (induction xs arbitrary: i) (auto split: if_splits)

lemma delete_at_Suc [simp]: "delete_at (Suc i) (x # xs) = x # delete_at i xs"
  by (simp add: delete_at_def)

lemma delete_at_0 [simp]: "delete_at 0 (x # xs) = xs"
  by (simp add: delete_at_def)

lemma delete_at_index_of:
  "index_of P xs = Some i \<Longrightarrow> delete_at i xs = remove_first P xs"
  by (induction xs arbitrary: i) (auto split: if_splits)

lemma length_delete_at: "i < length xs \<Longrightarrow> length (delete_at i xs) = length xs - 1"
  by (simp add: delete_at_def)

lemma list_all2_delete_at:
  "list_all2 P xs ys \<Longrightarrow> list_all2 P (delete_at i xs) (delete_at i ys)"
  unfolding delete_at_def by (intro list_all2_appendI list_all2_takeI list_all2_dropI)

lemma list_all_delete_at: "list_all P xs \<Longrightarrow> list_all P (delete_at i xs)"
  by (auto simp: list_all_iff delete_at_def dest: in_set_takeD in_set_dropD)

lemma map_delete_at: "map f (delete_at i xs) = delete_at i (map f xs)"
  by (simp add: delete_at_def take_map drop_map)

lemma index_of_map: "index_of P (map f xs) = index_of (P \<circ> f) xs"
  by (induction xs) simp_all

lemma fold_res_map: "fold_res f (map g xs) s = fold_res (\<lambda>x. f (g x)) xs s"
proof (induction xs arbitrary: s)
  case Nil
  then show ?case by simp
next
  case (Cons x xs)
  then show ?case by (auto intro!: rbind_cong)
qed

text \<open>\<open>strstr\<close> and \<open>std::string::find\<close>: whether a text occurs in another.\<close>

fun contains :: "string \<Rightarrow> string \<Rightarrow> bool" where
  "contains [] t = (t = [])"
| "contains (c # cs) t = (take (length t) (c # cs) = t \<or> contains cs t)"

section \<open>Printed numbers\<close>

fun base_string :: "nat \<Rightarrow> nat \<Rightarrow> string" where
  "base_string b n =
     (if b < 2 \<or> n < b then [''0123456789abcdef'' ! (n mod 16)]
      else base_string b (n div b) @ [''0123456789abcdef'' ! (n mod b)])"

declare base_string.simps [simp del]

definition dec_string :: "nat \<Rightarrow> string" where
  "dec_string n = base_string 10 n"

definition hex_string :: "nat \<Rightarrow> string" where
  "hex_string n = base_string 16 n"

definition pad_left :: "char \<Rightarrow> nat \<Rightarrow> string \<Rightarrow> string" where
  "pad_left c w s = replicate (w - length s) c @ s"

lemma base_string_nonempty [simp]: "base_string b n \<noteq> []"
  by (subst base_string.simps) simp

end
