(* ===== verification/HexCodec.thy ===== *)
theory HexCodec
  imports Prelude
begin

text \<open>
  \<open>utils/hex.cpp\<close>: the conversions between byte buffers and hexadecimal text.
  \<open>Hex2Bytes\<close> writes the bytes it decodes as it goes, so a caller that ignores the return
  value (as \<open>joiner_list_api.hpp\<close> and \<open>args_api.hpp\<close> do) sees a prefix of the destination
  overwritten; the model returns the value and the destination.
\<close>

section \<open>Decoding\<close>

definition hex_digit :: "char \<Rightarrow> byte option" where
  "hex_digit c =
     (let v = byte_of_char c in
      if 0x41 \<le> v \<and> v \<le> 0x46 then Some (10 + (v - 0x41))
      else if 0x61 \<le> v \<and> v \<le> 0x66 then Some (10 + (v - 0x61))
      else if 0x30 \<le> v \<and> v \<le> 0x39 then Some (v - 0x30)
      else None)"

text \<open>The \<open>while\<close> loop: the characters left, \<open>numChars\<close>, \<open>byte\<close> and the bytes already stored.\<close>

fun hex_loop :: "string \<Rightarrow> nat \<Rightarrow> byte \<Rightarrow> byte list \<Rightarrow> int \<times> byte list" where
  "hex_loop [] num_chars b out = (int (length out), out)"
| "hex_loop (c # cs) num_chars b out =
     (case hex_digit c of
        None \<Rightarrow> (-1, out)
      | Some d \<Rightarrow>
          (let b' = b OR d in
           if num_chars + 1 \<ge> 2 then hex_loop cs 0 0 (out @ [b'])
           else hex_loop cs (num_chars + 1) (push_bit 4 b') out))"

definition Hex2Bytes :: "string \<Rightarrow> byte list \<Rightarrow> nat \<Rightarrow> int \<times> byte list" where
  "Hex2Bytes hex dest bytes_length =
     (if (length hex + 1) div 2 > bytes_length then (-1, dest)
      else (case hex_loop hex (length hex mod 2) 0 [] of
              (ret, written) \<Rightarrow> (ret, written @ drop (length written) dest)))"

section \<open>Encoding\<close>

definition hex_char :: "nat \<Rightarrow> char" where
  "hex_char n = ''0123456789ABCDEF'' ! n"

text \<open>\<open>sprintf(byteHex, "%02X", cur[i])\<close>\<close>

definition byte_hex :: "byte \<Rightarrow> string" where
  "byte_hex b = [hex_char (unat (drop_bit 4 b)), hex_char (unat (b AND 0xf))]"

fun Bytes2Hex :: "byte list \<Rightarrow> string" where
  "Bytes2Hex [] = []"
| "Bytes2Hex (b # bs) = byte_hex b @ Bytes2Hex bs"

text \<open>The loop of \<open>Long2Hex\<close> over the \<open>sizeof(uint64_t)\<close> bytes of the value, lowest first.\<close>

fun long_hex_loop :: "nat \<Rightarrow> u64 \<Rightarrow> string" where
  "long_hex_loop 0 v = []"
| "long_hex_loop (Suc n) v = byte_hex (ucast (v AND 0xff)) @ long_hex_loop n (drop_bit 8 v)"

definition Long2Hex :: "u64 \<Rightarrow> string" where
  "Long2Hex v = long_hex_loop 8 v"

section \<open>Lemmas\<close>

lemma hex_loop_length:
  "hex_loop cs n b out = (r, w) \<Longrightarrow> n \<le> 1 \<Longrightarrow>
     length w \<le> length out + (length cs + n) div 2"
proof (induction cs n b out arbitrary: r w rule: hex_loop.induct)
  case (1 n b out)
  then show ?case by simp
next
  case (2 c cs n b out)
  show ?case
  proof (cases "hex_digit c")
    case None
    with 2 show ?thesis by simp
  next
    case (Some d)
    show ?thesis
    proof (cases "n + 1 \<ge> 2")
      case True
      from "2.prems" Some True have "hex_loop cs 0 0 (out @ [b OR d]) = (r, w)" by simp
      from "2.IH"(1) [OF Some refl True this]
      have "length w \<le> length (out @ [b OR d]) + (length cs + 0) div 2" by simp
      moreover have "n = 1" using "2.prems" True by simp
      ultimately show ?thesis by simp
    next
      case False
      with 2 Some show ?thesis by simp
    qed
  qed
qed

lemma hex_loop_ret:
  "hex_loop cs n b out = (r, w) \<Longrightarrow> r = -1 \<or> r = int (length w)"
proof (induction cs n b out arbitrary: r w rule: hex_loop.induct)
  case (1 n b out)
  then show ?case by auto
next
  case (2 c cs n b out)
  then show ?case
    by (cases "hex_digit c") (auto simp: Let_def split: if_splits)
qed

lemma hex_loop_full:
  "hex_loop cs n b out = (r, w) \<Longrightarrow> r \<noteq> -1 \<Longrightarrow> n \<le> 1 \<Longrightarrow> even (length cs + n) \<Longrightarrow>
     length w = length out + (length cs + n) div 2"
proof (induction cs n b out arbitrary: r w rule: hex_loop.induct)
  case (1 n b out)
  then show ?case by (cases n) auto
next
  case (2 c cs n b out)
  show ?case
  proof (cases "hex_digit c")
    case None
    with 2 show ?thesis by simp
  next
    case (Some d)
    show ?thesis
    proof (cases "n + 1 \<ge> 2")
      case True
      with 2 have n: "n = 1" by simp
      with 2 Some True have "length w = length (out @ [b OR d]) + (length cs + 0) div 2" by simp
      with n show ?thesis by simp
    next
      case False
      with 2 Some show ?thesis by simp
    qed
  qed
qed

lemma Hex2Bytes_length [simp]:
  "n \<le> length dest \<Longrightarrow> length (snd (Hex2Bytes hex dest n)) = length dest"
proof -
  assume n: "n \<le> length dest"
  obtain r w where w: "hex_loop hex (length hex mod 2) 0 [] = (r, w)"
    by (cases "hex_loop hex (length hex mod 2) 0 []") simp
  have "length w \<le> (length hex + length hex mod 2) div 2"
    using hex_loop_length [OF w] by simp
  moreover have "(length hex + length hex mod 2) div 2 = (length hex + 1) div 2"
    by presburger
  ultimately show ?thesis using n w by (auto simp: Hex2Bytes_def)
qed

lemma hex_digit_hex_char:
  "n < 16 \<Longrightarrow> hex_digit (hex_char n) = Some (word_of_nat n)"
proof -
  assume n: "n < 16"
  have "list_all (\<lambda>k. hex_digit (hex_char k) = Some (word_of_nat k)) [0..<16]"
    by (simp add: upt_conv_Cons hex_digit_def hex_char_def byte_of_char_def Let_def)
  with n show ?thesis by (simp add: list_all_iff)
qed

lemma nibbles: "push_bit 4 (drop_bit 4 b) OR (b AND 0xf) = (b :: byte)"
  unfolding f_mask by (rule bit_word_eqI) (auto simp: bit_simps)

lemma unat_high_nibble: "unat (drop_bit 4 (b :: byte)) < 16"
proof -
  have "unat b < 256" by (rule unat_byte_less)
  then show ?thesis by (simp add: drop_bit_eq_div unat_div)
qed

lemma unat_low_nibble: "unat ((b :: byte) AND 0xf) < 16"
proof -
  have "b AND 0xf \<le> 0xf" by (rule word_and_le1)
  then show ?thesis by (simp add: word_le_nat_alt)
qed

lemma hex_loop_byte_hex:
  "hex_loop (byte_hex b @ cs) 0 0 out = hex_loop cs 0 0 (out @ [b])"
  by (simp add: byte_hex_def hex_digit_hex_char unat_high_nibble unat_low_nibble nibbles)

lemma hex_loop_Bytes2Hex:
  "hex_loop (Bytes2Hex bs @ cs) 0 0 out = hex_loop cs 0 0 (out @ bs)"
  by (induction bs arbitrary: out) (simp_all add: hex_loop_byte_hex)

lemma length_byte_hex [simp]: "length (byte_hex b) = 2"
  by (simp add: byte_hex_def)

lemma length_Bytes2Hex [simp]: "length (Bytes2Hex bs) = 2 * length bs"
  by (induction bs) simp_all

lemma Bytes2Hex_append: "Bytes2Hex (bs @ cs) = Bytes2Hex bs @ Bytes2Hex cs"
  by (induction bs) simp_all

lemma hex_char_inject: "m < 16 \<Longrightarrow> n < 16 \<Longrightarrow> hex_char m = hex_char n \<Longrightarrow> m = n"
proof -
  assume m: "m < 16" and n: "n < 16" and eq: "hex_char m = hex_char n"
  have "(word_of_nat m :: byte) = word_of_nat n"
    using hex_digit_hex_char [OF m] hex_digit_hex_char [OF n] eq by simp
  then have "unat (word_of_nat m :: byte) = unat (word_of_nat n :: byte)" by simp
  then show ?thesis using m n by (simp add: unat_of_nat)
qed

lemma long_hex_loop_Bytes2Hex:
  "long_hex_loop n v = Bytes2Hex (map (\<lambda>i. ucast (drop_bit (8 * i) v)) [0..<n])"
proof (induction n arbitrary: v)
  case 0
  then show ?case by simp
next
  case (Suc n)
  have low: "(ucast (v AND 0xff) :: byte) = ucast v"
    unfolding ff_mask by (rule bit_word_eqI) (auto simp: bit_simps)
  have sh: "map (\<lambda>i. ucast (drop_bit (8 * i) (drop_bit 8 v)) :: byte) [0..<n]
      = map (\<lambda>i. ucast (drop_bit (8 * i) v)) [Suc 0..<Suc n]"
    by (simp add: map_Suc_upt [symmetric] add.commute del: upt_Suc)
  show ?case
    by (simp only: long_hex_loop.simps Suc.IH low sh) (simp add: upt_rec [of 0 "Suc n"] del: upt_Suc)
qed

section \<open>Properties\<close>

text \<open>
  C40: decoding the text \<open>Bytes2Hex\<close> prints for a byte string, into a destination of exactly
  that size, succeeds with the number of bytes and restores every byte of the string.
\<close>

theorem Hex2Bytes_Bytes2Hex:
  assumes "length dest = length bs"
  shows "Hex2Bytes (Bytes2Hex bs) dest (length bs) = (int (length bs), bs)"
proof -
  have "hex_loop (Bytes2Hex bs) 0 0 [] = (int (length bs), bs)"
    using hex_loop_Bytes2Hex [of bs "[]" "[]"] by simp
  with assms show ?thesis by (simp add: Hex2Bytes_def)
qed

theorem Hex2Bytes_Bytes2Hex_witness:
  "Hex2Bytes (Bytes2Hex [0x18, 0xb4, 0x30]) [0, 0, 0] 3 = (3, [0x18, 0xb4, 0x30])"
  using Hex2Bytes_Bytes2Hex [of "[0, 0, 0]" "[0x18, 0xb4, 0x30]"]
  by (simp add: numeral_3_eq_3)

end
