(* ===== verification/Crc.thy ===== *)
theory Crc
  imports Prelude
begin

text \<open>
  \<open>utils/crc16.hpp\<close> and \<open>utils/crc16.cpp\<close>: the 16-bit CRC over the CCITT and ANSI polynomials
  that picks the two Bloom-filter bits of a joiner.  The code folds a whole byte into the top
  of the register and then shifts eight times; the lemmas relate this to the textbook
  bit-serial register that takes the message one bit at a time.
\<close>

section \<open>The class Crc16\<close>

datatype polynomial = kCcitt | kAnsi

fun polynomial_value :: "polynomial \<Rightarrow> u16" where
  "polynomial_value kCcitt = 0x1021"
| "polynomial_value kAnsi = 0x8005"

record crc16 =
  mPolynomial :: u16
  mCrc :: u16

definition crc_Init :: "crc16 \<Rightarrow> crc16" where
  "crc_Init c = c\<lparr>mCrc := 0\<rparr>"

definition new_Crc16 :: "polynomial \<Rightarrow> crc16" where
  "new_Crc16 p = crc_Init \<lparr>mPolynomial = polynomial_value p, mCrc = 0\<rparr>"

definition crc_shift :: "u16 \<Rightarrow> u16 \<Rightarrow> u16" where
  "crc_shift poly crc =
     (if crc AND 0x8000 \<noteq> 0 then push_bit 1 crc XOR poly else push_bit 1 crc)"

text \<open>\<open>i = 8; do { ... } while (--i);\<close>\<close>

fun crc_rounds :: "nat \<Rightarrow> u16 \<Rightarrow> u16 \<Rightarrow> u16" where
  "crc_rounds 0 poly crc = crc"
| "crc_rounds (Suc i) poly crc = crc_rounds i poly (crc_shift poly crc)"

lemma crc_rounds_numeral [simp]:
  "crc_rounds (numeral k) poly crc = crc_rounds (pred_numeral k) poly (crc_shift poly crc)"
  by (simp add: numeral_eq_Suc)

definition crc_Update :: "byte \<Rightarrow> crc16 \<Rightarrow> crc16" where
  "crc_Update b c = c\<lparr>mCrc := crc_rounds 8 (mPolynomial c) (mCrc c XOR push_bit 8 (ucast b))\<rparr>"

definition crc_Get :: "crc16 \<Rightarrow> u16" where
  "crc_Get c = mCrc c"

definition crc_bytes :: "polynomial \<Rightarrow> byte list \<Rightarrow> u16" where
  "crc_bytes p bs = crc_Get (fold crc_Update bs (new_Crc16 p))"

section \<open>The bit-serial register\<close>

definition feed_bit :: "u16 \<Rightarrow> u16 \<Rightarrow> bool \<Rightarrow> u16" where
  "feed_bit poly crc b = push_bit 1 crc XOR (if bit crc 15 \<noteq> b then poly else 0)"

definition msb_first :: "byte \<Rightarrow> bool list" where
  "msb_first b = map (bit b) [7, 6, 5, 4, 3, 2, 1, 0]"

definition serial_crc :: "u16 \<Rightarrow> u16 \<Rightarrow> bool list \<Rightarrow> u16" where
  "serial_crc poly crc bits = foldl (feed_bit poly) crc bits"

lemma top_bit: "(crc AND 0x8000 \<noteq> 0) = bit (crc :: u16) 15"
  using and_exp_eq_0_iff_not_bit [of crc 15] by simp

lemma crc_shift_feed_bit: "crc_shift poly crc = feed_bit poly crc False"
  by (simp add: crc_shift_def feed_bit_def top_bit)

lemma feed_bit_absorb:
  "n < 8 \<Longrightarrow> feed_bit poly (x XOR push_bit (8 + n) (ucast (b :: byte))) False
     = feed_bit poly x (bit b (7 - n)) XOR push_bit (8 + Suc n) (ucast b)"
proof -
  assume n: "n < 8"
  have sh: "push_bit 1 (x XOR push_bit (8 + n) (ucast b :: u16))
      = push_bit 1 x XOR push_bit (8 + Suc n) (ucast b)"
    by (rule bit_word_eqI) (auto simp: bit_simps)
  have "15 - (8 + n) = 7 - n" using n by simp
  then have top: "bit (x XOR push_bit (8 + n) (ucast b :: u16)) 15 = (bit x 15 \<noteq> bit b (7 - n))"
    using n by (auto simp: bit_simps)
  have "feed_bit poly (x XOR push_bit (8 + n) (ucast b)) False
      = (push_bit 1 x XOR push_bit (8 + Suc n) (ucast b))
        XOR (if bit x 15 \<noteq> bit b (7 - n) then poly else 0)"
    by (simp only: feed_bit_def sh top simp_thms)
  also have "\<dots> = feed_bit poly x (bit b (7 - n)) XOR push_bit (8 + Suc n) (ucast b)"
    by (simp only: feed_bit_def ac_simps)
  finally show ?thesis .
qed

lemma crc_rounds_feed:
  "n + k = 8 \<Longrightarrow> crc_rounds k poly (x XOR push_bit (8 + n) (ucast (b :: byte)))
     = foldl (feed_bit poly) x (map (\<lambda>i. bit b (7 - i)) [n..<8])"
proof (induction k arbitrary: n x)
  case 0
  have "push_bit (8 + n) (ucast b :: u16) = 0"
    using "0" by (intro bit_word_eqI) (auto simp: bit_simps)
  with "0" show ?case by simp
next
  case (Suc k)
  then have n: "n < 8" by simp
  have "crc_rounds (Suc k) poly (x XOR push_bit (8 + n) (ucast b))
      = crc_rounds k poly (feed_bit poly x (bit b (7 - n)) XOR push_bit (8 + Suc n) (ucast b))"
    by (simp only: crc_rounds.simps crc_shift_feed_bit feed_bit_absorb [OF n])
  also have "\<dots> = foldl (feed_bit poly) (feed_bit poly x (bit b (7 - n)))
      (map (\<lambda>i. bit b (7 - i)) [Suc n..<8])"
    using Suc.prems by (intro Suc.IH) simp
  also have "\<dots> = foldl (feed_bit poly) x (map (\<lambda>i. bit b (7 - i)) [n..<8])"
    using n by (simp add: upt_rec [of n 8])
  finally show ?case .
qed

lemma msb_first_upt: "msb_first b = map (\<lambda>i. bit b (7 - i)) [0..<8]"
  by (simp add: msb_first_def upt_rec)

lemma crc_Update_serial:
  "mCrc (crc_Update b c) = serial_crc (mPolynomial c) (mCrc c) (msb_first b)"
  using crc_rounds_feed [of 0 8 "mPolynomial c" "mCrc c" b]
  by (simp add: crc_Update_def serial_crc_def msb_first_upt)

lemma mPolynomial_crc_Update [simp, frame_simps]: "mPolynomial (crc_Update b c) = mPolynomial c"
  by (simp add: crc_Update_def)

lemma fold_crc_Update_serial:
  "mCrc (fold crc_Update bs c) = serial_crc (mPolynomial c) (mCrc c) (concat (map msb_first bs))"
  by (induction bs arbitrary: c) (simp_all add: crc_Update_serial serial_crc_def)

text \<open>The register is linear: what two messages leave behind adds up bit by bit.\<close>

lemma feed_bit_linear:
  "feed_bit poly (x XOR y) (a = (\<not> b)) = feed_bit poly x a XOR feed_bit poly y b"
proof -
  have "push_bit 1 (x XOR y) = push_bit 1 x XOR push_bit 1 y"
    by (rule bit_word_eqI) (auto simp: bit_simps)
  then show ?thesis
    by (cases "bit x 15"; cases "bit y 15"; cases a; cases b)
      (simp_all add: feed_bit_def bit_simps ac_simps)
qed

lemma serial_crc_linear:
  "length as = length bs \<Longrightarrow>
     serial_crc poly (x XOR y) (map2 (\<lambda>a b. a = (\<not> b)) as bs) = serial_crc poly x as XOR serial_crc poly y bs"
proof (induction as bs arbitrary: x y rule: list_induct2)
  case Nil
  then show ?case by (simp add: serial_crc_def)
next
  case (Cons a as b bs)
  then show ?case by (simp add: serial_crc_def feed_bit_linear)
qed

section \<open>Properties\<close>

text \<open>
  C31: running the byte-wise \<open>Crc16\<close> over a message gives the remainder of the bit-serial shift
  register of the same polynomial, fed the message's bits most significant first from zero.
\<close>

theorem crc_bytes_serial:
  "crc_bytes p bs = serial_crc (polynomial_value p) 0 (concat (map msb_first bs))"
  by (simp add: crc_bytes_def crc_Get_def fold_crc_Update_serial new_Crc16_def crc_Init_def)

lemma crc_bytes_check: "crc_bytes kCcitt (bytes_of_string ''123456789'') = 0x31C3"
  by (simp add: crc_bytes_def crc_Get_def crc_Update_def new_Crc16_def crc_Init_def
      crc_shift_def bytes_of_string_def byte_of_char_def)

end
