(* ===== verification/Constants.thy ===== *)
theory Constants
  imports Prelude
begin

text \<open>
  \<open>commissioner/commissioner_constants.hpp\<close>: the sizes and limits the commissioner's parts share.
\<close>

definition kSizeMaxPacket :: nat where "kSizeMaxPacket = 1500"
definition kPetitionMaxRetry :: int where "kPetitionMaxRetry = 2"
definition kSteeringDefaultLength :: nat where "kSteeringDefaultLength = 15"
definition kEui64Len :: nat where "kEui64Len = 8"
definition kPSKdLength :: nat where "kPSKdLength = 32"
definition kPortJoinerSession :: u16 where "kPortJoinerSession = 49192"
definition kXpanidLength :: nat where "kXpanidLength = 8"
definition kNetworkNameLenMax :: nat where "kNetworkNameLenMax = 16"
definition kBorderRouterPassPhraseLen :: nat where "kBorderRouterPassPhraseLen = 64"
definition kIPAddrNameBufSize :: nat where "kIPAddrNameBufSize = 46"
definition kPortNameBufSize :: nat where "kPortNameBufSize = 6"
definition kKEKSize :: nat where "kKEKSize = 32"

end
