(* ===== verification/Steering.thy ===== *)
theory Steering
  imports Crc Constants
begin

text \<open>
  \<open>utils/steering_data.hpp\<close>, \<open>utils/steering_data.cpp\<close> and \<open>commissioner/device_hash.cpp\<close>:
  the steering data a commissioner announces, a Bloom filter over the hash of the EUI-64 of
  every device that may join.  SHA-256 comes from mbedtls and is a parameter \<open>sha\<close>.

  The locale \<open>membership_filter\<close> is what the clients of a filter rely on: adding a key never
  faults, the key is then found, and no key found before is lost.
\<close>

section \<open>The interface of a filter\<close>

locale membership_filter =
  fixes add :: "'k \<Rightarrow> 'f \<Rightarrow> 'f res"
    and test :: "'f \<Rightarrow> 'k \<Rightarrow> bool"
    and invar :: "'f \<Rightarrow> bool"
    and key :: "'k \<Rightarrow> bool"
  assumes add_total: "invar f \<Longrightarrow> key k \<Longrightarrow> \<exists>f'. add k f = Ok f' \<and> invar f'"
    and add_hit: "invar f \<Longrightarrow> key k \<Longrightarrow> add k f = Ok f' \<Longrightarrow> test f' k"
    and add_mono: "invar f \<Longrightarrow> key k \<Longrightarrow> add k f = Ok f' \<Longrightarrow> test f j \<Longrightarrow> test f' j"
begin

lemma add_all_total:
  "invar f \<Longrightarrow> list_all key ks \<Longrightarrow> \<exists>f'. fold_res add ks f = Ok f' \<and> invar f'"
proof (induction ks arbitrary: f)
  case Nil
  then show ?case by simp
next
  case (Cons k ks)
  then obtain g where "add k f = Ok g" "invar g" using add_total [of f k] by auto
  with Cons show ?case by auto
qed

lemma add_all_hit:
  "invar f \<Longrightarrow> list_all key ks \<Longrightarrow> fold_res add ks f = Ok f' \<Longrightarrow> k \<in> set ks \<or> test f k \<Longrightarrow> test f' k"
proof (induction ks arbitrary: f)
  case Nil
  then show ?case by simp
next
  case (Cons j ks)
  then obtain g where g: "add j f = Ok g" "invar g" using add_total [of f j] by auto
  with Cons.prems have "k \<in> set ks \<or> test g k"
    using add_hit [of f j g] add_mono [of f j g] by auto
  with g Cons show ?case by auto
qed

end

section \<open>The class SteeringData\<close>

definition kMaxSizeOfBloomFilter :: nat where "kMaxSizeOfBloomFilter = 16"

definition kSizeJoinerId :: nat where "kSizeJoinerId = 8"

record steering_data =
  mBloomFilter :: "byte list"
  mLength :: nat

definition sd_Clear :: "steering_data \<Rightarrow> steering_data" where
  "sd_Clear sd = sd\<lparr>mBloomFilter := replicate (length (mBloomFilter sd)) 0\<rparr>"

definition sd_Set :: "steering_data \<Rightarrow> steering_data" where
  "sd_Set sd = sd\<lparr>mBloomFilter := replicate (length (mBloomFilter sd)) 0xff\<rparr>"

definition sd_Init :: "nat \<Rightarrow> steering_data \<Rightarrow> steering_data res" where
  "sd_Init len sd =
     rbind (guard (len \<le> kMaxSizeOfBloomFilter) AssertFail) (\<lambda>_. Ok (sd_Clear (sd\<lparr>mLength := len\<rparr>)))"

definition sd_SetBit :: "nat \<Rightarrow> steering_data \<Rightarrow> steering_data res" where
  "sd_SetBit aBit sd =
     (let i = int (mLength sd) - 1 - int (aBit div 8) in
      if 0 \<le> i \<and> nat i < length (mBloomFilter sd)
      then Ok (sd\<lparr>mBloomFilter := (mBloomFilter sd)
                   [nat i := mBloomFilter sd ! nat i OR push_bit (aBit mod 8) 1]\<rparr>)
      else Fault OutOfBounds)"

definition sd_ComputeJoinerId :: "(byte list \<Rightarrow> byte list) \<Rightarrow> byte list \<Rightarrow> byte list" where
  "sd_ComputeJoinerId sha aEui64 =
     (let joinerId = take kSizeJoinerId (sha (take 8 aEui64)) in joinerId[0 := joinerId ! 0 OR 2])"

definition sd_ComputeBloomFilter :: "byte list \<Rightarrow> steering_data \<Rightarrow> steering_data res" where
  "sd_ComputeBloomFilter aJoinerId sd =
     rbind (read_bytes aJoinerId 0 kSizeJoinerId) (\<lambda>joiner_id.
       let numBits = mLength sd * 8;
           ccitt = unat (crc_bytes kCcitt joiner_id);
           ansi = unat (crc_bytes kAnsi joiner_id)
       in rbind (guard (numBits \<noteq> 0) DivByZero) (\<lambda>_.
          rbind (sd_SetBit (ccitt mod numBits mod 256) sd) (\<lambda>sd'.
          sd_SetBit (ansi mod numBits mod 256) sd')))"

section \<open>device\_hash.cpp\<close>

definition ComputeHashMac :: "(byte list \<Rightarrow> byte list) \<Rightarrow> byte list \<Rightarrow> byte list" where
  "ComputeHashMac sha aEui64Bin =
     (let hash_result = sha (take kEui64Len aEui64Bin); out = take 8 hash_result
      in out[0 := out ! 0 OR 2])"

definition ComputeSteeringData ::
  "(byte list \<Rightarrow> byte list) \<Rightarrow> bool \<Rightarrow> byte list \<Rightarrow> steering_data \<Rightarrow> steering_data res" where
  "ComputeSteeringData sha aAllowAny aEui64Bin sd =
     (if aAllowAny then Ok (sd_Set sd)
      else sd_ComputeBloomFilter (ComputeHashMac sha aEui64Bin) sd)"

section \<open>Lemmas\<close>

text \<open>What a joiner tests: bit \<open>b\<close> of the filter, counted from the last byte announced.\<close>

definition sd_bit :: "steering_data \<Rightarrow> nat \<Rightarrow> bool" where
  "sd_bit sd b = bit (mBloomFilter sd ! (mLength sd - 1 - b div 8)) (b mod 8)"

definition joiner_bits :: "nat \<Rightarrow> byte list \<Rightarrow> nat set" where
  "joiner_bits len joiner_id =
     {unat (crc_bytes kCcitt joiner_id) mod (len * 8), unat (crc_bytes kAnsi joiner_id) mod (len * 8)}"

definition sd_admits :: "steering_data \<Rightarrow> byte list \<Rightarrow> bool" where
  "sd_admits sd joiner_id \<longleftrightarrow> (\<forall>b\<in>joiner_bits (mLength sd) joiner_id. sd_bit sd b)"

definition sd_inv :: "steering_data \<Rightarrow> bool" where
  "sd_inv sd \<longleftrightarrow> length (mBloomFilter sd) = kMaxSizeOfBloomFilter
     \<and> 0 < mLength sd \<and> mLength sd \<le> kMaxSizeOfBloomFilter"

definition sha_ok :: "(byte list \<Rightarrow> byte list) \<Rightarrow> bool" where
  "sha_ok sha \<longleftrightarrow> (\<forall>m. length (sha m) = 32)"

lemmas steering_consts = kMaxSizeOfBloomFilter_def kSizeJoinerId_def kEui64Len_def

lemma sd_Clear_simps [simp, frame_simps]:
  "mLength (sd_Clear sd) = mLength sd" "sd_inv (sd_Clear sd) = sd_inv sd"
  "mLength (sd_Set sd) = mLength sd" "sd_inv (sd_Set sd) = sd_inv sd"
  by (simp_all add: sd_Clear_def sd_Set_def sd_inv_def)

lemma sd_bit_Clear: "sd_inv sd \<Longrightarrow> b < mLength sd * 8 \<Longrightarrow> \<not> sd_bit (sd_Clear sd) b"
  by (auto simp: sd_bit_def sd_Clear_def sd_inv_def)

lemma sd_bit_Set: "sd_inv sd \<Longrightarrow> b < mLength sd * 8 \<Longrightarrow> sd_bit (sd_Set sd) b"
proof -
  assume inv: "sd_inv sd"
  then have "mLength sd - 1 - b div 8 < length (mBloomFilter sd)" by (auto simp: sd_inv_def)
  moreover have "b mod 8 < 8" by simp
  ultimately show ?thesis
    by (simp add: sd_bit_def sd_Set_def ff_mask bit_mask_iff)
qed

lemma bit_or_push: "j < 8 \<Longrightarrow> bit (x OR 2 ^ k :: byte) j \<longleftrightarrow> j = k \<or> bit x j"
  by (auto simp: bit_simps)

lemma sd_SetBit_ok:
  assumes inv: "sd_inv sd" and b: "b < mLength sd * 8"
  shows "\<exists>sd'. sd_SetBit b sd = Ok sd' \<and> sd_inv sd' \<and> mLength sd' = mLength sd
    \<and> (\<forall>j < mLength sd * 8. sd_bit sd' j \<longleftrightarrow> j = b \<or> sd_bit sd j)"
proof -
  define i where "i = mLength sd - 1 - b div 8"
  define sd' where "sd' = sd\<lparr>mBloomFilter := (mBloomFilter sd)
    [i := mBloomFilter sd ! i OR push_bit (b mod 8) 1]\<rparr>"
  have bd: "b div 8 < mLength sd" using b by (simp add: less_mult_imp_div_less)
  then have i: "int (mLength sd) - 1 - int (b div 8) = int i" "i < length (mBloomFilter sd)"
    using inv by (auto simp: i_def sd_inv_def)
  then have ok: "sd_SetBit b sd = Ok sd'" by (simp add: sd_SetBit_def sd'_def)
  have "sd_bit sd' j \<longleftrightarrow> j = b \<or> sd_bit sd j" if j: "j < mLength sd * 8" for j
  proof -
    have jd: "j div 8 < mLength sd" using j by (simp add: less_mult_imp_div_less)
    show ?thesis
    proof (cases "j div 8 = b div 8")
      case True
      then have "j = b \<longleftrightarrow> j mod 8 = b mod 8" by (metis div_mult_mod_eq)
      with True i(2) show ?thesis
        by (simp add: sd_bit_def sd'_def i_def bit_or_push)
    next
      case False
      then have "mLength sd - 1 - j div 8 \<noteq> i" using bd jd by (simp add: i_def)
      with False show ?thesis by (auto simp: sd_bit_def sd'_def)
    qed
  qed
  moreover have "sd_inv sd'" "mLength sd' = mLength sd" using inv by (simp_all add: sd'_def sd_inv_def)
  ultimately show ?thesis using ok by blast
qed

lemma sd_ComputeBloomFilter_ok:
  assumes inv: "sd_inv sd" and len: "8 \<le> length joiner_id"
  shows "\<exists>sd'. sd_ComputeBloomFilter joiner_id sd = Ok sd' \<and> sd_inv sd' \<and> mLength sd' = mLength sd
    \<and> (\<forall>j < mLength sd * 8.
          sd_bit sd' j \<longleftrightarrow> j \<in> joiner_bits (mLength sd) (take 8 joiner_id) \<or> sd_bit sd j)"
proof -
  let ?n = "mLength sd * 8"
  let ?c = "unat (crc_bytes kCcitt (take 8 joiner_id)) mod ?n"
  let ?a = "unat (crc_bytes kAnsi (take 8 joiner_id)) mod ?n"
  have n: "0 < ?n" "?n \<le> 128" using inv by (auto simp: sd_inv_def steering_consts)
  then have ca: "?c < ?n" "?a < ?n" by simp_all
  with n have "?c < 256" "?a < 256" by linarith+
  then have m: "?c mod 256 = ?c" "?a mod 256 = ?a" by simp_all
  obtain s1 where s1: "sd_SetBit ?c sd = Ok s1" "sd_inv s1" "mLength s1 = mLength sd"
    "\<forall>j < ?n. sd_bit s1 j \<longleftrightarrow> j = ?c \<or> sd_bit sd j"
    using sd_SetBit_ok [OF inv ca(1)] by blast
  obtain s2 where s2: "sd_SetBit ?a s1 = Ok s2" "sd_inv s2" "mLength s2 = mLength sd"
    "\<forall>j < ?n. sd_bit s2 j \<longleftrightarrow> j = ?a \<or> sd_bit s1 j"
    using sd_SetBit_ok [of s1 ?a] s1 ca(2) by auto
  have "sd_ComputeBloomFilter joiner_id sd = Ok s2"
    using len n m s1(1) s2(1)
    by (simp add: sd_ComputeBloomFilter_def read_bytes_def steering_consts Let_def)
  with s1 s2 show ?thesis by (auto simp: joiner_bits_def)
qed

lemma joiner_bits_less: "0 < len \<Longrightarrow> b \<in> joiner_bits len i \<Longrightarrow> b < len * 8"
  by (auto simp: joiner_bits_def)

lemma sd_admits_ComputeBloomFilter:
  assumes inv: "sd_inv sd" and len: "8 \<le> length joiner_id"
    and ok: "sd_ComputeBloomFilter joiner_id sd = Ok sd'"
  shows "sd_inv sd'" "mLength sd' = mLength sd" "sd_admits sd' (take 8 joiner_id)"
    "sd_admits sd j \<Longrightarrow> sd_admits sd' j"
proof -
  have pos: "0 < mLength sd" using inv by (simp add: sd_inv_def)
  from sd_ComputeBloomFilter_ok [OF inv len] ok
  have f: "sd_inv sd'" "mLength sd' = mLength sd"
    "\<And>b. b < mLength sd * 8 \<Longrightarrow>
      sd_bit sd' b \<longleftrightarrow> b \<in> joiner_bits (mLength sd) (take 8 joiner_id) \<or> sd_bit sd b"
    by auto
  show "sd_inv sd'" "mLength sd' = mLength sd" by (fact f)+
  show "sd_admits sd' (take 8 joiner_id)"
    using f joiner_bits_less [OF pos] by (auto simp: sd_admits_def)
  show "sd_admits sd j \<Longrightarrow> sd_admits sd' j"
    using f joiner_bits_less [OF pos] by (auto simp: sd_admits_def)
qed

lemma length_ComputeHashMac: "sha_ok sha \<Longrightarrow> length (ComputeHashMac sha e) = 8"
  by (simp add: ComputeHashMac_def sha_ok_def Let_def)

lemma ComputeHashMac_joiner_id: "ComputeHashMac sha e = sd_ComputeJoinerId sha e"
  by (simp add: ComputeHashMac_def sd_ComputeJoinerId_def steering_consts Let_def)

interpretation bloom: membership_filter sd_ComputeBloomFilter sd_admits sd_inv "\<lambda>k. length k = 8"
proof
  fix f and k :: "byte list"
  assume "sd_inv f" "length k = 8"
  then show "\<exists>f'. sd_ComputeBloomFilter k f = Ok f' \<and> sd_inv f'"
    using sd_ComputeBloomFilter_ok [of f k] by auto
next
  fix f f' and k :: "byte list"
  assume "sd_inv f" "length k = 8" "sd_ComputeBloomFilter k f = Ok f'"
  then show "sd_admits f' k" using sd_admits_ComputeBloomFilter(3) [of f k f'] by simp
next
  fix f f' j and k :: "byte list"
  assume "sd_inv f" "length k = 8" "sd_ComputeBloomFilter k f = Ok f'" "sd_admits f j"
  then show "sd_admits f' j" using sd_admits_ComputeBloomFilter(4) [of f k f'] by simp
qed

text \<open>The keys a client hands over are EUI-64s; the filter stores their hash.\<close>

interpretation steering: membership_filter
  "ComputeSteeringData sha False" "\<lambda>sd e. sd_admits sd (ComputeHashMac sha e)" sd_inv "\<lambda>_. sha_ok sha"
  for sha
proof
  fix f e
  assume "sd_inv f" "sha_ok sha"
  then show "\<exists>f'. ComputeSteeringData sha False e f = Ok f' \<and> sd_inv f'"
    using bloom.add_total [of f "ComputeHashMac sha e"]
    by (simp add: ComputeSteeringData_def length_ComputeHashMac)
next
  fix f f' e
  assume "sd_inv f" "sha_ok sha" "ComputeSteeringData sha False e f = Ok f'"
  then show "sd_admits f' (ComputeHashMac sha e)"
    using bloom.add_hit [of f "ComputeHashMac sha e" f']
    by (simp add: ComputeSteeringData_def length_ComputeHashMac)
next
  fix f f' e j
  assume "sd_inv f" "sha_ok sha" "ComputeSteeringData sha False e f = Ok f'"
    "sd_admits f (ComputeHashMac sha j)"
  then show "sd_admits f' (ComputeHashMac sha j)"
    using bloom.add_mono [of f "ComputeHashMac sha e" f']
    by (simp add: ComputeSteeringData_def length_ComputeHashMac)
qed

lemma steering_bits_exact:
  assumes "sha_ok sha"
  shows "sd_inv sd \<Longrightarrow> \<exists>sd'. fold_res (ComputeSteeringData sha False) es sd = Ok sd' \<and> sd_inv sd'
    \<and> mLength sd' = mLength sd
    \<and> (\<forall>b < mLength sd * 8. sd_bit sd' b \<longleftrightarrow>
          (\<exists>e\<in>set es. b \<in> joiner_bits (mLength sd) (ComputeHashMac sha e)) \<or> sd_bit sd b)"
proof (induction es arbitrary: sd)
  case Nil
  then show ?case by simp
next
  case (Cons e es)
  have len: "8 \<le> length (ComputeHashMac sha e)" "take 8 (ComputeHashMac sha e) = ComputeHashMac sha e"
    using assms by (simp_all add: length_ComputeHashMac)
  obtain s1 where s1: "ComputeSteeringData sha False e sd = Ok s1" "sd_inv s1" "mLength s1 = mLength sd"
    "\<forall>j < mLength sd * 8. sd_bit s1 j \<longleftrightarrow>
       j \<in> joiner_bits (mLength sd) (ComputeHashMac sha e) \<or> sd_bit sd j"
    using sd_ComputeBloomFilter_ok [OF Cons.prems len(1)] len(2) by (auto simp: ComputeSteeringData_def)
  with Cons.IH [OF s1(2)] show ?case by auto
qed

section \<open>Properties\<close>

text \<open>
  C16: from an initialised filter of 1 to 16 bytes, adding the EUI-64s of any list of devices
  never faults, and afterwards a filter bit is set exactly when it is one of the two CRC
  positions of the hash of some device in the list: the result does not depend on order or
  repetition, and no listed device is turned away.
\<close>

theorem steering_data_exact:
  assumes "sha_ok sha" and "0 < len" and "len \<le> kMaxSizeOfBloomFilter"
    and "length (mBloomFilter sd) = kMaxSizeOfBloomFilter"
  shows "\<exists>s0 s1. sd_Init len sd = Ok s0 \<and> fold_res (ComputeSteeringData sha False) es s0 = Ok s1
    \<and> (\<forall>b < len * 8. sd_bit s1 b \<longleftrightarrow> (\<exists>e\<in>set es. b \<in> joiner_bits len (ComputeHashMac sha e)))
    \<and> (\<forall>e\<in>set es. sd_admits s1 (ComputeHashMac sha e))"
proof -
  define s0 where "s0 = sd_Clear (sd\<lparr>mLength := len\<rparr>)"
  have inv: "sd_inv s0" "mLength s0 = len" using assms(2-4) by (simp_all add: s0_def sd_inv_def sd_Clear_def)
  obtain s1 where s1: "fold_res (ComputeSteeringData sha False) es s0 = Ok s1"
    "\<forall>b < len * 8. sd_bit s1 b \<longleftrightarrow>
       (\<exists>e\<in>set es. b \<in> joiner_bits len (ComputeHashMac sha e)) \<or> sd_bit s0 b"
    using steering_bits_exact [OF assms(1) inv(1), of es] inv(2) by auto
  have "\<not> sd_bit s0 b" if "b < len * 8" for b
    using sd_bit_Clear [of "sd\<lparr>mLength := len\<rparr>" b] inv(1) that by (simp add: s0_def)
  moreover have "sd_admits s1 (ComputeHashMac sha e)" if "e \<in> set es" for e
    using steering.add_all_hit [OF inv(1) _ s1(1)] assms(1) that by (simp add: list_all_iff)
  moreover have "sd_Init len sd = Ok s0" using assms(3) by (simp add: sd_Init_def s0_def)
  ultimately show ?thesis using s1 by blast
qed

theorem steering_data_exact_witness:
  "\<exists>s0 s1. sd_Init 15 \<lparr>mBloomFilter = replicate 16 7, mLength = 0\<rparr> = Ok s0
    \<and> fold_res (ComputeSteeringData (\<lambda>_. replicate 32 0) False) [[1,2,3,4,5,6,7,8]] s0 = Ok s1
    \<and> sd_admits s1 (ComputeHashMac (\<lambda>_. replicate 32 0) [1,2,3,4,5,6,7,8])"
  using steering_data_exact [of "\<lambda>_. replicate 32 0" 15 "\<lparr>mBloomFilter = replicate 16 7, mLength = 0\<rparr>"
      "[[1,2,3,4,5,6,7,8]]"]
  by (auto simp: sha_ok_def steering_consts)

end
