(* ===== verification/TlvCodec.thy ===== *)
theory TlvCodec
  imports Prelude
begin

text \<open>
  \<open>common/tlv.hpp\<close>: the type-length-value records of the Thread management framework.  The
  code overlays a \<open>Tlv\<close> on a byte buffer and walks it with \<open>GetNext\<close>, so a TLV is modelled as
  an offset into the buffer; a read outside a received payload and a write outside the
  buffer a request is built in are faults.

  The locale \<open>tlv_handler\<close> is the contract of the response loops of \<open>commissioner.cpp\<close>: a loop
  body that acts on one well-formed TLV as an abstract step does makes the whole loop act on
  a payload of well-formed TLVs as the abstract steps in turn.
\<close>

section \<open>Reading a TLV in place\<close>

definition kLengthEscape :: byte where "kLengthEscape = 0xff"

definition tlv_GetType :: "byte list \<Rightarrow> nat \<Rightarrow> byte res" where
  "tlv_GetType buf p = read_byte buf p"

definition tlv_GetLength :: "byte list \<Rightarrow> nat \<Rightarrow> nat res" where
  "tlv_GetLength buf p =
     rbind (read_byte buf (p + 1)) (\<lambda>len.
       if len \<noteq> kLengthEscape then Ok (unat len)
       else map_res unat (read_u16be buf (p + 2)))"

text \<open>\<open>GetValue\<close>: the offset of the value.\<close>

definition tlv_GetValue :: "byte list \<Rightarrow> nat \<Rightarrow> nat res" where
  "tlv_GetValue buf p =
     rbind (read_byte buf (p + 1)) (\<lambda>len. Ok (p + 1 + (if len \<noteq> kLengthEscape then 1 else 3)))"

definition tlv_GetValueUInt16 :: "byte list \<Rightarrow> nat \<Rightarrow> u16 res" where
  "tlv_GetValueUInt16 buf p = rbind (tlv_GetValue buf p) (read_u16be buf)"

definition tlv_GetValueUInt8 :: "byte list \<Rightarrow> nat \<Rightarrow> byte res" where
  "tlv_GetValueUInt8 buf p = rbind (tlv_GetValue buf p) (read_byte buf)"

definition tlv_GetNext :: "byte list \<Rightarrow> nat \<Rightarrow> nat res" where
  "tlv_GetNext buf p =
     rbind (tlv_GetValue buf p) (\<lambda>v. rbind (tlv_GetLength buf p) (\<lambda>n. Ok (v + n)))"

section \<open>Writing a TLV in place\<close>

definition write_bytes :: "byte list \<Rightarrow> nat \<Rightarrow> byte list \<Rightarrow> byte list res" where
  "write_bytes buf p bs =
     (if p + length bs \<le> length buf then Ok (take p buf @ bs @ drop (p + length bs) buf)
      else Fault Overflow)"

definition tlv_SetType :: "byte \<Rightarrow> byte list \<Rightarrow> nat \<Rightarrow> byte list res" where
  "tlv_SetType t buf p = write_bytes buf p [t]"

definition length_field :: "nat \<Rightarrow> bool \<Rightarrow> byte list" where
  "length_field n force =
     (if n \<ge> unat kLengthEscape \<or> force then kLengthEscape # u16_bytes (word_of_nat n)
      else [word_of_nat n])"

definition tlv_SetLength :: "nat \<Rightarrow> bool \<Rightarrow> byte list \<Rightarrow> nat \<Rightarrow> byte list res" where
  "tlv_SetLength aLength aForceExtended buf p =
     write_bytes buf (p + 1) (length_field aLength aForceExtended)"

text \<open>The three \<open>SetValue\<close> overloads; the length argument is a \<open>uint16_t\<close>.\<close>

definition tlv_SetValueBytes :: "byte list \<Rightarrow> bool \<Rightarrow> byte list \<Rightarrow> nat \<Rightarrow> byte list res" where
  "tlv_SetValueBytes aValue aForceExtended buf p =
     rbind (tlv_SetLength (length aValue) aForceExtended buf p) (\<lambda>buf'.
     rbind (tlv_GetValue buf' p) (\<lambda>v. write_bytes buf' v aValue))"

definition tlv_SetValueUInt16 :: "u16 \<Rightarrow> byte list \<Rightarrow> nat \<Rightarrow> byte list res" where
  "tlv_SetValueUInt16 aValue buf p =
     rbind (tlv_SetLength 2 False buf p) (\<lambda>buf'.
     rbind (tlv_GetValue buf' p) (\<lambda>v. write_bytes buf' v (u16_bytes aValue)))"

definition tlv_SetValueUInt8 :: "byte \<Rightarrow> byte list \<Rightarrow> nat \<Rightarrow> byte list res" where
  "tlv_SetValueUInt8 aValue buf p =
     rbind (tlv_SetLength 1 False buf p) (\<lambda>buf'.
     rbind (tlv_GetValue buf' p) (\<lambda>v. write_bytes buf' v [aValue]))"

section \<open>TLVs on the wire\<close>

datatype wire_tlv = WTlv (w_type: byte) (w_force: bool) (w_value: "byte list")

definition tlv_bytes :: "wire_tlv \<Rightarrow> byte list" where
  "tlv_bytes t = w_type t # length_field (length (w_value t)) (w_force t) @ w_value t"

definition tlvs_bytes :: "wire_tlv list \<Rightarrow> byte list" where
  "tlvs_bytes ts = concat (map tlv_bytes ts)"

definition wire_ok :: "wire_tlv \<Rightarrow> bool" where
  "wire_ok t \<longleftrightarrow> length (w_value t) < 65536"

lemma length_field_cases:
  "n < 65536 \<Longrightarrow>
     (length_field n f = [word_of_nat n] \<and> n < 255 \<and> \<not> f) \<or>
     (length_field n f = kLengthEscape # u16_bytes (word_of_nat n) \<and> (255 \<le> n \<or> f))"
  by (auto simp: length_field_def kLengthEscape_def)

lemma word_of_nat_not_escape: "n < 255 \<Longrightarrow> (word_of_nat n :: byte) \<noteq> kLengthEscape"
proof
  assume n: "n < 255" and eq: "(word_of_nat n :: byte) = kLengthEscape"
  from eq have "unat (word_of_nat n :: byte) = 255" by (simp add: kLengthEscape_def)
  with n show False by (simp add: unat_of_nat)
qed

lemma length_field_length: "length (length_field n f) = (if n \<ge> 255 \<or> f then 3 else 1)"
  by (simp add: length_field_def kLengthEscape_def)

lemma tlv_bytes_length_ge: "2 \<le> length (tlv_bytes t)"
  by (simp add: tlv_bytes_def length_field_length)

lemma tlv_bytes_nonempty [simp]: "tlv_bytes t \<noteq> []"
  by (simp add: tlv_bytes_def)

lemma tlvs_bytes_simps [simp]:
  "tlvs_bytes [] = []" "tlvs_bytes (t # ts) = tlv_bytes t @ tlvs_bytes ts"
  by (simp_all add: tlvs_bytes_def)

text \<open>Reading at an offset of \<open>pre @ rest\<close> is reading \<open>rest\<close> from its start.\<close>

lemma read_at [simp]:
  "read_byte (pre @ xs) (length pre) = read_byte xs 0"
  "read_byte (pre @ xs) (Suc (length pre)) = read_byte xs (Suc 0)"
  using read_byte_append_shift [of pre xs 0] read_byte_append_shift [of pre xs 1] by simp_all

lemma tlv_GetType_wire: "tlv_GetType (pre @ tlv_bytes t @ post) (length pre) = Ok (w_type t)"
  by (simp add: tlv_GetType_def tlv_bytes_def)

lemma tlv_GetValue_wire:
  assumes "wire_ok t"
  shows "tlv_GetValue (pre @ tlv_bytes t @ post) (length pre)
    = Ok (length pre + 1 + length (length_field (length (w_value t)) (w_force t)))"
proof -
  from assms have n: "length (w_value t) < 65536" by (simp add: wire_ok_def)
  show ?thesis
    using length_field_cases [OF n, of "w_force t"]
    by (auto simp: tlv_GetValue_def tlv_bytes_def word_of_nat_not_escape)
qed

lemma tlv_GetLength_wire:
  assumes "wire_ok t"
  shows "tlv_GetLength (pre @ tlv_bytes t @ post) (length pre) = Ok (length (w_value t))"
proof -
  from assms have n: "length (w_value t) < 65536" by (simp add: wire_ok_def)
  consider (short) "length_field (length (w_value t)) (w_force t) = [word_of_nat (length (w_value t))]"
      "length (w_value t) < 255"
    | (long) "length_field (length (w_value t)) (w_force t)
        = kLengthEscape # u16_bytes (word_of_nat (length (w_value t)))"
    using length_field_cases [OF n, of "w_force t"] by blast
  then show ?thesis
  proof cases
    case short
    then show ?thesis
      by (simp add: tlv_GetLength_def tlv_bytes_def word_of_nat_not_escape unat_of_nat)
  next
    case lf: long
    have "read_u16be (pre @ tlv_bytes t @ post) (length pre + 2)
        = read_u16be (u16_bytes (word_of_nat (length (w_value t))) @ w_value t @ post) 0"
      using read_u16be_shift [of "pre @ [w_type t, kLengthEscape]"
          "u16_bytes (word_of_nat (length (w_value t))) @ w_value t @ post" 0]
      by (simp add: tlv_bytes_def lf)
    moreover have "read_byte (tlv_bytes t @ post) (Suc 0) = Ok kLengthEscape"
      by (simp add: tlv_bytes_def lf)
    ultimately show ?thesis
      using n by (simp add: tlv_GetLength_def read_u16be_bytes unat_of_nat)
  qed
qed

lemma tlv_GetNext_wire:
  assumes "wire_ok t"
  shows "tlv_GetNext (pre @ tlv_bytes t @ post) (length pre) = Ok (length (pre @ tlv_bytes t))"
  using tlv_GetValue_wire [OF assms] tlv_GetLength_wire [OF assms]
  by (simp add: tlv_GetNext_def tlv_bytes_def)

text \<open>A read of the first bytes of the value.\<close>

lemma tlv_value_shift:
  assumes "wire_ok t" and "tlv_GetValue (pre @ tlv_bytes t @ post) (length pre) = Ok v"
  shows "read_byte (pre @ tlv_bytes t @ post) (v + i) = read_byte (w_value t @ post) i"
    and "read_u16be (pre @ tlv_bytes t @ post) (v + i) = read_u16be (w_value t @ post) i"
    and "read_bytes (pre @ tlv_bytes t @ post) (v + i) n = read_bytes (w_value t @ post) i n"
proof -
  let ?hd = "pre @ w_type t # length_field (length (w_value t)) (w_force t)"
  have v: "v = length ?hd" using assms tlv_GetValue_wire by auto
  have buf: "pre @ tlv_bytes t @ post = ?hd @ w_value t @ post" by (simp add: tlv_bytes_def)
  show "read_byte (pre @ tlv_bytes t @ post) (v + i) = read_byte (w_value t @ post) i"
    unfolding buf v by (rule read_byte_append_shift)
  show "read_u16be (pre @ tlv_bytes t @ post) (v + i) = read_u16be (w_value t @ post) i"
    unfolding buf v by (rule read_u16be_shift)
  show "read_bytes (pre @ tlv_bytes t @ post) (v + i) n = read_bytes (w_value t @ post) i n"
    unfolding buf v by (rule read_bytes_append_shift)
qed

lemma tlv_GetValueUInt8_wire:
  "wire_ok t \<Longrightarrow> w_value t = b # bs \<Longrightarrow>
     tlv_GetValueUInt8 (pre @ tlv_bytes t @ post) (length pre) = Ok b"
  using tlv_value_shift(1) [of t pre post _ 0] tlv_GetValue_wire [of t pre post]
  by (simp add: tlv_GetValueUInt8_def)

lemma tlv_GetValueUInt16_wire:
  assumes "wire_ok t" and "w_value t = u16_bytes u @ bs"
  shows "tlv_GetValueUInt16 (pre @ tlv_bytes t @ post) (length pre) = Ok u"
proof -
  obtain v where v: "tlv_GetValue (pre @ tlv_bytes t @ post) (length pre) = Ok v"
    using tlv_GetValue_wire [OF assms(1)] by blast
  from tlv_value_shift(2) [OF assms(1) v, of 0] assms(2) v show ?thesis
    by (simp add: tlv_GetValueUInt16_def read_u16be_bytes)
qed

section \<open>The loop over a payload\<close>

text \<open>
  \<open>while (Utils::LengthOf(payload, tlv) < length) { ... tlv = tlv->GetNext(); }\<close>.
  \<open>LengthOf\<close> and \<open>length\<close> are \<open>uint16_t\<close>, so both are taken modulo \<open>2 ^ 16\<close>.  The body returns
  whether the loop goes on (\<open>VerifyOrExit\<close> leaves it) and the new state.
\<close>

definition LengthOf :: "nat \<Rightarrow> nat \<Rightarrow> nat" where
  "LengthOf aStart aEnd = (aEnd - aStart) mod 65536"

lemma tlv_GetNext_progress: "tlv_GetNext buf p = Ok q \<Longrightarrow> p + 1 < length buf \<and> p + 2 \<le> q"
  by (auto simp: tlv_GetNext_def tlv_GetValue_def read_byte_def res_simps split: if_splits)

function tlv_walk ::
  "(byte list \<Rightarrow> nat \<Rightarrow> 's \<Rightarrow> (bool \<times> 's) res) \<Rightarrow> byte list \<Rightarrow> nat \<Rightarrow> 's \<Rightarrow> 's res" where
  "tlv_walk step buf p s =
     (if LengthOf 0 p < length buf mod 65536
      then rbind (step buf p s) (\<lambda>r.
             if fst r then rbind (tlv_GetNext buf p) (\<lambda>q. tlv_walk step buf q (snd r))
             else Ok (snd r))
      else Ok s)"
  by pat_completeness auto
termination
  by (relation "measure (\<lambda>(step, buf, p, s). length buf - p)") (auto dest!: tlv_GetNext_progress)

declare tlv_walk.simps [simp del]

fun run_tlvs :: "(wire_tlv \<Rightarrow> 's \<Rightarrow> bool \<times> 's) \<Rightarrow> wire_tlv list \<Rightarrow> 's \<Rightarrow> 's" where
  "run_tlvs act [] s = s"
| "run_tlvs act (t # ts) s = (let r = act t s in if fst r then run_tlvs act ts (snd r) else snd r)"

locale tlv_handler =
  fixes step :: "byte list \<Rightarrow> nat \<Rightarrow> 's \<Rightarrow> (bool \<times> 's) res"
    and act :: "wire_tlv \<Rightarrow> 's \<Rightarrow> bool \<times> 's"
    and accepts :: "wire_tlv \<Rightarrow> bool"
    and invar :: "'s \<Rightarrow> bool"
  assumes accepts_ok: "accepts t \<Longrightarrow> wire_ok t"
    and step_act: "accepts t \<Longrightarrow> invar s \<Longrightarrow> step (pre @ tlv_bytes t @ post) (length pre) s = Ok (act t s)"
    and act_invar: "accepts t \<Longrightarrow> invar s \<Longrightarrow> invar (snd (act t s))"
begin

lemma walk_from:
  "list_all accepts ts \<Longrightarrow> invar s \<Longrightarrow> length (pre @ tlvs_bytes ts) < 65536 \<Longrightarrow>
     tlv_walk step (pre @ tlvs_bytes ts) (length pre) s = Ok (run_tlvs act ts s)"
proof (induction ts arbitrary: pre s)
  case Nil
  then show ?case by (simp add: tlv_walk.simps [of step pre] LengthOf_def)
next
  case (Cons t ts)
  let ?buf = "pre @ tlv_bytes t @ tlvs_bytes ts"
  from Cons.prems have t: "accepts t" and ts: "list_all accepts ts" by simp_all
  have lt: "LengthOf 0 (length pre) < length ?buf mod 65536"
    using Cons.prems(3) tlv_bytes_length_ge [of t] by (simp add: LengthOf_def)
  have "tlv_walk step ?buf (length (pre @ tlv_bytes t)) (snd (act t s))
      = Ok (run_tlvs act ts (snd (act t s)))"
    using Cons.IH [OF ts, of "snd (act t s)" "pre @ tlv_bytes t"] act_invar [OF t Cons.prems(2)] Cons.prems(3)
    by simp
  then show ?case
    using lt step_act [OF t Cons.prems(2), of pre "tlvs_bytes ts"]
      tlv_GetNext_wire [OF accepts_ok [OF t], of pre "tlvs_bytes ts"]
    by (subst tlv_walk.simps) (simp add: Let_def)
qed

lemma walk_payload:
  "list_all accepts ts \<Longrightarrow> invar s \<Longrightarrow> length (tlvs_bytes ts) < 65536 \<Longrightarrow>
     tlv_walk step (tlvs_bytes ts) 0 s = Ok (run_tlvs act ts s)"
  using walk_from [of ts s "[]"] by simp

text \<open>A body that never leaves the loop gets through the whole TLVs to what follows them.\<close>

lemma walk_through:
  "list_all accepts ts \<Longrightarrow> invar s \<Longrightarrow> (\<And>t s. fst (act t s)) \<Longrightarrow> length (pre @ tlvs_bytes ts @ rest) < 65536 \<Longrightarrow>
     tlv_walk step (pre @ tlvs_bytes ts @ rest) (length pre) s
       = tlv_walk step (pre @ tlvs_bytes ts @ rest) (length (pre @ tlvs_bytes ts)) (run_tlvs act ts s)"
proof (induction ts arbitrary: pre s)
  case Nil
  then show ?case by simp
next
  case (Cons t ts)
  let ?buf = "pre @ tlv_bytes t @ tlvs_bytes ts @ rest"
  from Cons.prems have t: "accepts t" and ts: "list_all accepts ts" by simp_all
  have lt: "LengthOf 0 (length pre) < length ?buf mod 65536"
    using Cons.prems(4) tlv_bytes_length_ge [of t] by (simp add: LengthOf_def)
  have "tlv_walk step ?buf (length pre) s = tlv_walk step ?buf (length (pre @ tlv_bytes t)) (snd (act t s))"
    using lt step_act [OF t Cons.prems(2), of pre "tlvs_bytes ts @ rest"] Cons.prems(3)
      tlv_GetNext_wire [OF accepts_ok [OF t], of pre "tlvs_bytes ts @ rest"]
    by (subst tlv_walk.simps) simp
  also have "\<dots> = tlv_walk step ?buf (length (pre @ tlvs_bytes (t # ts))) (run_tlvs act (t # ts) s)"
    using Cons.IH [OF ts, of "snd (act t s)" "pre @ tlv_bytes t"] act_invar [OF t Cons.prems(2)] Cons.prems(3,4)
    by (simp add: Let_def)
  finally show ?case by simp
qed

lemma run_invar: "list_all accepts ts \<Longrightarrow> invar s \<Longrightarrow> invar (run_tlvs act ts s)"
  by (induction ts arbitrary: s) (auto simp: Let_def act_invar)

end

section \<open>Building a request\<close>

text \<open>
  \<open>tlv->SetType(t); tlv->SetValue(...); tlv = tlv->GetNext();\<close> at the cursor of a request buffer.
\<close>

definition tlv_put ::
  "byte \<Rightarrow> (byte list \<Rightarrow> nat \<Rightarrow> byte list res) \<Rightarrow> byte list \<times> nat \<Rightarrow> (byte list \<times> nat) res" where
  "tlv_put t set_value cur =
     rbind (tlv_SetType t (fst cur) (snd cur)) (\<lambda>buf1.
     rbind (set_value buf1 (snd cur)) (\<lambda>buf2.
     rbind (tlv_GetNext buf2 (snd cur)) (\<lambda>q. Ok (buf2, q))))"

lemma write_bytes_at:
  "length pre = p \<Longrightarrow> length bs \<le> length rest \<Longrightarrow>
     write_bytes (pre @ rest) p bs = Ok (pre @ bs @ drop (length bs) rest)"
  by (auto simp: write_bytes_def)

lemma write_bytes_overflow:
  "length pre = p \<Longrightarrow> length rest < length bs \<Longrightarrow> write_bytes (pre @ rest) p bs = Fault Overflow"
  by (auto simp: write_bytes_def)

lemma tlv_SetValueUInt16_bytes: "tlv_SetValueUInt16 v = tlv_SetValueBytes (u16_bytes v) False"
  by (intro ext) (simp add: tlv_SetValueUInt16_def tlv_SetValueBytes_def)

lemma tlv_SetValueUInt8_bytes: "tlv_SetValueUInt8 v = tlv_SetValueBytes [v] False"
  by (intro ext) (simp add: tlv_SetValueUInt8_def tlv_SetValueBytes_def)

lemma drop_append_le: "n \<le> length xs \<Longrightarrow> drop n (xs @ ys) = drop n xs @ ys"
  by simp

text \<open>The cursor sits after what was written; the rest of the buffer is untouched.\<close>

lemma tlv_put_ok:
  assumes t: "wire_ok (WTlv ty f val)" and fit: "length (tlv_bytes (WTlv ty f val)) \<le> length rest"
  shows "tlv_put ty (tlv_SetValueBytes val f) (pre @ rest, length pre)
    = Ok (pre @ tlv_bytes (WTlv ty f val) @ drop (length (tlv_bytes (WTlv ty f val))) rest,
          length (pre @ tlv_bytes (WTlv ty f val)))"
proof -
  let ?lf = "length_field (length val) f"
  let ?t = "WTlv ty f val"
  have tb: "tlv_bytes ?t = ty # ?lf @ val" by (simp add: tlv_bytes_def)
  have lens: "Suc (length ?lf + length val) \<le> length rest" using fit by (simp add: tb)
  have s1: "tlv_SetType ty (pre @ rest) (length pre) = Ok (pre @ [ty] @ drop 1 rest)"
    using lens by (simp add: tlv_SetType_def write_bytes_at)
  have s2: "tlv_SetLength (length val) f (pre @ [ty] @ drop 1 rest) (length pre)
      = Ok (pre @ [ty] @ ?lf @ drop (1 + length ?lf) rest)"
    using write_bytes_at [of "pre @ [ty]" "length pre + 1" ?lf "drop 1 rest"] lens
    by (simp add: tlv_SetLength_def add.commute)
  let ?tail = "drop (1 + length ?lf) rest"
  have tailok: "wire_ok (WTlv ty f (take (length val) ?tail))"
    and taillen: "length (take (length val) ?tail) = length val"
    using t lens by (simp_all add: wire_ok_def)
  have fill: "pre @ [ty] @ ?lf @ ?tail
      = pre @ tlv_bytes (WTlv ty f (take (length val) ?tail)) @ drop (length val) ?tail"
    unfolding tlv_bytes_def wire_tlv.sel taillen by (simp del: drop_drop)
  have s3: "tlv_GetValue (pre @ [ty] @ ?lf @ ?tail) (length pre) = Ok (length (pre @ [ty] @ ?lf))"
    unfolding fill using tlv_GetValue_wire [OF tailok] taillen by simp
  have s4: "write_bytes (pre @ [ty] @ ?lf @ ?tail) (length (pre @ [ty] @ ?lf)) val
      = Ok (pre @ tlv_bytes ?t @ drop (length (tlv_bytes ?t)) rest)"
    using write_bytes_at [of "pre @ [ty] @ ?lf" "length (pre @ [ty] @ ?lf)" val ?tail] lens
    by (simp add: tb add.commute add.left_commute)
  show ?thesis
    using tlv_GetNext_wire [OF t, of pre]
    by (simp only: tlv_put_def tlv_SetValueBytes_def fst_conv snd_conv s1 s2 s3 s4 rbind.simps)
qed

text \<open>A request: several TLVs written one after the other.\<close>

definition tlv_put_all :: "wire_tlv list \<Rightarrow> byte list \<times> nat \<Rightarrow> (byte list \<times> nat) res" where
  "tlv_put_all ts cur =
     fold_res (\<lambda>t. tlv_put (w_type t) (tlv_SetValueBytes (w_value t) (w_force t))) ts cur"

lemma tlv_put_all_simps:
  "tlv_put_all [] = Ok"
  "tlv_put_all (t # ts) = (\<lambda>cur. rbind (tlv_put (w_type t) (tlv_SetValueBytes (w_value t) (w_force t)) cur)
     (tlv_put_all ts))"
  by (rule ext, simp add: tlv_put_all_def) (rule ext, simp add: tlv_put_all_def [abs_def])

lemma tlv_put_all_ok:
  "list_all wire_ok ts \<Longrightarrow> length (tlvs_bytes ts) \<le> length rest \<Longrightarrow>
     tlv_put_all ts (pre @ rest, length pre)
       = Ok (pre @ tlvs_bytes ts @ drop (length (tlvs_bytes ts)) rest, length (pre @ tlvs_bytes ts))"
proof (induction ts arbitrary: pre rest)
  case Nil
  then show ?case by (simp add: tlv_put_all_def)
next
  case (Cons t ts)
  then have t: "wire_ok (WTlv (w_type t) (w_force t) (w_value t))"
    and fit: "length (tlv_bytes (WTlv (w_type t) (w_force t) (w_value t))) \<le> length rest"
    by simp_all
  have "tlv_put_all ts (pre @ tlv_bytes t @ drop (length (tlv_bytes t)) rest, length (pre @ tlv_bytes t))
      = Ok (pre @ tlvs_bytes (t # ts) @ drop (length (tlvs_bytes (t # ts))) rest,
            length (pre @ tlvs_bytes (t # ts)))"
    using Cons.IH [of "drop (length (tlv_bytes t)) rest" "pre @ tlv_bytes t"] Cons.prems
    by (simp add: add.commute add.left_commute)
  with tlv_put_ok [OF t fit, of pre] show ?case
    by (simp add: tlv_put_all_def)
qed

text \<open>The payload of a request: what has been written when the last TLV is complete.\<close>

lemma request_payload:
  assumes "list_all wire_ok ts" and "length (tlvs_bytes ts) \<le> length buf" and "length (tlvs_bytes ts) < 65536"
  shows "rbind (tlv_put_all ts (buf, 0)) (\<lambda>cur. Ok (take (LengthOf 0 (snd cur)) (fst cur))) = Ok (tlvs_bytes ts)"
  using tlv_put_all_ok [OF assms(1,2), of "[]"] assms(3) by (simp add: LengthOf_def)

text \<open>Reading type and value of every TLV of a payload, with the code's accessors.\<close>

definition collect_step ::
  "byte list \<Rightarrow> nat \<Rightarrow> (byte \<times> byte list) list \<Rightarrow> (bool \<times> (byte \<times> byte list) list) res" where
  "collect_step buf p acc =
     rbind (tlv_GetType buf p) (\<lambda>t. rbind (tlv_GetLength buf p) (\<lambda>n.
     rbind (tlv_GetValue buf p) (\<lambda>v. rbind (read_bytes buf v n) (\<lambda>bs.
       Ok (True, acc @ [(t, bs)])))))"

interpretation collect: tlv_handler collect_step "\<lambda>t acc. (True, acc @ [(w_type t, w_value t)])" wire_ok
  "\<lambda>_. True"
proof
  fix t pre post acc
  assume t: "wire_ok t"
  obtain v where v: "tlv_GetValue (pre @ tlv_bytes t @ post) (length pre) = Ok v"
    using tlv_GetValue_wire [OF t] by blast
  have "read_bytes (pre @ tlv_bytes t @ post) v (length (w_value t)) = Ok (w_value t)"
    using tlv_value_shift(3) [OF t v, of 0 "length (w_value t)"] by (simp add: read_bytes_def)
  then show "collect_step (pre @ tlv_bytes t @ post) (length pre) acc
      = Ok (True, acc @ [(w_type t, w_value t)])"
    by (simp only: collect_step_def tlv_GetType_wire tlv_GetLength_wire [OF t] v rbind.simps)
qed simp

lemma run_collect:
  "run_tlvs (\<lambda>t acc. (True, acc @ [(w_type t, w_value t)])) ts acc
     = acc @ map (\<lambda>t. (w_type t, w_value t)) ts"
  by (induction ts arbitrary: acc) simp_all

section \<open>Properties\<close>

text \<open>
  C18: TLVs written one after the other with \<open>SetType\<close>, \<open>SetValue\<close> and \<open>GetNext\<close> into a buffer
  they fit in (short, long and forced-extended lengths alike) are read back by \<open>GetType\<close>,
  \<open>GetLength\<close>, \<open>GetValue\<close> and \<open>GetNext\<close> with the same types and values in the same order.
\<close>

theorem tlv_roundtrip:
  assumes "list_all wire_ok ts" and "length (tlvs_bytes ts) \<le> length buf"
    and "length (tlvs_bytes ts) < 65536"
  shows "\<exists>buf' q. tlv_put_all ts (buf, 0) = Ok (buf', q) \<and> length buf' = length buf
    \<and> tlv_walk collect_step (take q buf') 0 [] = Ok (map (\<lambda>t. (w_type t, w_value t)) ts)"
  using tlv_put_all_ok [OF assms(1,2), of "[]"] collect.walk_payload [OF assms(1) _ assms(3), of "[]"] assms(2)
  by (simp add: run_collect)

theorem tlv_roundtrip_witness:
  "\<exists>buf' q. tlv_put_all [WTlv 16 False [1], WTlv 17 True [1, 2], WTlv 21 False (replicate 300 7)]
      (replicate 400 0, 0) = Ok (buf', q) \<and> length buf' = 400
    \<and> tlv_walk collect_step (take q buf') 0 [] = Ok [(16, [1]), (17, [1, 2]), (21, replicate 300 7)]"
  using tlv_roundtrip [of "[WTlv 16 False [1], WTlv 17 True [1, 2], WTlv 21 False (replicate 300 7)]"
      "replicate 400 0"]
  by (simp add: wire_ok_def tlv_bytes_def length_field_length)

section \<open>Meshcop constants\<close>

definition kState :: byte where "kState = 16"
definition kCommissionerId :: byte where "kCommissionerId = 10"
definition kCommissionerSessionId :: byte where "kCommissionerSessionId = 11"
definition kJoinerDtlsEncapsulation :: byte where "kJoinerDtlsEncapsulation = 17"
definition kSteeringData :: byte where "kSteeringData = 8"
definition kJoinerUdpPort :: byte where "kJoinerUdpPort = 18"
definition kJoinerIid :: byte where "kJoinerIid = 19"
definition kJoinerRouterLocator :: byte where "kJoinerRouterLocator = 20"
definition kJoinerRouterKek :: byte where "kJoinerRouterKek = 21"
definition kUdpEncapsulation :: byte where "kUdpEncapsulation = 48"

lemmas meshcop_types = kState_def kCommissionerId_def kCommissionerSessionId_def
  kJoinerDtlsEncapsulation_def kSteeringData_def kJoinerUdpPort_def kJoinerIid_def
  kJoinerRouterLocator_def kJoinerRouterKek_def kUdpEncapsulation_def

text \<open>\<open>kStateAccepted\<close>, \<open>kStatePending\<close> and \<open>kStateRejected\<close> as the \<open>int8_t\<close> of a State TLV.\<close>

definition kStateAccepted :: int where "kStateAccepted = 1"
definition kStatePending :: int where "kStatePending = 0"
definition kStateRejected :: int where "kStateRejected = -1"

lemmas meshcop_states = kStateAccepted_def kStatePending_def kStateRejected_def

end
