(* ===== verification/Emitter.thy ===== *)
theory Emitter
  imports Prelude
begin

text \<open>
  \<open>common/event_emitter.hpp\<close> and \<open>common/event_emitter.cpp\<close>: the observer table between the
  network co-processor controller and the border agent.  \<open>mEvents\<close> is the \<open>std::map\<close> from event
  ids to handler lists; a handler is a callback pointer with its context.  A null callback
  trips the \<open>assert\<close>.  A handler runs on a world \<open>'w\<close>; it does not reach back into the emitter.
\<close>

section \<open>The interface\<close>

text \<open>
  What a registry promises its clients: registering appends, deregistering drops the first
  equal registration, and other events are not affected.
\<close>

locale event_registry =
  fixes add :: "int \<Rightarrow> 'h \<Rightarrow> 'm \<Rightarrow> 'm"
    and del :: "int \<Rightarrow> 'h \<Rightarrow> 'm \<Rightarrow> 'm"
    and handlers :: "'m \<Rightarrow> int \<Rightarrow> 'h list"
    and invar :: "'m \<Rightarrow> bool"
  assumes handlers_add: "invar m \<Longrightarrow> handlers (add e h m) = (handlers m)(e := handlers m e @ [h])"
    and handlers_del: "invar m \<Longrightarrow>
          handlers (del e h m) = (handlers m)(e := remove_first (\<lambda>h'. h' = h) (handlers m e))"
    and invar_add: "invar m \<Longrightarrow> invar (add e h m)"
    and invar_del: "invar m \<Longrightarrow> invar (del e h m)"
begin

lemma del_after_add:
  assumes "invar m" and "h \<notin> set (handlers m e)"
  shows "handlers (del e h (add e h m)) = handlers m"
proof -
  have "remove_first (\<lambda>h'. h' = h) (hs @ [h]) = hs" if "h \<notin> set hs" for hs
    using that by (induction hs) auto
  with assms show ?thesis by (simp add: handlers_add handlers_del invar_add)
qed

lemma add_all_order:
  "invar m \<Longrightarrow> handlers (fold (add e) hs m) = (handlers m)(e := handlers m e @ hs)
     \<and> invar (fold (add e) hs m)"
  by (induction hs arbitrary: m) (simp_all add: handlers_add invar_add)

end

section \<open>The class EventEmitter\<close>

record ('c, 'x) emitter =
  mEvents :: "int \<rightharpoonup> ('c \<times> 'x) list"

definition new_EventEmitter :: "('c, 'x) emitter" where
  "new_EventEmitter = \<lparr>mEvents = Map.empty\<rparr>"

text \<open>\<open>mEvents[aEvent]\<close> creates an empty list when the key is new.\<close>

definition handlers_at :: "('c, 'x) emitter \<Rightarrow> int \<Rightarrow> ('c \<times> 'x) list" where
  "handlers_at em aEvent = (case mEvents em aEvent of None \<Rightarrow> [] | Some hs \<Rightarrow> hs)"

definition emitter_On ::
  "int \<Rightarrow> 'c option \<Rightarrow> 'x \<Rightarrow> ('c, 'x) emitter \<Rightarrow> ('c, 'x) emitter res" where
  "emitter_On aEvent aCallback aContext em =
     (case aCallback of
        None \<Rightarrow> Fault AssertFail
      | Some cb \<Rightarrow>
          Ok (em\<lparr>mEvents := (mEvents em)(aEvent \<mapsto> handlers_at em aEvent @ [(cb, aContext)])\<rparr>))"

text \<open>The search loop of \<open>Off\<close>, with the \<open>erase\<close> and its \<open>break\<close>.\<close>

fun off_loop :: "('c \<times> 'x) \<Rightarrow> ('c \<times> 'x) list \<Rightarrow> ('c \<times> 'x) list option" where
  "off_loop h [] = None"
| "off_loop h (it # its) = (if it = h then Some its else map_option ((#) it) (off_loop h its))"

definition emitter_Off ::
  "int \<Rightarrow> 'c option \<Rightarrow> 'x \<Rightarrow> ('c, 'x) emitter \<Rightarrow> ('c, 'x) emitter res" where
  "emitter_Off aEvent aCallback aContext em =
     (case aCallback of
        None \<Rightarrow> Fault AssertFail
      | Some cb \<Rightarrow>
          (case mEvents em aEvent of
             None \<Rightarrow> Ok em
           | Some hs \<Rightarrow>
               (case off_loop (cb, aContext) hs of
                  None \<Rightarrow> Ok em
                | Some hs' \<Rightarrow>
                    if hs' = [] then Ok (em\<lparr>mEvents := (mEvents em)(aEvent := None)\<rparr>)
                    else Ok (em\<lparr>mEvents := (mEvents em)(aEvent \<mapsto> hs')\<rparr>))))"

definition emitter_Emit ::
  "('c \<Rightarrow> 'x \<Rightarrow> int \<Rightarrow> 'a \<Rightarrow> 'w \<Rightarrow> 'w res) \<Rightarrow> int \<Rightarrow> 'a \<Rightarrow> ('c, 'x) emitter \<Rightarrow> 'w \<Rightarrow> 'w res" where
  "emitter_Emit call aEvent args em w =
     (case mEvents em aEvent of
        None \<Rightarrow> Ok w
      | Some hs \<Rightarrow>
          rbind (guard (hs \<noteq> []) AssertFail) (\<lambda>_.
            fold_res (\<lambda>it. call (fst it) (snd it) aEvent args) hs w))"

section \<open>Lemmas\<close>

definition emitter_inv :: "('c, 'x) emitter \<Rightarrow> bool" where
  "emitter_inv em \<longleftrightarrow> (\<forall>e. mEvents em e \<noteq> Some [])"

lemma off_loop_remove_first:
  "off_loop h hs = (if h \<in> set hs then Some (remove_first (\<lambda>h'. h' = h) hs) else None)"
  by (induction hs) auto

lemma emitter_On_handlers:
  assumes "emitter_On e (Some cb) x em = Ok em'"
  shows "handlers_at em' = (handlers_at em)(e := handlers_at em e @ [(cb, x)])"
    and "emitter_inv em \<Longrightarrow> emitter_inv em'"
  using assms
  by (auto simp: emitter_On_def handlers_at_def emitter_inv_def fun_eq_iff split: if_splits)

lemma emitter_Off_handlers:
  assumes "emitter_Off e (Some cb) x em = Ok em'"
  shows "handlers_at em' = (handlers_at em)(e := remove_first (\<lambda>h'. h' = (cb, x)) (handlers_at em e))"
    and "emitter_inv em \<Longrightarrow> emitter_inv em'"
proof -
  have none: "(cb, x) \<notin> set hs \<Longrightarrow> remove_first (\<lambda>h'. h' = (cb, x)) hs = hs" for hs
    by (auto intro: remove_first_none)
  show "handlers_at em' = (handlers_at em)(e := remove_first (\<lambda>h'. h' = (cb, x)) (handlers_at em e))"
    using assms
    by (auto simp: emitter_Off_def handlers_at_def off_loop_remove_first fun_eq_iff none
        split: option.splits if_splits)
  show "emitter_inv em \<Longrightarrow> emitter_inv em'"
    using assms
    by (auto simp: emitter_Off_def emitter_inv_def off_loop_remove_first
        split: option.splits if_splits)
qed

lemma emitter_On_total: "\<exists>em'. emitter_On e (Some cb) x em = Ok em'"
  by (simp add: emitter_On_def)

lemma emitter_Off_total: "\<exists>em'. emitter_Off e (Some cb) x em = Ok em'"
  by (auto simp: emitter_Off_def split: option.splits)

lemma emitter_Emit_handlers:
  "emitter_inv em \<Longrightarrow>
     emitter_Emit call e args em w
       = fold_res (\<lambda>it. call (fst it) (snd it) e args) (handlers_at em e) w"
  by (cases "mEvents em e") (auto simp: emitter_Emit_def emitter_inv_def handlers_at_def guard_def)

text \<open>The operations with a callback present, as total functions on the table.\<close>

definition the_res :: "'a \<Rightarrow> 'a res \<Rightarrow> 'a" where
  "the_res d r = (case r of Ok x \<Rightarrow> x | Fault _ \<Rightarrow> d)"

definition on_handler :: "int \<Rightarrow> ('c \<times> 'x) \<Rightarrow> ('c, 'x) emitter \<Rightarrow> ('c, 'x) emitter" where
  "on_handler e h em = the_res em (emitter_On e (Some (fst h)) (snd h) em)"

definition off_handler :: "int \<Rightarrow> ('c \<times> 'x) \<Rightarrow> ('c, 'x) emitter \<Rightarrow> ('c, 'x) emitter" where
  "off_handler e h em = the_res em (emitter_Off e (Some (fst h)) (snd h) em)"

lemma on_handler_Ok: "emitter_On e (Some cb) x em = Ok (on_handler e (cb, x) em)"
  using emitter_On_total [of e cb x em] by (auto simp: on_handler_def the_res_def)

lemma off_handler_Ok: "emitter_Off e (Some cb) x em = Ok (off_handler e (cb, x) em)"
  using emitter_Off_total [of e cb x em] by (auto simp: off_handler_def the_res_def)

interpretation registry: event_registry on_handler off_handler handlers_at emitter_inv
proof
  fix m :: "('a, 'b) emitter" and e h
  show "handlers_at (on_handler e h m) = (handlers_at m)(e := handlers_at m e @ [h])"
    by (cases h) (simp add: emitter_On_handlers(1) [OF on_handler_Ok])
  show "handlers_at (off_handler e h m)
      = (handlers_at m)(e := remove_first (\<lambda>h'. h' = h) (handlers_at m e))"
    by (cases h) (simp add: emitter_Off_handlers(1) [OF off_handler_Ok])
  assume "emitter_inv m"
  then show "emitter_inv (on_handler e h m)"
    by (cases h) (simp add: emitter_On_handlers(2) [OF on_handler_Ok])
  show "emitter_inv (off_handler e h m)"
    using \<open>emitter_inv m\<close> by (cases h) (simp add: emitter_Off_handlers(2) [OF off_handler_Ok])
qed

section \<open>Histories\<close>

datatype ('c, 'x) registration = RegOn int 'c 'x | RegOff int 'c 'x

fun emitter_apply :: "('c, 'x) registration \<Rightarrow> ('c, 'x) emitter \<Rightarrow> ('c, 'x) emitter res" where
  "emitter_apply (RegOn e cb x) em = emitter_On e (Some cb) x em"
| "emitter_apply (RegOff e cb x) em = emitter_Off e (Some cb) x em"

text \<open>The observer lists a history of registrations describes.\<close>

fun observers_apply ::
  "('c, 'x) registration \<Rightarrow> (int \<Rightarrow> ('c \<times> 'x) list) \<Rightarrow> (int \<Rightarrow> ('c \<times> 'x) list)" where
  "observers_apply (RegOn e cb x) obs = obs(e := obs e @ [(cb, x)])"
| "observers_apply (RegOff e cb x) obs = obs(e := remove_first (\<lambda>h. h = (cb, x)) (obs e))"

lemma emitter_history:
  "emitter_inv em \<Longrightarrow> \<exists>em'. fold_res emitter_apply rs em = Ok em' \<and> emitter_inv em'
     \<and> handlers_at em' = fold observers_apply rs (handlers_at em)"
proof (induction rs arbitrary: em)
  case Nil
  then show ?case by simp
next
  case (Cons r rs)
  obtain em1 where em1: "emitter_apply r em = Ok em1" "emitter_inv em1"
    "handlers_at em1 = observers_apply r (handlers_at em)"
  proof (cases r)
    case (RegOn e cb x)
    with Cons.prems that [of "on_handler e (cb, x) em"] show thesis
      by (simp add: on_handler_Ok registry.invar_add registry.handlers_add)
  next
    case (RegOff e cb x)
    with Cons.prems that [of "off_handler e (cb, x) em"] show thesis
      by (simp add: off_handler_Ok registry.invar_del registry.handlers_del)
  qed
  with Cons.IH [OF em1(2)] show ?case by simp
qed

section \<open>Properties\<close>

text \<open>
  C39: after any history of \<open>On\<close> and \<open>Off\<close> calls from the empty emitter, \<open>Emit\<close> never meets the
  empty list its \<open>assert\<close> excludes and calls exactly the handlers the history leaves
  registered for that event, in registration order, each as often as it is registered.
\<close>

theorem emit_calls_observers:
  "\<exists>em. fold_res emitter_apply rs new_EventEmitter = Ok em
     \<and> emitter_Emit call e args em w
         = fold_res (\<lambda>h. call (fst h) (snd h) e args) (fold observers_apply rs (\<lambda>_. []) e) w"
proof -
  have "emitter_inv (new_EventEmitter :: ('a, 'b) emitter)"
    by (simp add: emitter_inv_def new_EventEmitter_def)
  then obtain em where em: "fold_res emitter_apply rs new_EventEmitter = Ok em" "emitter_inv em"
    "handlers_at em = fold observers_apply rs (handlers_at new_EventEmitter)"
    using emitter_history by blast
  moreover have "handlers_at (new_EventEmitter :: ('a, 'b) emitter) = (\<lambda>_. [])"
    by (simp add: handlers_at_def new_EventEmitter_def fun_eq_iff)
  ultimately show ?thesis using emitter_Emit_handlers [OF em(2)] by auto
qed

end
