(* ===== verification/PskcGen.thy ===== *)
theory PskcGen
  imports Prelude
begin

text \<open>
  \<open>web/pskc-generator/pskc.cpp\<close>: the commissioner credential PSKc, derived from the network
  name, the extended PAN id and the passphrase.  The pseudo-random function AES-CMAC-PRF-128
  is mbedtls code and is the parameter \<open>prf\<close>; \<open>MBEDTLS_CIPHER_BLKSIZE_MAX\<close> is 16, the block
  size of AES.  \<open>mSaltLen\<close> is set only when the network name is not empty, so it is an option:
  \<open>None\<close> is the indeterminate value of a fresh object.
\<close>

section \<open>The class Pskc\<close>

definition OT_EXTENDED_PAN_ID_LENGTH :: nat where "OT_EXTENDED_PAN_ID_LENGTH = 8"
definition OT_ITERATION_COUNTS :: nat where "OT_ITERATION_COUNTS = 16384"
definition OT_PBKDF2_SALT_MAX_LENGTH :: nat where "OT_PBKDF2_SALT_MAX_LENGTH = 30"
definition OT_PSKC_LENGTH :: nat where "OT_PSKC_LENGTH = 16"
definition prfBlockLen :: nat where "prfBlockLen = 16"

lemmas pskc_consts = OT_EXTENDED_PAN_ID_LENGTH_def OT_PBKDF2_SALT_MAX_LENGTH_def
  OT_PSKC_LENGTH_def prfBlockLen_def

record pskc =
  mSalt :: "byte list"
  mSaltLen :: "nat option"

definition put_bytes :: "nat \<Rightarrow> byte list \<Rightarrow> byte list \<Rightarrow> byte list res" where
  "put_bytes cur bs buf =
     (if cur + length bs \<le> length buf then Ok (take cur buf @ bs @ drop (cur + length bs) buf)
      else Fault Overflow)"

definition saltPrefix :: "byte list" where
  "saltPrefix = bytes_of_string ''Thread''"

definition SetSalt :: "byte list \<Rightarrow> string \<Rightarrow> pskc \<Rightarrow> pskc res" where
  "SetSalt aExtPanId aNetworkName p =
     rbind (put_bytes 0 saltPrefix (replicate OT_PBKDF2_SALT_MAX_LENGTH 0)) (\<lambda>salt1.
     rbind (read_bytes aExtPanId 0 OT_EXTENDED_PAN_ID_LENGTH) (\<lambda>xpan.
     rbind (put_bytes (length saltPrefix) xpan salt1) (\<lambda>salt2.
       let cur = length saltPrefix + OT_EXTENDED_PAN_ID_LENGTH in
       if length aNetworkName > 0
       then rbind (put_bytes cur (bytes_of_string aNetworkName) salt2) (\<lambda>salt3.
              Ok (p\<lparr>mSalt := salt3, mSaltLen := Some (cur + length aNetworkName)\<rparr>))
       else Ok (p\<lparr>mSalt := salt2\<rparr>))))"

definition xor_bytes :: "byte list \<Rightarrow> byte list \<Rightarrow> byte list" where
  "xor_bytes xs ys = map2 (XOR) xs ys"

text \<open>\<open>for (i = 1; i < OT_ITERATION_COUNTS; i++)\<close>: the rounds left, \<open>prfOutput\<close> and \<open>keyBlock\<close>.\<close>

fun prf_rounds ::
  "(byte list \<Rightarrow> byte list \<Rightarrow> byte list) \<Rightarrow> byte list \<Rightarrow> nat \<Rightarrow> byte list \<Rightarrow> byte list \<Rightarrow> byte list" where
  "prf_rounds prf pass 0 prfOutput keyBlock = keyBlock"
| "prf_rounds prf pass (Suc n) prfOutput keyBlock =
     (let out = prf pass (take prfBlockLen prfOutput) in
      prf_rounds prf pass n out (xor_bytes keyBlock (take prfBlockLen out)))"

definition counter_bytes :: "u32 \<Rightarrow> byte list" where
  "counter_bytes c = [ucast (drop_bit 24 c), ucast (drop_bit 16 c), ucast (drop_bit 8 c), ucast c]"

definition key_block ::
  "(byte list \<Rightarrow> byte list \<Rightarrow> byte list) \<Rightarrow> byte list \<Rightarrow> byte list \<Rightarrow> u32 \<Rightarrow> byte list" where
  "key_block prf pass salt blockCounter =
     (let u1 = prf pass (salt @ counter_bytes blockCounter) in
      prf_rounds prf pass (OT_ITERATION_COUNTS - 1) u1 (take prfBlockLen u1))"

text \<open>\<open>while (keyLen)\<close>: the length left, the block counter and the bytes stored at \<open>mPskc\<close>.\<close>

function pskc_loop ::
  "(byte list \<Rightarrow> byte list \<Rightarrow> byte list) \<Rightarrow> byte list \<Rightarrow> byte list \<Rightarrow> nat \<Rightarrow> u32 \<Rightarrow> byte list \<Rightarrow> byte list" where
  "pskc_loop prf pass salt keyLen blockCounter out =
     (if keyLen = 0 then out
      else let useLen = (if keyLen < prfBlockLen then keyLen else prfBlockLen) in
           pskc_loop prf pass salt (keyLen - useLen) (blockCounter + 1)
             (out @ take useLen (key_block prf pass salt (blockCounter + 1))))"
  by pat_completeness auto
termination
  by (relation "measure (\<lambda>(prf, pass, salt, keyLen, c, out). keyLen)") (auto simp: prfBlockLen_def)

declare pskc_loop.simps [simp del]

definition ComputePskc ::
  "(byte list \<Rightarrow> byte list \<Rightarrow> byte list) \<Rightarrow> byte list \<Rightarrow> string \<Rightarrow> string \<Rightarrow> pskc \<Rightarrow> byte list res" where
  "ComputePskc prf aExtPanId aNetworkName aPassphrase p0 =
     rbind (SetSalt aExtPanId aNetworkName p0) (\<lambda>p.
       case mSaltLen p of
         None \<Rightarrow> Fault Uninitialized
       | Some n \<Rightarrow>
           rbind (guard (n + 4 \<le> OT_PBKDF2_SALT_MAX_LENGTH + 4) Overflow) (\<lambda>_.
             Ok (pskc_loop prf (bytes_of_string aPassphrase) (take n (mSalt p)) OT_PSKC_LENGTH 0 [])))"

definition fresh_Pskc :: pskc where
  "fresh_Pskc = \<lparr>mSalt = replicate OT_PBKDF2_SALT_MAX_LENGTH 0, mSaltLen = None\<rparr>"

section \<open>PBKDF2 (RFC 2898)\<close>

fun pbkdf2_U ::
  "(byte list \<Rightarrow> byte list \<Rightarrow> byte list) \<Rightarrow> byte list \<Rightarrow> byte list \<Rightarrow> u32 \<Rightarrow> nat \<Rightarrow> byte list" where
  "pbkdf2_U prf pass salt i 0 = prf pass (salt @ counter_bytes i)"
| "pbkdf2_U prf pass salt i (Suc j) = prf pass (pbkdf2_U prf pass salt i j)"

definition pbkdf2_F ::
  "(byte list \<Rightarrow> byte list \<Rightarrow> byte list) \<Rightarrow> byte list \<Rightarrow> byte list \<Rightarrow> nat \<Rightarrow> u32 \<Rightarrow> byte list" where
  "pbkdf2_F prf pass salt c i =
     foldl (\<lambda>t j. xor_bytes t (pbkdf2_U prf pass salt i j)) (pbkdf2_U prf pass salt i 0) [1..<c]"

definition prf_ok :: "(byte list \<Rightarrow> byte list \<Rightarrow> byte list) \<Rightarrow> bool" where
  "prf_ok prf \<longleftrightarrow> (\<forall>k m. length (prf k m) = 16)"

section \<open>Lemmas\<close>

lemma prf_rounds_U:
  assumes "prf_ok prf"
  shows "prf_rounds prf pass n (pbkdf2_U prf pass salt i j) t
    = foldl (\<lambda>t j. xor_bytes t (pbkdf2_U prf pass salt i j)) t [Suc j..<Suc (j + n)]"
proof (induction n arbitrary: j t)
  case 0
  then show ?case by simp
next
  case (Suc n)
  have len: "take prfBlockLen (pbkdf2_U prf pass salt i k) = pbkdf2_U prf pass salt i k" for k
    using assms by (cases k) (simp_all add: prf_ok_def prfBlockLen_def)
  have nx: "prf pass (pbkdf2_U prf pass salt i j) = pbkdf2_U prf pass salt i (Suc j)" by simp
  have "prf_rounds prf pass (Suc n) (pbkdf2_U prf pass salt i j) t
      = prf_rounds prf pass n (pbkdf2_U prf pass salt i (Suc j))
          (xor_bytes t (pbkdf2_U prf pass salt i (Suc j)))"
    by (simp only: prf_rounds.simps Let_def len nx)
  also have "\<dots> = foldl (\<lambda>t j. xor_bytes t (pbkdf2_U prf pass salt i j))
      (xor_bytes t (pbkdf2_U prf pass salt i (Suc j))) [Suc (Suc j)..<Suc (Suc j + n)]"
    by (rule Suc.IH)
  also have "\<dots> = foldl (\<lambda>t j. xor_bytes t (pbkdf2_U prf pass salt i j)) t [Suc j..<Suc (j + Suc n)]"
    by (simp add: upt_conv_Cons del: pbkdf2_U.simps upt_Suc)
  finally show ?case .
qed

lemma length_xor_bytes [simp]: "length (xor_bytes xs ys) = min (length xs) (length ys)"
  by (simp add: xor_bytes_def)

lemma length_pbkdf2_U: "prf_ok prf \<Longrightarrow> length (pbkdf2_U prf pass salt i j) = 16"
  by (cases j) (simp_all add: prf_ok_def)

lemma length_pbkdf2_fold:
  "prf_ok prf \<Longrightarrow> length t = 16 \<Longrightarrow>
     length (foldl (\<lambda>t j. xor_bytes t (pbkdf2_U prf pass salt i j)) t js) = 16"
  by (induction js arbitrary: t) (simp_all add: length_pbkdf2_U)

lemma key_block_F:
  assumes "prf_ok prf"
  shows "key_block prf pass salt i = pbkdf2_F prf pass salt OT_ITERATION_COUNTS i"
proof -
  have u0: "pbkdf2_U prf pass salt i 0 = prf pass (salt @ counter_bytes i)" by simp
  have tk: "take prfBlockLen (pbkdf2_U prf pass salt i 0) = pbkdf2_U prf pass salt i 0"
    using length_pbkdf2_U [OF assms] by (simp add: prfBlockLen_def del: pbkdf2_U.simps)
  have n: "Suc (0 + (OT_ITERATION_COUNTS - 1)) = OT_ITERATION_COUNTS"
    by (simp add: OT_ITERATION_COUNTS_def)
  have "key_block prf pass salt i = foldl (\<lambda>t j. xor_bytes t (pbkdf2_U prf pass salt i j))
      (pbkdf2_U prf pass salt i 0) [Suc 0..<Suc (0 + (OT_ITERATION_COUNTS - 1))]"
    using prf_rounds_U [OF assms, of pass "OT_ITERATION_COUNTS - 1" salt i 0] tk
    by (simp only: key_block_def Let_def u0 [symmetric])
  moreover have "[1..<OT_ITERATION_COUNTS] = [Suc 0..<Suc (0 + (OT_ITERATION_COUNTS - 1))]"
    by (subst n) simp
  ultimately show ?thesis by (simp only: pbkdf2_F_def)
qed

lemma length_key_block: "prf_ok prf \<Longrightarrow> length (key_block prf pass salt i) = 16"
  by (simp add: key_block_F pbkdf2_F_def length_pbkdf2_fold length_pbkdf2_U del: pbkdf2_U.simps)

lemma pskc_loop_single:
  assumes "prf_ok prf"
  shows "pskc_loop prf pass salt OT_PSKC_LENGTH 0 [] = key_block prf pass salt 1"
  using length_key_block [OF assms, of pass salt 1]
  by (simp add: pskc_loop.simps [of "prf" pass salt 16]
      pskc_loop.simps [of "prf" pass salt 0] pskc_consts)

lemma saltPrefix_length: "length saltPrefix = 6"
  by (simp add: saltPrefix_def)

lemma SetSalt_ok:
  assumes "length xpan = 8" and "name \<noteq> []" and "length name \<le> 16"
  shows "\<exists>p. SetSalt xpan name p0 = Ok p \<and> mSaltLen p = Some (14 + length name)
    \<and> take (14 + length name) (mSalt p) = saltPrefix @ xpan @ bytes_of_string name"
  using assms
  by (simp add: SetSalt_def put_bytes_def read_bytes_def pskc_consts saltPrefix_length Let_def)

section \<open>Properties\<close>

lemma ComputePskc_key:
  assumes "prf_ok prf" and "length xpan = 8" and "name \<noteq> []" and "length name \<le> 16"
  shows "\<exists>key. ComputePskc prf xpan name pass p0 = Ok key \<and> length key = OT_PSKC_LENGTH
    \<and> key = pbkdf2_F prf (bytes_of_string pass) (saltPrefix @ xpan @ bytes_of_string name)
              OT_ITERATION_COUNTS 1"
proof -
  obtain p where p: "SetSalt xpan name p0 = Ok p" "mSaltLen p = Some (14 + length name)"
    "take (14 + length name) (mSalt p) = saltPrefix @ xpan @ bytes_of_string name"
    using SetSalt_ok [OF assms(2-4)] by blast
  have fit: "14 + length name + 4 \<le> OT_PBKDF2_SALT_MAX_LENGTH + 4"
    using assms(4) by (simp add: OT_PBKDF2_SALT_MAX_LENGTH_def)
  show ?thesis
    using length_key_block [OF assms(1)]
    by (simp only: ComputePskc_def p rbind.simps option.case fit guard_simps
        pskc_loop_single [OF assms(1)] key_block_F [OF assms(1)])
      (simp add: OT_PSKC_LENGTH_def)
qed

lemma ComputePskc_empty:
  assumes "length xpan = 8"
  shows "ComputePskc prf xpan [] pass fresh_Pskc = Fault Uninitialized"
  using assms
  by (simp add: ComputePskc_def SetSalt_def put_bytes_def read_bytes_def pskc_consts
      saltPrefix_length fresh_Pskc_def Let_def)

text \<open>
  C28: for a network name of 1 to 16 bytes and an 8-byte extended PAN id, \<open>ComputePskc\<close> returns
  the 16-byte PBKDF2 key of RFC 2898 over the salt \<open>"Thread" || xpanid || name\<close> with 16384
  iterations of the pseudo-random function: the first block, with block index 1.
\<close>

theorem ComputePskc_pbkdf2:
  assumes "prf_ok prf" and "length xpan = 8" and "name \<noteq> []" and "length name \<le> 16"
  shows "\<exists>key. ComputePskc prf xpan name pass p0 = Ok key \<and> length key = OT_PSKC_LENGTH
    \<and> key = pbkdf2_F prf (bytes_of_string pass) (saltPrefix @ xpan @ bytes_of_string name)
              OT_ITERATION_COUNTS 1"
  by (rule ComputePskc_key [OF assms])

theorem ComputePskc_pbkdf2_witness:
  "\<exists>key. ComputePskc (\<lambda>k m. replicate 16 (last m)) [1, 2, 3, 4, 5, 6, 7, 8] ''OpenThread'' ''654321''
     fresh_Pskc = Ok key \<and> length key = 16"
  using ComputePskc_pbkdf2 [of "\<lambda>k m. replicate 16 (last m)" "[1, 2, 3, 4, 5, 6, 7, 8]"
      "''OpenThread''" "''654321''" fresh_Pskc]
  by (auto simp: prf_ok_def OT_PSKC_LENGTH_def)

text \<open>
  A network name longer than 16 bytes is copied past the 30-byte salt, and an empty one
  leaves the salt length of a fresh object indeterminate, which the key loop then reads.
\<close>

theorem ComputePskc_bad_name:
  assumes "length xpan = 8"
  shows "(16 < length name \<longrightarrow> ComputePskc prf xpan name pass p0 = Fault Overflow)
    \<and> ComputePskc prf xpan [] pass fresh_Pskc = Fault Uninitialized"
  using assms
  by (simp add: ComputePskc_def SetSalt_def put_bytes_def read_bytes_def pskc_consts
      saltPrefix_length fresh_Pskc_def Let_def)

theorem ComputePskc_bad_name_witness:
  "ComputePskc (\<lambda>k m. replicate 16 0) (replicate 8 1) ''seventeen letters'' ''secret'' fresh_Pskc
     = Fault Overflow"
  using ComputePskc_bad_name [of "replicate 8 1" "''seventeen letters''" "\<lambda>k m. replicate 16 0"]
  by simp

end
