(* ===== verification/Json.thy ===== *)
theory Json
  imports Prelude
begin

text \<open>
  The JSON library jansson is not part of the repository: the operations of it that
  \<open>joiner_list_api.hpp\<close> and \<open>args_api.hpp\<close> call are fields of a record the models take as an
  argument, over a type \<open>'j\<close> of JSON values.  A null \<open>json_t *\<close> or \<open>char *\<close> is \<open>None\<close>.
  \<open>jansson_ok\<close> states what the jansson manual documents of them and the code relies on.
\<close>

record 'j jansson =
  json_loads :: "string \<Rightarrow> 'j option"
  json_dumps :: "'j \<Rightarrow> string"
  json_is_array :: "'j \<Rightarrow> bool"
  json_array_values :: "'j \<Rightarrow> 'j list"
  json_array_of :: "'j list \<Rightarrow> 'j"
  json_object_new :: "'j"
  json_object_get :: "'j \<Rightarrow> string \<Rightarrow> 'j option"
  json_object_set :: "'j \<Rightarrow> string \<Rightarrow> 'j option \<Rightarrow> 'j"
  json_object_update :: "'j \<Rightarrow> 'j \<Rightarrow> 'j"
  json_string :: "string \<Rightarrow> 'j option"
  json_string_value :: "'j \<Rightarrow> string option"
  json_integer_value :: "'j \<Rightarrow> int option"

text \<open>
  \<open>json_object_set_new\<close> with a null value leaves the object unchanged (and returns -1);
  \<open>json_string\<close> returns null for text that is not UTF-8.
\<close>

definition jansson_ok :: "'j jansson \<Rightarrow> bool" where
  "jansson_ok api \<longleftrightarrow>
     (\<forall>k. json_object_get api (json_object_new api) k = None)
   \<and> (\<forall>ob k k' v. json_object_get api (json_object_set api ob k (Some v)) k'
          = (if k' = k then Some v else json_object_get api ob k'))
   \<and> (\<forall>ob k. json_object_set api ob k None = ob)
   \<and> (\<forall>s v. json_string api s = Some v \<longrightarrow> json_string_value api v = Some s)"

lemma jansson_simps:
  assumes "jansson_ok api"
  shows "json_object_get api (json_object_new api) k = None"
    and "json_object_get api (json_object_set api ob k (Some v)) k'
      = (if k' = k then Some v else json_object_get api ob k')"
    and "json_object_set api ob k None = ob"
    and "json_string api s = Some v \<Longrightarrow> json_string_value api v = Some s"
  using assms by (simp_all add: jansson_ok_def)

text \<open>\<open>json_string_value(json_object_get(obj, key))\<close>, null at any step of the way.\<close>

definition string_field :: "'j jansson \<Rightarrow> 'j \<Rightarrow> string \<Rightarrow> string option" where
  "string_field api ob key = Option.bind (json_object_get api ob key) (json_string_value api)"

section \<open>A concrete instance\<close>

text \<open>
  A small implementation of the interface, for the examples: documents as a datatype, and a
  loader that returns one given document.
\<close>

datatype jdoc = JInt int | JStr string | JArr "jdoc list" | JObj "(string \<times> jdoc) list"

fun jdoc_get :: "jdoc \<Rightarrow> string \<Rightarrow> jdoc option" where
  "jdoc_get (JObj kvs) k = map_of kvs k"
| "jdoc_get _ k = None"

fun jdoc_set :: "jdoc \<Rightarrow> string \<Rightarrow> jdoc option \<Rightarrow> jdoc" where
  "jdoc_set (JObj kvs) k (Some v) = JObj ((k, v) # kvs)"
| "jdoc_set _ k (Some v) = JObj [(k, v)]"
| "jdoc_set d k None = d"

fun jdoc_str :: "jdoc \<Rightarrow> string option" where
  "jdoc_str (JStr s) = Some s"
| "jdoc_str _ = None"

fun jdoc_int :: "jdoc \<Rightarrow> int option" where
  "jdoc_int (JInt n) = Some n"
| "jdoc_int _ = None"

fun jdoc_values :: "jdoc \<Rightarrow> jdoc list" where
  "jdoc_values (JArr ds) = ds"
| "jdoc_values _ = []"

fun jdoc_is_array :: "jdoc \<Rightarrow> bool" where
  "jdoc_is_array (JArr ds) = True"
| "jdoc_is_array _ = False"

fun jdoc_update :: "jdoc \<Rightarrow> jdoc \<Rightarrow> jdoc" where
  "jdoc_update (JObj a) (JObj b) = JObj (b @ a)"
| "jdoc_update a _ = a"

definition jdoc_api :: "jdoc option \<Rightarrow> jdoc jansson" where
  "jdoc_api doc =
     \<lparr>json_loads = (\<lambda>_. doc), json_dumps = (\<lambda>_. []), json_is_array = jdoc_is_array,
      json_array_values = jdoc_values, json_array_of = JArr, json_object_new = JObj [],
      json_object_get = jdoc_get, json_object_set = jdoc_set, json_object_update = jdoc_update,
      json_string = (\<lambda>s. Some (JStr s)), json_string_value = jdoc_str,
      json_integer_value = jdoc_int\<rparr>"

lemma jdoc_api_ok: "jansson_ok (jdoc_api doc)"
proof -
  have "jdoc_get (jdoc_set ob k (Some v)) k' = (if k' = k then Some v else jdoc_get ob k')" for ob k k' v
    by (cases ob) auto
  moreover have "jdoc_set ob k None = ob" for ob k
    by (cases ob) auto
  ultimately show ?thesis by (simp add: jansson_ok_def jdoc_api_def)
qed

end
