(* ===== verification/JoinerList.thy ===== *)
theory JoinerList
  imports Json HexCodec Steering
begin

text \<open>
  \<open>inc/joiner_list_api.hpp\<close>: the list of devices allowed to join, kept three times: as a JSON
  array (for \<open>Read\<close>), as a vector of \<open>JoinerInstance\<close> (for the DTLS credential lookup) and as the
  Bloom filter announced to the network.

  A cell of the JSON array is \<open>Live\<close>, or \<open>Freed\<close> when the list still points to an element whose
  last reference is gone: \<open>json_array_append_new\<close> takes over a reference that \<open>Write\<close> only
  borrowed from the parsed document, so clearing that document on the error path releases
  what was already appended.
\<close>

section \<open>State\<close>

datatype status_code = client_error | client_error_not_found | success_ok

datatype 'j cell = Live 'j | Freed

record joiner_instance =
  mJoinerPSKdAscii :: string
  mJoinerEui64Ascii :: string
  mJoinerEui64Bin :: "byte list"
  mJoinerHashmacAscii :: string
  mJoinerHashmacBin :: "byte list"

definition new_JoinerInstance :: joiner_instance where
  "new_JoinerInstance =
     \<lparr>mJoinerPSKdAscii = [], mJoinerEui64Ascii = [], mJoinerEui64Bin = replicate kEui64Len 0,
      mJoinerHashmacAscii = [], mJoinerHashmacBin = replicate kEui64Len 0\<rparr>"

record 'j joiner_list =
  jl_array :: "'j cell list"
  jl_vector :: "joiner_instance list"
  jl_steering :: steering_data
  jl_updated :: bool

definition new_JoinerList :: "'j joiner_list res" where
  "new_JoinerList =
     rbind (sd_Init kSteeringDefaultLength
              \<lparr>mBloomFilter = replicate kMaxSizeOfBloomFilter 0, mLength = 0\<rparr>)
       (\<lambda>s. Ok \<lparr>jl_array = [], jl_vector = [], jl_steering = s, jl_updated = False\<rparr>)"

section \<open>Operations\<close>

definition jl_ComputeSteering ::
  "(byte list \<Rightarrow> byte list) \<Rightarrow> bool \<Rightarrow> 'j joiner_list \<Rightarrow> 'j joiner_list res" where
  "jl_ComputeSteering sha recalc_all jl =
     rbind (if recalc_all
            then fold_res (\<lambda>i. ComputeSteeringData sha False (mJoinerEui64Bin i)) (jl_vector jl)
                   (sd_Clear (jl_steering jl))
            else if jl_vector jl = [] then Fault OutOfBounds
            else ComputeSteeringData sha False (mJoinerEui64Bin (last (jl_vector jl))) (jl_steering jl))
       (\<lambda>s. Ok (jl\<lparr>jl_steering := s, jl_updated := True\<rparr>))"

text \<open>\<open>JsonUnpack\<close>: the values of the keys, or \<open>None\<close> (-1) at the first one missing.\<close>

fun JsonUnpack :: "'j jansson \<Rightarrow> 'j \<Rightarrow> string list \<Rightarrow> 'j list option" where
  "JsonUnpack api ob [] = Some []"
| "JsonUnpack api ob (k # ks) =
     (case json_object_get api ob k of
        None \<Rightarrow> None
      | Some v \<Rightarrow> map_option ((#) v) (JsonUnpack api ob ks))"

text \<open>
  Filling a fresh \<open>JoinerInstance\<close>: two \<open>strcpy\<close> into fixed arrays and the conversion of the
  EUI-64, whose result is not looked at.  A null source string is a null dereference.
\<close>

definition fill_instance :: "string option \<Rightarrow> string option \<Rightarrow> joiner_instance res" where
  "fill_instance psk eui =
     (case psk of
        None \<Rightarrow> Fault NullDeref
      | Some p \<Rightarrow> rbind (strcpy_to (kPSKdLength + 1) p) (\<lambda>p'.
         (case eui of
            None \<Rightarrow> Fault NullDeref
          | Some e \<Rightarrow> rbind (strcpy_to (kEui64Len * 2 + 1) e) (\<lambda>e'.
              Ok (new_JoinerInstance\<lparr>mJoinerPSKdAscii := p', mJoinerEui64Ascii := e',
                  mJoinerEui64Bin :=
                    snd (Hex2Bytes e' (mJoinerEui64Bin new_JoinerInstance) kEui64Len)\<rparr>)))))"

fun write_loop ::
  "'j jansson \<Rightarrow> (byte list \<Rightarrow> byte list) \<Rightarrow> bool \<Rightarrow> 'j list \<Rightarrow> 'j joiner_list
     \<Rightarrow> (status_code \<times> 'j joiner_list) res" where
  "write_loop api sha is_array [] jl = Ok (success_ok, jl\<lparr>jl_updated := True\<rparr>)"
| "write_loop api sha is_array (current # rest) jl =
     (case JsonUnpack api current [''psk'', ''eui64''] of
        Some [psk, eui] \<Rightarrow>
          rbind (fill_instance (json_string_value api psk) (json_string_value api eui)) (\<lambda>v.
          rbind (ComputeSteeringData sha False (mJoinerEui64Bin v) (jl_steering jl)) (\<lambda>s.
            write_loop api sha is_array rest
              (jl\<lparr>jl_vector := jl_vector jl @ [v], jl_steering := s,
                  jl_array := jl_array jl @ [Live current]\<rparr>)))
      | _ \<Rightarrow>
          Ok (client_error, if is_array then jl\<lparr>jl_array := map (\<lambda>_. Freed) (jl_array jl)\<rparr> else jl))"

text \<open>\<open>json_array_clear\<close> drops one reference of every element: of a freed one, a use after free.\<close>

fun json_array_clear :: "'j cell list \<Rightarrow> 'j cell list res" where
  "json_array_clear [] = Ok []"
| "json_array_clear (Freed # cs) = Fault UseAfterFree"
| "json_array_clear (Live v # cs) = json_array_clear cs"

definition jl_Write ::
  "'j jansson \<Rightarrow> (byte list \<Rightarrow> byte list) \<Rightarrow> string \<Rightarrow> 'j joiner_list
     \<Rightarrow> (status_code \<times> 'j joiner_list) res" where
  "jl_Write api sha text jl =
     rbind (json_array_clear (jl_array jl)) (\<lambda>cs.
       let jl0 = jl\<lparr>jl_steering := sd_Clear (jl_steering jl), jl_vector := [], jl_array := cs\<rparr> in
       case json_loads api text of
         None \<Rightarrow> Ok (client_error, jl0)
       | Some parsed \<Rightarrow>
           if json_is_array api parsed
           then write_loop api sha True (json_array_values api parsed) jl0
           else write_loop api sha False [parsed] jl0)"

text \<open>\<open>json_array_foreach\<close> with the \<open>strcmp\<close> of \<open>Edit\<close> and \<open>Remove\<close>: the index of the match.\<close>

fun find_eui :: "'j jansson \<Rightarrow> string \<Rightarrow> 'j cell list \<Rightarrow> nat option res" where
  "find_eui api eui [] = Ok None"
| "find_eui api eui (Freed # cs) = Fault UseAfterFree"
| "find_eui api eui (Live value # cs) =
     (case string_field api value ''eui64'' of
        None \<Rightarrow> Fault NullDeref
      | Some e \<Rightarrow> if e = eui then Ok (Some 0) else map_res (map_option Suc) (find_eui api eui cs))"

definition erase_at :: "nat \<Rightarrow> 'j joiner_list \<Rightarrow> 'j joiner_list res" where
  "erase_at index jl =
     rbind (guard (index < length (jl_vector jl)) OutOfBounds) (\<lambda>_.
       Ok (jl\<lparr>jl_array := delete_at index (jl_array jl), jl_vector := delete_at index (jl_vector jl)\<rparr>))"

definition jl_Edit ::
  "'j jansson \<Rightarrow> (byte list \<Rightarrow> byte list) \<Rightarrow> string \<Rightarrow> string \<Rightarrow> 'j joiner_list
     \<Rightarrow> (status_code \<times> 'j joiner_list) res" where
  "jl_Edit api sha body eui jl =
     (if length eui \<noteq> kEui64Len * 2 then Ok (client_error, jl)
      else rbind (find_eui api eui (jl_array jl)) (\<lambda>index.
           rbind (case index of None \<Rightarrow> Ok jl | Some i \<Rightarrow> erase_at i jl) (\<lambda>jl1.
             let obj1 = json_object_set api (json_object_new api) ''psk'' (json_string api body);
                 obj = json_object_set api obj1 ''eui64'' (json_string api eui)
             in rbind (fill_instance (Some body) (Some eui)) (\<lambda>v.
                rbind (jl_ComputeSteering sha (index \<noteq> None)
                         (jl1\<lparr>jl_array := jl_array jl1 @ [Live obj], jl_vector := jl_vector jl1 @ [v]\<rparr>))
                  (\<lambda>jl2. Ok (success_ok, jl2))))))"

definition jl_Clear :: "'j joiner_list \<Rightarrow> 'j joiner_list res" where
  "jl_Clear jl =
     rbind (json_array_clear (jl_array jl)) (\<lambda>cs.
       Ok (jl\<lparr>jl_steering := sd_Clear (jl_steering jl), jl_vector := [], jl_array := cs,
              jl_updated := True\<rparr>))"

fun live_values :: "'j cell list \<Rightarrow> 'j list res" where
  "live_values [] = Ok []"
| "live_values (Freed # cs) = Fault UseAfterFree"
| "live_values (Live v # cs) = map_res ((#) v) (live_values cs)"

definition jl_Read :: "'j jansson \<Rightarrow> 'j joiner_list \<Rightarrow> string res" where
  "jl_Read api jl =
     rbind (live_values (jl_array jl)) (\<lambda>vs. Ok (json_dumps api (json_array_of api vs)))"

definition jl_Remove ::
  "'j jansson \<Rightarrow> (byte list \<Rightarrow> byte list) \<Rightarrow> string \<Rightarrow> 'j joiner_list
     \<Rightarrow> (status_code \<times> 'j joiner_list) res" where
  "jl_Remove api sha eui jl =
     rbind (find_eui api eui (jl_array jl)) (\<lambda>index.
       case index of
         None \<Rightarrow> Ok (client_error_not_found, jl)
       | Some i \<Rightarrow>
           rbind (erase_at i jl) (\<lambda>jl1.
           rbind (jl_ComputeSteering sha True jl1) (\<lambda>jl2. Ok (success_ok, jl2))))"

definition jl_GetSteering :: "'j joiner_list \<Rightarrow> steering_data" where
  "jl_GetSteering jl = jl_steering jl"

definition jl_WasListUpdated :: "'j joiner_list \<Rightarrow> bool" where
  "jl_WasListUpdated jl = jl_updated jl"

definition jl_ListUpdateFinished :: "'j joiner_list \<Rightarrow> 'j joiner_list" where
  "jl_ListUpdateFinished jl = jl\<lparr>jl_updated := False\<rparr>"

text \<open>
  \<open>num > vector.size() - 1\<close> is an unsigned comparison: for an empty vector the right side is
  \<open>2 ^ 64 - 1\<close>, the test fails and the iterator past the end is dereferenced.
\<close>

definition jl_GetJoinerInstance :: "u32 \<Rightarrow> 'j joiner_list \<Rightarrow> joiner_instance option res" where
  "jl_GetJoinerInstance num jl =
     (if (ucast num :: u64) > word_of_nat (length (jl_vector jl)) - 1 then Ok None
      else if unat num < length (jl_vector jl) then Ok (Some (jl_vector jl ! unat num))
      else Fault OutOfBounds)"

section \<open>The invariant\<close>

definition eui_bin :: "string \<Rightarrow> byte list" where
  "eui_bin e = snd (Hex2Bytes e (replicate kEui64Len 0) kEui64Len)"

definition cell_ok :: "'j jansson \<Rightarrow> 'j cell \<Rightarrow> joiner_instance \<Rightarrow> bool" where
  "cell_ok api c v \<longleftrightarrow> (\<exists>j. c = Live j \<and> string_field api j ''eui64'' = Some (mJoinerEui64Ascii v))"

definition instance_ok :: "joiner_instance \<Rightarrow> bool" where
  "instance_ok v \<longleftrightarrow> length (mJoinerPSKdAscii v) \<le> kPSKdLength
     \<and> length (mJoinerEui64Ascii v) \<le> kEui64Len * 2
     \<and> mJoinerEui64Bin v = eui_bin (mJoinerEui64Ascii v)"

definition blank_steering :: steering_data where
  "blank_steering = \<lparr>mBloomFilter = replicate kMaxSizeOfBloomFilter 0, mLength = kSteeringDefaultLength\<rparr>"

definition list_filter :: "(byte list \<Rightarrow> byte list) \<Rightarrow> joiner_instance list \<Rightarrow> steering_data res" where
  "list_filter sha vs =
     fold_res (\<lambda>i. ComputeSteeringData sha False (mJoinerEui64Bin i)) vs blank_steering"

text \<open>The three copies agree: cell by cell, and the filter is that of the vector.\<close>

definition jl_inv :: "'j jansson \<Rightarrow> (byte list \<Rightarrow> byte list) \<Rightarrow> 'j joiner_list \<Rightarrow> bool" where
  "jl_inv api sha jl \<longleftrightarrow> list_all2 (cell_ok api) (jl_array jl) (jl_vector jl)
     \<and> list_all instance_ok (jl_vector jl)
     \<and> list_filter sha (jl_vector jl) = Ok (jl_steering jl)"

text \<open>What a client of the list sees: the pairs of EUI-64 and credential, in order.\<close>

definition joiner_entry :: "joiner_instance \<Rightarrow> string \<times> string" where
  "joiner_entry v = (mJoinerEui64Ascii v, mJoinerPSKdAscii v)"

definition jl_entries :: "'j joiner_list \<Rightarrow> (string \<times> string) list" where
  "jl_entries jl = map joiner_entry (jl_vector jl)"

lemma list_filter_fold: "list_filter sha vs
    = fold_res (ComputeSteeringData sha False) (map mJoinerEui64Bin vs) blank_steering"
  by (simp add: list_filter_def fold_res_map)

lemma blank_steering_inv: "sd_inv blank_steering" "mLength blank_steering = kSteeringDefaultLength"
  by (simp_all add: blank_steering_def sd_inv_def steering_consts kSteeringDefaultLength_def)

lemma list_filter_total:
  "sha_ok sha \<Longrightarrow> \<exists>s. list_filter sha vs = Ok s \<and> sd_inv s \<and> mLength s = kSteeringDefaultLength"
  using steering_bits_exact [of sha blank_steering "map mJoinerEui64Bin vs"] blank_steering_inv
  by (auto simp: list_filter_fold)

lemma sd_Clear_blank:
  "sd_inv s \<Longrightarrow> mLength s = kSteeringDefaultLength \<Longrightarrow> sd_Clear s = blank_steering"
  by (cases s) (simp add: sd_inv_def sd_Clear_def blank_steering_def)

lemma jl_inv_Clear:
  "sha_ok sha \<Longrightarrow> jl_inv api sha jl \<Longrightarrow> sd_Clear (jl_steering jl) = blank_steering"
  using list_filter_total [of sha "jl_vector jl"] sd_Clear_blank [of "jl_steering jl"]
  by (auto simp: jl_inv_def)

lemma list_filter_snoc:
  "list_filter sha vs = Ok s \<Longrightarrow>
     list_filter sha (vs @ [v]) = ComputeSteeringData sha False (mJoinerEui64Bin v) s"
  by (simp add: list_filter_def fold_res_append)

lemma fill_instance_eq_Ok:
  "fill_instance psk eui = Ok v \<longleftrightarrow> (\<exists>p e. psk = Some p \<and> eui = Some e \<and> length p \<le> kPSKdLength
     \<and> length e \<le> kEui64Len * 2
     \<and> v = new_JoinerInstance\<lparr>mJoinerPSKdAscii := p, mJoinerEui64Ascii := e,
           mJoinerEui64Bin := eui_bin e\<rparr>)"
  by (cases psk; cases eui)
    (auto simp: fill_instance_def strcpy_to_def eui_bin_def new_JoinerInstance_def)

lemma fill_instance_ok: "fill_instance psk eui = Ok v \<Longrightarrow> instance_ok v"
  by (auto simp: fill_instance_eq_Ok instance_ok_def)

lemma find_eui_index:
  "list_all2 (cell_ok api) cs vs \<Longrightarrow>
     find_eui api eui cs = Ok (index_of (\<lambda>v. mJoinerEui64Ascii v = eui) vs)"
  by (induction cs vs rule: list_all2_induct) (auto simp: cell_ok_def)

lemma live_values_ok:
  "list_all2 (cell_ok api) cs vs \<Longrightarrow> \<exists>js. live_values cs = Ok js \<and> cs = map Live js"
  by (induction cs vs rule: list_all2_induct) (auto simp: cell_ok_def)

text \<open>Appending one entry, and recomputing after an erasure.\<close>

lemma append_keeps_inv:
  assumes "jl_inv api sha jl" and "cell_ok api c v" and "instance_ok v"
    and "ComputeSteeringData sha False (mJoinerEui64Bin v) (jl_steering jl) = Ok s"
  shows "jl_inv api sha (jl\<lparr>jl_vector := jl_vector jl @ [v], jl_steering := s, jl_array := jl_array jl @ [c]\<rparr>)"
  using assms list_filter_snoc [of sha "jl_vector jl" "jl_steering jl" v]
  by (auto simp: jl_inv_def intro: list_all2_appendI)

lemma recompute_ok:
  assumes sha: "sha_ok sha" and len: "sd_Clear (jl_steering jl) = blank_steering"
    and cells: "list_all2 (cell_ok api) (jl_array jl) (jl_vector jl)" "list_all instance_ok (jl_vector jl)"
  shows "\<exists>jl'. jl_ComputeSteering sha True jl = Ok jl' \<and> jl_inv api sha jl' \<and> jl_updated jl'
    \<and> jl_vector jl' = jl_vector jl"
proof -
  obtain s where s: "list_filter sha (jl_vector jl) = Ok s"
    using list_filter_total [OF sha] by blast
  then have "jl_ComputeSteering sha True jl = Ok (jl\<lparr>jl_steering := s, jl_updated := True\<rparr>)"
    by (simp add: jl_ComputeSteering_def len list_filter_def)
  then show ?thesis using s cells by (simp add: jl_inv_def)
qed

lemma compute_steering_data_total:
  assumes "sha_ok sha" and "jl_inv api sha jl"
  shows "\<exists>s. ComputeSteeringData sha False b (jl_steering jl) = Ok s"
proof -
  have "sd_inv (jl_steering jl)"
    using list_filter_total [OF assms(1), of "jl_vector jl"] assms(2) by (auto simp: jl_inv_def)
  then show ?thesis using steering.add_total [of "jl_steering jl" sha b] assms(1) by blast
qed

lemma append_steering_ok:
  assumes sha: "sha_ok sha" and inv: "jl_inv api sha jl" and c: "cell_ok api c v" and v: "instance_ok v"
  shows "\<exists>jl'. jl_ComputeSteering sha False
        (jl\<lparr>jl_array := jl_array jl @ [c], jl_vector := jl_vector jl @ [v]\<rparr>) = Ok jl'
    \<and> jl_inv api sha jl' \<and> jl_updated jl' \<and> jl_vector jl' = jl_vector jl @ [v]"
proof -
  obtain s where s: "ComputeSteeringData sha False (mJoinerEui64Bin v) (jl_steering jl) = Ok s"
    using compute_steering_data_total [OF sha inv] by blast
  with append_keeps_inv [OF inv c v s] show ?thesis
    by (simp add: jl_ComputeSteering_def jl_inv_def)
qed

lemma erase_at_ok:
  assumes "jl_inv api sha jl" and "index_of P (jl_vector jl) = Some i"
  shows "erase_at i jl = Ok (jl\<lparr>jl_array := delete_at i (jl_array jl),
      jl_vector := remove_first P (jl_vector jl)\<rparr>)"
    and "list_all2 (cell_ok api) (delete_at i (jl_array jl)) (remove_first P (jl_vector jl))"
    and "list_all instance_ok (remove_first P (jl_vector jl))"
  using assms index_of_SomeD [OF assms(2)] delete_at_index_of [OF assms(2), symmetric]
  by (auto simp: erase_at_def jl_inv_def intro: list_all2_delete_at list_all_delete_at)

section \<open>Each operation\<close>

lemma new_JoinerList_inv: "\<exists>jl. new_JoinerList = Ok jl \<and> jl_inv api sha jl \<and> jl_entries jl = []"
  by (simp add: new_JoinerList_def sd_Init_def sd_Clear_def jl_inv_def list_filter_def jl_entries_def
      blank_steering_def steering_consts kSteeringDefaultLength_def)

lemma json_array_clear_ok:
  "list_all2 (cell_ok api) cs vs \<Longrightarrow> json_array_clear cs = Ok []"
  by (induction cs vs rule: list_all2_induct) (auto simp: cell_ok_def)

lemma jl_Clear_step:
  assumes "sha_ok sha" and "jl_inv api sha jl"
  shows "\<exists>jl'. jl_Clear jl = Ok jl' \<and> jl_inv api sha jl' \<and> jl_entries jl' = [] \<and> jl_updated jl'"
  using jl_inv_Clear [OF assms] assms(2) json_array_clear_ok
  by (fastforce simp: jl_Clear_def jl_inv_def list_filter_def jl_entries_def)

lemma jl_ListUpdateFinished_inv [inv_intros]:
  "jl_inv api sha jl \<Longrightarrow> jl_inv api sha (jl_ListUpdateFinished jl)"
  by (simp add: jl_ListUpdateFinished_def jl_inv_def)

lemma jl_Remove_step:
  assumes sha: "sha_ok sha" and inv: "jl_inv api sha jl"
  shows "(case index_of (\<lambda>v. mJoinerEui64Ascii v = eui) (jl_vector jl) of
      None \<Rightarrow> jl_Remove api sha eui jl = Ok (client_error_not_found, jl)
    | Some i \<Rightarrow> \<exists>jl'. jl_Remove api sha eui jl = Ok (success_ok, jl') \<and> jl_inv api sha jl' \<and> jl_updated jl'
        \<and> jl_vector jl' = remove_first (\<lambda>v. mJoinerEui64Ascii v = eui) (jl_vector jl))"
proof (cases "index_of (\<lambda>v. mJoinerEui64Ascii v = eui) (jl_vector jl)")
  case None
  have "find_eui api eui (jl_array jl) = Ok None"
    using inv find_eui_index [of api "jl_array jl" "jl_vector jl" eui] None by (simp add: jl_inv_def)
  with None show ?thesis by (simp add: jl_Remove_def)
next
  case (Some i)
  note er = erase_at_ok [OF inv Some]
  have find: "find_eui api eui (jl_array jl) = Ok (Some i)"
    using inv find_eui_index [of api "jl_array jl" "jl_vector jl" eui] Some by (simp add: jl_inv_def)
  let ?jl1 = "jl\<lparr>jl_array := delete_at i (jl_array jl),
      jl_vector := remove_first (\<lambda>v. mJoinerEui64Ascii v = eui) (jl_vector jl)\<rparr>"
  obtain jl' where "jl_ComputeSteering sha True ?jl1 = Ok jl'" "jl_inv api sha jl'" "jl_updated jl'"
    "jl_vector jl' = jl_vector ?jl1"
    using recompute_ok [OF sha, of ?jl1 api] jl_inv_Clear [OF sha inv] er(2,3) by auto
  with find er(1) Some show ?thesis by (simp add: jl_Remove_def)
qed

lemma edit_object_cell:
  assumes api: "jansson_ok api" and eui: "json_string api eui \<noteq> None"
  shows "string_field api (json_object_set api (json_object_set api (json_object_new api) ''psk''
      (json_string api body)) ''eui64'' (json_string api eui)) ''eui64'' = Some eui"
proof -
  obtain v where "json_string api eui = Some v" using eui by auto
  then show ?thesis
    using jansson_simps(2,4) [OF api] by (simp add: string_field_def)
qed

lemma jl_Edit_step:
  assumes api: "jansson_ok api" and sha: "sha_ok sha" and inv: "jl_inv api sha jl"
    and eui: "length eui = kEui64Len * 2" "json_string api eui \<noteq> None"
    and body: "length body \<le> kPSKdLength"
  shows "\<exists>jl'. jl_Edit api sha body eui jl = Ok (success_ok, jl') \<and> jl_inv api sha jl' \<and> jl_updated jl'
    \<and> jl_entries jl' = remove_first (\<lambda>x. fst x = eui) (jl_entries jl) @ [(eui, body)]"
proof -
  let ?P = "\<lambda>v. mJoinerEui64Ascii v = eui"
  obtain v where v: "fill_instance (Some body) (Some eui) = Ok v"
    and vf: "mJoinerEui64Ascii v = eui" "mJoinerPSKdAscii v = body"
    using eui(1) body by (auto simp: fill_instance_eq_Ok)
  let ?obj = "json_object_set api (json_object_set api (json_object_new api) ''psk''
      (json_string api body)) ''eui64'' (json_string api eui)"
  have c: "cell_ok api (Live ?obj) v"
    using edit_object_cell [OF api eui(2)] vf by (simp add: cell_ok_def)
  have vok: "instance_ok v" using fill_instance_ok [OF v] .
  have find: "find_eui api eui (jl_array jl) = Ok (index_of ?P (jl_vector jl))"
    using inv by (simp add: jl_inv_def find_eui_index)
  have ent: "map joiner_entry (remove_first ?P (jl_vector jl) @ [v])
      = remove_first (\<lambda>x. fst x = eui) (jl_entries jl) @ [(eui, body)]"
    using vf by (simp add: jl_entries_def remove_first_map joiner_entry_def comp_def)
  show ?thesis
  proof (cases "index_of ?P (jl_vector jl)")
    case None
    then have none: "remove_first ?P (jl_vector jl) = jl_vector jl"
      by (intro remove_first_none) (simp add: index_of_None_iff)
    from append_steering_ok [OF sha inv c vok] ent none find v eui(1) None show ?thesis
      by (auto simp: jl_Edit_def jl_entries_def)
  next
    case (Some i)
    note er = erase_at_ok [OF inv Some]
    let ?jl2 = "jl\<lparr>jl_array := delete_at i (jl_array jl) @ [Live ?obj],
        jl_vector := remove_first ?P (jl_vector jl) @ [v]\<rparr>"
    obtain jl' where "jl_ComputeSteering sha True ?jl2 = Ok jl'" "jl_inv api sha jl'" "jl_updated jl'"
      "jl_vector jl' = jl_vector ?jl2"
      using recompute_ok [OF sha, of ?jl2 api] jl_inv_Clear [OF sha inv] er(2,3) c vok
      by (auto intro: list_all2_appendI)
    with find er(1) Some v eui(1) ent show ?thesis
      by (simp add: jl_Edit_def jl_entries_def)
  qed
qed

text \<open>What \<open>Write\<close> accepts of one element of the document.\<close>

definition joiner_fields :: "'j jansson \<Rightarrow> 'j \<Rightarrow> (string \<times> string) option" where
  "joiner_fields api j =
     (case (string_field api j ''eui64'', string_field api j ''psk'') of
        (Some e, Some p) \<Rightarrow>
          if length e \<le> kEui64Len * 2 \<and> length p \<le> kPSKdLength then Some (e, p) else None
      | _ \<Rightarrow> None)"

lemma joiner_fields_unpack:
  assumes "joiner_fields api j = Some (e, p)"
  shows "\<exists>psk eui v. JsonUnpack api j [''psk'', ''eui64''] = Some [psk, eui]
    \<and> fill_instance (json_string_value api psk) (json_string_value api eui) = Ok v
    \<and> joiner_entry v = (e, p) \<and> cell_ok api (Live j) v"
  using assms
  by (auto simp: joiner_fields_def string_field_def Option.bind_eq_Some_conv fill_instance_eq_Ok
      cell_ok_def joiner_entry_def split: option.splits if_splits)

lemma write_loop_step:
  assumes sha: "sha_ok sha"
  shows "jl_inv api sha jl \<Longrightarrow> map (joiner_fields api) js = map Some es \<Longrightarrow>
    \<exists>jl'. write_loop api sha is_array js jl = Ok (success_ok, jl') \<and> jl_inv api sha jl' \<and> jl_updated jl'
      \<and> jl_entries jl' = jl_entries jl @ es"
proof (induction js arbitrary: jl es)
  case Nil
  then show ?case by (simp add: jl_inv_def jl_entries_def)
next
  case (Cons j js)
  then obtain e p es' where es: "es = (e, p) # es'" "joiner_fields api j = Some (e, p)"
    "map (joiner_fields api) js = map Some es'"
    by (cases es) auto
  obtain psk eui v where u: "JsonUnpack api j [''psk'', ''eui64''] = Some [psk, eui]"
    "fill_instance (json_string_value api psk) (json_string_value api eui) = Ok v"
    "joiner_entry v = (e, p)" "cell_ok api (Live j) v"
    using joiner_fields_unpack [OF es(2)] by blast
  obtain s where s: "ComputeSteeringData sha False (mJoinerEui64Bin v) (jl_steering jl) = Ok s"
    using compute_steering_data_total [OF sha Cons.prems(1)] by blast
  let ?jl1 = "jl\<lparr>jl_vector := jl_vector jl @ [v], jl_steering := s, jl_array := jl_array jl @ [Live j]\<rparr>"
  have "jl_inv api sha ?jl1"
    by (rule append_keeps_inv [OF Cons.prems(1) u(4) fill_instance_ok [OF u(2)] s])
  from Cons.IH [OF this es(3)] u s es(1) show ?case
    by (auto simp: jl_entries_def simp del: JsonUnpack.simps)
qed

lemma jl_reset_inv:
  assumes "sha_ok sha" and "jl_inv api sha jl"
  shows "json_array_clear (jl_array jl) = Ok []"
    and "jl_inv api sha (jl\<lparr>jl_steering := sd_Clear (jl_steering jl), jl_vector := [], jl_array := []\<rparr>)"
  using jl_inv_Clear [OF assms] assms(2) json_array_clear_ok
  by (fastforce simp: jl_inv_def list_filter_def)+

section \<open>The list as its clients see it\<close>

text \<open>
  The contract: an ordered list of (EUI-64, credential) pairs.  \<open>Edit\<close> moves the device to the
  end with its new credential, \<open>Remove\<close> drops it, \<open>Write\<close> replaces everything.
\<close>

datatype jl_op = OpWrite string | OpEdit string string | OpRemove string | OpClear | OpFinished

definition jl_step ::
  "'j jansson \<Rightarrow> (byte list \<Rightarrow> byte list) \<Rightarrow> jl_op \<Rightarrow> 'j joiner_list
     \<Rightarrow> (status_code \<times> 'j joiner_list) res" where
  "jl_step api sha op jl =
     (case op of
        OpWrite text \<Rightarrow> jl_Write api sha text jl
      | OpEdit body eui \<Rightarrow> jl_Edit api sha body eui jl
      | OpRemove eui \<Rightarrow> jl_Remove api sha eui jl
      | OpClear \<Rightarrow> map_res (Pair success_ok) (jl_Clear jl)
      | OpFinished \<Rightarrow> Ok (success_ok, jl_ListUpdateFinished jl))"

definition document :: "'j jansson \<Rightarrow> 'j \<Rightarrow> 'j list" where
  "document api parsed = (if json_is_array api parsed then json_array_values api parsed else [parsed])"

definition spec_step ::
  "'j jansson \<Rightarrow> jl_op \<Rightarrow> (string \<times> string) list \<Rightarrow> status_code \<times> (string \<times> string) list" where
  "spec_step api op es =
     (case op of
        OpWrite text \<Rightarrow>
          (case json_loads api text of
             None \<Rightarrow> (client_error, [])
           | Some parsed \<Rightarrow> (success_ok, map (the \<circ> joiner_fields api) (document api parsed)))
      | OpEdit body eui \<Rightarrow>
          if length eui = 16 then (success_ok, remove_first (\<lambda>x. fst x = eui) es @ [(eui, body)])
          else (client_error, es)
      | OpRemove eui \<Rightarrow>
          if eui \<in> fst ` set es then (success_ok, remove_first (\<lambda>x. fst x = eui) es)
          else (client_error_not_found, es)
      | OpClear \<Rightarrow> (success_ok, [])
      | OpFinished \<Rightarrow> (success_ok, es))"

text \<open>The inputs the code handles: texts that fit the fixed arrays, documents with both keys.\<close>

definition op_ok :: "'j jansson \<Rightarrow> jl_op \<Rightarrow> bool" where
  "op_ok api op =
     (case op of
        OpWrite text \<Rightarrow>
          (case json_loads api text of
             None \<Rightarrow> True
           | Some parsed \<Rightarrow> list_all (\<lambda>j. joiner_fields api j \<noteq> None) (document api parsed))
      | OpEdit body eui \<Rightarrow> length eui = 16 \<longrightarrow> length body \<le> 32 \<and> json_string api eui \<noteq> None
      | _ \<Rightarrow> True)"

fun jl_run ::
  "'j jansson \<Rightarrow> (byte list \<Rightarrow> byte list) \<Rightarrow> jl_op list \<Rightarrow> 'j joiner_list
     \<Rightarrow> (status_code list \<times> 'j joiner_list) res" where
  "jl_run api sha [] jl = Ok ([], jl)"
| "jl_run api sha (op # ops) jl =
     rbind (jl_step api sha op jl) (\<lambda>(st, jl1). map_res (map_prod ((#) st) id) (jl_run api sha ops jl1))"

fun spec_run ::
  "'j jansson \<Rightarrow> jl_op list \<Rightarrow> (string \<times> string) list \<Rightarrow> status_code list \<times> (string \<times> string) list"
where
  "spec_run api [] es = ([], es)"
| "spec_run api (op # ops) es =
     (case spec_step api op es of (st, es1) \<Rightarrow> map_prod ((#) st) id (spec_run api ops es1))"

lemma jl_Write_step:
  assumes sha: "sha_ok sha" and inv: "jl_inv api sha jl" and op: "op_ok api (OpWrite text)"
  shows "\<exists>st jl'. jl_Write api sha text jl = Ok (st, jl') \<and> jl_inv api sha jl'
    \<and> spec_step api (OpWrite text) (jl_entries jl) = (st, jl_entries jl')"
proof (cases "json_loads api text")
  case None
  with jl_reset_inv [OF sha inv] show ?thesis
    by (simp add: jl_Write_def spec_step_def jl_entries_def)
next
  case (Some parsed)
  let ?jl0 = "jl\<lparr>jl_steering := sd_Clear (jl_steering jl), jl_vector := [], jl_array := []\<rparr>"
  have "map (joiner_fields api) (document api parsed)
      = map Some (map (the \<circ> joiner_fields api) (document api parsed))"
    using op Some by (auto simp: op_ok_def list_all_iff)
  from write_loop_step [OF sha jl_reset_inv(2) [OF sha inv] this, of "json_is_array api parsed"]
  moreover have "jl_Write api sha text jl
      = write_loop api sha (json_is_array api parsed) (document api parsed) ?jl0"
    using Some jl_reset_inv(1) [OF sha inv]
    by (simp add: jl_Write_def document_def del: write_loop.simps)
  moreover have "jl_entries ?jl0 = []" by (simp add: jl_entries_def)
  ultimately show ?thesis using Some by (auto simp: spec_step_def simp del: write_loop.simps)
qed

lemma jl_Remove_entries:
  assumes "sha_ok sha" and "jl_inv api sha jl"
  shows "\<exists>st jl'. jl_Remove api sha eui jl = Ok (st, jl') \<and> jl_inv api sha jl'
    \<and> spec_step api (OpRemove eui) (jl_entries jl) = (st, jl_entries jl')"
proof (cases "index_of (\<lambda>v. mJoinerEui64Ascii v = eui) (jl_vector jl)")
  case None
  then have "eui \<notin> fst ` set (jl_entries jl)"
    by (auto simp: index_of_None_iff jl_entries_def joiner_entry_def)
  with jl_Remove_step [OF assms, of eui] None assms(2) show ?thesis by (simp add: spec_step_def)
next
  case (Some i)
  then have "eui \<in> fst ` set (jl_entries jl)"
    using index_of_SomeD [OF Some] by (force simp: jl_entries_def joiner_entry_def)
  moreover have "map joiner_entry (remove_first (\<lambda>v. mJoinerEui64Ascii v = eui) (jl_vector jl))
      = remove_first (\<lambda>x. fst x = eui) (jl_entries jl)"
    by (simp add: jl_entries_def remove_first_map joiner_entry_def comp_def)
  ultimately show ?thesis
    using jl_Remove_step [OF assms, of eui] Some by (auto simp: spec_step_def jl_entries_def)
qed

lemma jl_step_refines:
  assumes api: "jansson_ok api" and sha: "sha_ok sha" and inv: "jl_inv api sha jl" and op: "op_ok api op"
  shows "\<exists>st jl'. jl_step api sha op jl = Ok (st, jl') \<and> jl_inv api sha jl'
    \<and> spec_step api op (jl_entries jl) = (st, jl_entries jl')"
proof (cases op)
  case (OpWrite doc)
  with jl_Write_step [OF sha inv] op show ?thesis by (simp add: jl_step_def)
next
  case (OpEdit body eui)
  show ?thesis
  proof (cases "length eui = 16")
    case True
    with jl_Edit_step [OF api sha inv, of eui body] op OpEdit show ?thesis
      by (auto simp: jl_step_def op_ok_def spec_step_def kEui64Len_def kPSKdLength_def)
  next
    case False
    with OpEdit inv show ?thesis by (simp add: jl_step_def jl_Edit_def spec_step_def kEui64Len_def)
  qed
next
  case (OpRemove eui)
  with jl_Remove_entries [OF sha inv, of eui] show ?thesis by (simp add: jl_step_def)
next
  case OpClear
  with jl_Clear_step [OF sha inv] show ?thesis by (auto simp: jl_step_def spec_step_def)
next
  case OpFinished
  with jl_ListUpdateFinished_inv [OF inv] show ?thesis
    by (simp add: jl_step_def spec_step_def jl_entries_def jl_ListUpdateFinished_def)
qed

lemma jl_run_refines:
  assumes "jansson_ok api" and "sha_ok sha"
  shows "jl_inv api sha jl \<Longrightarrow> list_all (op_ok api) ops \<Longrightarrow>
    \<exists>sts jl'. jl_run api sha ops jl = Ok (sts, jl') \<and> jl_inv api sha jl'
      \<and> spec_run api ops (jl_entries jl) = (sts, jl_entries jl')"
proof (induction ops arbitrary: jl)
  case Nil
  then show ?case by simp
next
  case (Cons op ops)
  then obtain st jl1 where s: "jl_step api sha op jl = Ok (st, jl1)" "jl_inv api sha jl1"
    "spec_step api op (jl_entries jl) = (st, jl_entries jl1)"
    using jl_step_refines [OF assms] by fastforce
  from Cons.IH [OF s(2)] Cons.prems(2) s show ?case by auto
qed

lemma map_of_filter_neq: "map_of (filter (\<lambda>x. fst x \<noteq> k) es) = (map_of es)(k := None)"
  by (induction es) (auto simp: fun_eq_iff)

text \<open>No listed device is turned away by the announced filter.\<close>

lemma jl_inv_admits:
  assumes "sha_ok sha" and "jl_inv api sha jl" and "(eui, psk) \<in> set (jl_entries jl)"
  shows "sd_admits (jl_steering jl) (ComputeHashMac sha (eui_bin eui))"
proof -
  obtain v where v: "v \<in> set (jl_vector jl)" "mJoinerEui64Ascii v = eui"
    using assms(3) by (auto simp: jl_entries_def joiner_entry_def)
  have "mJoinerEui64Bin v = eui_bin eui"
    using v assms(2) by (auto simp: jl_inv_def list_all_iff instance_ok_def)
  moreover have "sd_admits (jl_steering jl) (ComputeHashMac sha (mJoinerEui64Bin v))"
    using steering.add_all_hit [OF blank_steering_inv(1), of sha "map mJoinerEui64Bin (jl_vector jl)"
        "jl_steering jl" "mJoinerEui64Bin v"] assms(1,2) v(1)
    by (simp add: jl_inv_def list_filter_fold list_all_iff)
  ultimately show ?thesis by simp
qed

lemma jl_GetJoinerInstance_eq:
  assumes "length (jl_vector jl) < 2 ^ 32"
  shows "jl_GetJoinerInstance num jl =
    (if jl_vector jl = [] then Fault OutOfBounds
     else if unat num < length (jl_vector jl) then Ok (Some (jl_vector jl ! unat num))
     else Ok None)"
proof (cases "jl_vector jl = []")
  case True
  have "\<not> (- 1 < (ucast num :: u64))" by (simp add: not_less)
  with True show ?thesis by (simp add: jl_GetJoinerInstance_def)
next
  case False
  have "unat (word_of_nat (length (jl_vector jl)) - 1 :: u64) = length (jl_vector jl) - 1"
    using False assms by (subst unat_sub) (auto simp: word_le_nat_alt unat_of_nat Suc_le_eq)
  moreover have "unat (ucast num :: u64) = unat num"
    by (simp add: unsigned_ucast_eq take_bit_nat_eq_self_iff less_le_trans [OF unsigned_less [of num]])
  moreover obtain n where "length (jl_vector jl) = Suc n" using False by (cases "jl_vector jl") auto
  ultimately show ?thesis using False by (simp add: jl_GetJoinerInstance_def word_less_nat_alt less_Suc_eq_le not_le)
qed

section \<open>Properties\<close>

text \<open>
  C1: any sequence of list operations from a fresh list, on inputs that fit, refines the ordered
  list of (EUI-64, credential) pairs: no operation faults, the status codes and the pairs are
  those of the contract, the JSON array, the vector and the filter agree, and the announced
  filter admits every listed device.
\<close>

theorem joiner_list_refines:
  assumes "jansson_ok api" and "sha_ok sha" and "list_all (op_ok api) ops"
  shows "\<exists>jl0 sts jl. new_JoinerList = Ok jl0 \<and> jl_run api sha ops jl0 = Ok (sts, jl)
    \<and> spec_run api ops [] = (sts, jl_entries jl) \<and> jl_inv api sha jl
    \<and> (\<forall>(eui, psk) \<in> set (jl_entries jl).
          sd_admits (jl_GetSteering jl) (ComputeHashMac sha (eui_bin eui)))"
proof -
  obtain jl0 where jl0: "new_JoinerList = Ok jl0" "jl_inv api sha jl0" "jl_entries jl0 = []"
    using new_JoinerList_inv by blast
  obtain sts jl where run: "jl_run api sha ops jl0 = Ok (sts, jl)" "jl_inv api sha jl"
    "spec_run api ops [] = (sts, jl_entries jl)"
    using jl_run_refines [OF assms(1,2) jl0(2) assms(3)] jl0(3) by auto
  have "\<forall>(eui, psk) \<in> set (jl_entries jl). sd_admits (jl_GetSteering jl) (ComputeHashMac sha (eui_bin eui))"
    using jl_inv_admits [OF assms(2) run(2)] by (auto simp: jl_GetSteering_def)
  with jl0(1) run show ?thesis by blast
qed

theorem joiner_list_refines_witness:
  "\<exists>jl0 jl. new_JoinerList = Ok jl0
    \<and> jl_run (jdoc_api None) (\<lambda>_. replicate 32 0)
        [OpEdit ''J01NU5'' ''18b4300000000001'', OpRemove ''18b4300000000002'',
         OpEdit ''J01NU6'' ''18b4300000000001''] jl0
        = Ok ([success_ok, client_error_not_found, success_ok], jl)
    \<and> jl_entries jl = [(''18b4300000000001'', ''J01NU6'')]"
proof -
  let ?ops = "[OpEdit ''J01NU5'' ''18b4300000000001'', OpRemove ''18b4300000000002'',
         OpEdit ''J01NU6'' ''18b4300000000001'']"
  have ok: "list_all (op_ok (jdoc_api None)) ?ops"
    by (simp add: op_ok_def jdoc_api_def)
  have sp: "spec_run (jdoc_api None) ?ops []
      = ([success_ok, client_error_not_found, success_ok], [(''18b4300000000001'', ''J01NU6'')])"
    by (simp add: spec_step_def)
  have "sha_ok (\<lambda>_. replicate 32 0)" by (simp add: sha_ok_def)
  from joiner_list_refines [OF jdoc_api_ok this ok] obtain jl0 sts jl where
    r: "new_JoinerList = Ok jl0" "jl_run (jdoc_api None) (\<lambda>_. replicate 32 0) ?ops jl0 = Ok (sts, jl)"
    "spec_run (jdoc_api None) ?ops [] = (sts, jl_entries jl)"
    by blast
  from r(3) sp have "sts = [success_ok, client_error_not_found, success_ok]"
    "jl_entries jl = [(''18b4300000000001'', ''J01NU6'')]"
    by (simp_all del: spec_run.simps)
  with r(1,2) show ?thesis by blast
qed

text \<open>
  C30: on a list without duplicate EUI-64s, \<open>Edit\<close> is a map update and \<open>Remove\<close> a map deletion,
  and neither introduces a duplicate: the credential a joiner is asked for is the last one set.
\<close>

theorem joiner_list_last_credential:
  assumes "jansson_ok api" and "sha_ok sha" and "jl_inv api sha jl"
    and "distinct (map fst (jl_entries jl))"
    and "op = OpEdit body eui \<or> op = OpRemove eui" and "op_ok api op" and "length eui = 16"
  shows "\<exists>st jl'. jl_step api sha op jl = Ok (st, jl') \<and> distinct (map fst (jl_entries jl'))
    \<and> map_of (jl_entries jl')
        = (map_of (jl_entries jl)) (eui := (case op of OpEdit b e \<Rightarrow> Some b | _ \<Rightarrow> None))"
proof -
  let ?es = "jl_entries jl" and ?rest = "filter (\<lambda>x. fst x \<noteq> eui) (jl_entries jl)"
  obtain st jl' where s: "jl_step api sha op jl = Ok (st, jl')"
    "spec_step api op ?es = (st, jl_entries jl')"
    using jl_step_refines [OF assms(1-3,6)] by blast
  have r: "remove_first (\<lambda>x. fst x = eui) ?es = ?rest"
    using assms(4) by (rule remove_first_distinct_keys)
  have d: "distinct (map fst ?rest)" using assms(4) by (simp add: distinct_map_filter)
  have m: "map_of ?rest = (map_of ?es)(eui := None)"
    by (rule map_of_filter_neq)
  show ?thesis
  proof (cases "op = OpRemove eui \<and> eui \<notin> fst ` set ?es")
    case True
    then have "map_of ?es eui = None" by (simp add: map_of_eq_None_iff)
    with True s assms(4) show ?thesis by (auto simp: spec_step_def)
  next
    case False
    have "op = OpEdit body eui \<and> jl_entries jl' = ?rest @ [(eui, body)]
      \<or> op = OpRemove eui \<and> jl_entries jl' = ?rest"
      using assms(5)
    proof
      assume "op = OpEdit body eui"
      with s(2) r assms(7) show ?thesis by (simp add: spec_step_def)
    next
      assume op: "op = OpRemove eui"
      with False have "(eui \<in> fst ` set ?es) = True" by simp
      with s(2) r op show ?thesis by (simp add: spec_step_def del: image_iff)
    qed
    then consider "op = OpEdit body eui" "jl_entries jl' = ?rest @ [(eui, body)]"
      | "op = OpRemove eui" "jl_entries jl' = ?rest"
      by blast
    then show ?thesis using s(1) d m by cases (auto simp: map_add_def fun_eq_iff split: option.splits)
  qed
qed

theorem joiner_list_last_credential_witness:
  "\<exists>jl st jl'. jl_run (jdoc_api None) (\<lambda>_. replicate 32 0) [OpEdit ''J01NU5'' ''18b4300000000001'']
      \<lparr>jl_array = [], jl_vector = [], jl_steering = blank_steering, jl_updated = False\<rparr>
      = Ok ([success_ok], jl)
    \<and> jl_step (jdoc_api None) (\<lambda>_. replicate 32 0) (OpEdit ''J01NU6'' ''18b4300000000001'') jl = Ok (st, jl')
    \<and> map_of (jl_entries jl') ''18b4300000000001'' = Some ''J01NU6''"
proof -
  let ?sha = "\<lambda>_. replicate 32 0" and ?ops = "[OpEdit ''J01NU5'' ''18b4300000000001'']"
  let ?jl0 = "\<lparr>jl_array = [], jl_vector = [], jl_steering = blank_steering, jl_updated = False\<rparr>"
  have sha: "sha_ok ?sha" by (simp add: sha_ok_def)
  have inv: "jl_inv (jdoc_api None) ?sha ?jl0" by (simp add: jl_inv_def list_filter_def)
  have ok: "list_all (op_ok (jdoc_api None)) ?ops" "op_ok (jdoc_api None) (OpEdit ''J01NU6'' ''18b4300000000001'')"
    by (simp_all add: op_ok_def jdoc_api_def)
  obtain jl where jl: "jl_run (jdoc_api None) ?sha ?ops ?jl0 = Ok ([success_ok], jl)"
    "jl_inv (jdoc_api None) ?sha jl" "jl_entries jl = [(''18b4300000000001'', ''J01NU5'')]"
    using jl_run_refines [OF jdoc_api_ok sha inv ok(1)]
    by (auto simp: spec_step_def jl_entries_def simp del: jl_run.simps)
  from joiner_list_last_credential [OF jdoc_api_ok sha jl(2) _ _ ok(2), of "''J01NU6''" "''18b4300000000001''"] jl(3)
  obtain st jl' where
    "jl_step (jdoc_api None) ?sha (OpEdit ''J01NU6'' ''18b4300000000001'') jl = Ok (st, jl')"
    "map_of (jl_entries jl') ''18b4300000000001'' = Some ''J01NU6''"
    by auto
  with jl(1) show ?thesis by blast
qed

text \<open>
  C27: \<open>GetJoinerInstance\<close> returns the entry of every index in range and null past the end of a
  non-empty list, but on an empty list it dereferences an iterator past the end for every
  index, because \<open>size() - 1\<close> wraps.
\<close>

theorem joiner_instance_lookup:
  assumes "length (jl_vector jl) < 2 ^ 32"
  shows "jl_GetJoinerInstance num jl =
    (if jl_vector jl = [] then Fault OutOfBounds
     else if unat num < length (jl_vector jl) then Ok (Some (jl_vector jl ! unat num))
     else Ok None)"
  using assms by (rule jl_GetJoinerInstance_eq)

theorem joiner_instance_lookup_witness:
  "jl_GetJoinerInstance 0
      \<lparr>jl_array = [], jl_vector = [], jl_steering = blank_steering, jl_updated = False\<rparr> = Fault OutOfBounds
    \<and> jl_GetJoinerInstance 0
      \<lparr>jl_array = [Live ()], jl_vector = [new_JoinerInstance], jl_steering = blank_steering, jl_updated = False\<rparr>
      = Ok (Some new_JoinerInstance)"
  using joiner_instance_lookup
      [of "\<lparr>jl_array = [], jl_vector = [], jl_steering = blank_steering, jl_updated = False\<rparr>" 0]
    joiner_instance_lookup [of "\<lparr>jl_array = [Live ()], jl_vector = [new_JoinerInstance],
      jl_steering = blank_steering, jl_updated = False\<rparr>" 0]
  by simp

text \<open>
  C29: \<open>Edit\<close> checks the length of the EUI-64 but not of the credential: a body of more than 32
  characters runs past \<open>mJoinerPSKdAscii\<close>, whatever the list holds.
\<close>

theorem joiner_edit_overflow:
  assumes "jl_inv api sha jl" and "length eui = 16" and "32 < length body"
  shows "jl_Edit api sha body eui jl = Fault Overflow"
proof -
  let ?i = "index_of (\<lambda>v. mJoinerEui64Ascii v = eui) (jl_vector jl)"
  have f: "find_eui api eui (jl_array jl) = Ok ?i"
    using assms(1) find_eui_index [of api "jl_array jl" "jl_vector jl" eui] by (simp add: jl_inv_def)
  have "\<exists>jl1. (case ?i of None \<Rightarrow> Ok jl | Some i \<Rightarrow> erase_at i jl) = Ok jl1"
    using erase_at_ok(1) [OF assms(1)] by (auto split: option.splits)
  moreover have "fill_instance (Some body) (Some eui) = Fault Overflow"
    using assms(3) by (simp add: fill_instance_def strcpy_to_def kPSKdLength_def)
  ultimately show ?thesis using f assms(2) by (auto simp: jl_Edit_def kEui64Len_def)
qed

theorem joiner_edit_overflow_witness:
  "jl_Edit (jdoc_api None) (\<lambda>_. replicate 32 0) (replicate 33 CHR ''A'') (replicate 16 CHR ''0'')
     \<lparr>jl_array = [], jl_vector = [], jl_steering = blank_steering, jl_updated = False\<rparr> = Fault Overflow"
  by (rule joiner_edit_overflow) (simp_all add: jl_inv_def list_filter_def)

text \<open>
  C33: \<open>Write\<close> of an array whose first element is well formed and whose second lacks a key
  answers a client error, but has already emptied the list and keeps the released first element:
  the \<open>Read\<close>, \<open>Write\<close> and \<open>Clear\<close> that follow use freed memory.
\<close>

theorem joiner_write_use_after_free:
  assumes "sha_ok sha" and "jl_inv api sha jl" and "json_loads api text = Some parsed"
    and "json_is_array api parsed" and "json_array_values api parsed = good # bad # rest"
    and "joiner_fields api good \<noteq> None" and "JsonUnpack api bad [''psk'', ''eui64''] = None"
  shows "\<exists>jl'. jl_Write api sha text jl = Ok (client_error, jl') \<and> jl_updated jl' = jl_updated jl
    \<and> jl_Read api jl' = Fault UseAfterFree \<and> jl_Clear jl' = Fault UseAfterFree
    \<and> (\<forall>text'. jl_Write api sha text' jl' = Fault UseAfterFree)"
proof -
  let ?jl0 = "jl\<lparr>jl_steering := sd_Clear (jl_steering jl), jl_vector := [], jl_array := []\<rparr>"
  obtain e p where "joiner_fields api good = Some (e, p)" using assms(6) by auto
  then obtain psk eui v where u: "JsonUnpack api good [''psk'', ''eui64''] = Some [psk, eui]"
    "fill_instance (json_string_value api psk) (json_string_value api eui) = Ok v"
    using joiner_fields_unpack [of api good e p] by blast
  obtain s where s: "ComputeSteeringData sha False (mJoinerEui64Bin v) (jl_steering ?jl0) = Ok s"
    using compute_steering_data_total [OF assms(1) jl_reset_inv(2) [OF assms(1,2)]] by blast
  with u assms(3-5,7) jl_reset_inv(1) [OF assms(1,2)] show ?thesis
    by (auto simp: jl_Write_def jl_Read_def jl_Clear_def simp del: JsonUnpack.simps)
qed

theorem joiner_write_use_after_free_witness:
  "\<exists>jl'. jl_Write (jdoc_api (Some (JArr [JObj [(''eui64'', JStr ''18b4300000000001''), (''psk'', JStr ''J01NU5'')],
         JObj []]))) (\<lambda>_. replicate 32 0) []
       \<lparr>jl_array = [], jl_vector = [], jl_steering = blank_steering, jl_updated = False\<rparr> = Ok (client_error, jl')
     \<and> jl_Clear jl' = Fault UseAfterFree"
proof -
  let ?good = "JObj [(''eui64'', JStr ''18b4300000000001''), (''psk'', JStr ''J01NU5'')]"
  let ?jl = "\<lparr>jl_array = [], jl_vector = [], jl_steering = blank_steering, jl_updated = False\<rparr>"
  have "sha_ok (\<lambda>_. replicate 32 0)" "jl_inv (jdoc_api (Some (JArr [?good, JObj []]))) (\<lambda>_. replicate 32 0) ?jl"
    by (simp_all add: sha_ok_def jl_inv_def list_filter_def)
  from joiner_write_use_after_free [OF this, of "[]" "JArr [?good, JObj []]" ?good "JObj []" "[]"]
  show ?thesis by (auto simp: jdoc_api_def joiner_fields_def string_field_def kEui64Len_def kPSKdLength_def)
qed

end
