(* ===== verification/Logging.thy ===== *)
theory Logging
  imports Prelude
begin

text \<open>
  \<open>common/logging.cpp\<close>: the log levels, the filter, the timestamped log file and the hex dump.
  The file and the syslog are what has been written to them.  \<open>vsnprintf\<close> is applied by the
  caller: an operation takes the formatted text, which the log file receives truncated to the
  1023 characters of \<open>buf\<close>.  The clock is an argument, constant during one call.
\<close>

section \<open>Levels and errors\<close>

definition OTBR_LOG_EMERG :: int where "OTBR_LOG_EMERG = 0"
definition OTBR_LOG_ALERT :: int where "OTBR_LOG_ALERT = 1"
definition OTBR_LOG_CRIT :: int where "OTBR_LOG_CRIT = 2"
definition OTBR_LOG_ERR :: int where "OTBR_LOG_ERR = 3"
definition OTBR_LOG_WARNING :: int where "OTBR_LOG_WARNING = 4"
definition OTBR_LOG_NOTICE :: int where "OTBR_LOG_NOTICE = 5"
definition OTBR_LOG_INFO :: int where "OTBR_LOG_INFO = 6"
definition OTBR_LOG_DEBUG :: int where "OTBR_LOG_DEBUG = 7"

lemmas log_levels = OTBR_LOG_EMERG_def OTBR_LOG_ALERT_def OTBR_LOG_CRIT_def OTBR_LOG_ERR_def
  OTBR_LOG_WARNING_def OTBR_LOG_NOTICE_def OTBR_LOG_INFO_def OTBR_LOG_DEBUG_def

datatype otbr_error = OTBR_ERROR_NONE | OTBR_ERROR_ERRNO | OTBR_ERROR_DTLS | OTBR_ERROR_DBUS | OTBR_ERROR_MDNS

text \<open>\<open>strerror(errno)\<close> is an argument.\<close>

fun otbrErrorString :: "string \<Rightarrow> otbr_error \<Rightarrow> string" where
  "otbrErrorString errno_text OTBR_ERROR_NONE = ''OK''"
| "otbrErrorString errno_text OTBR_ERROR_ERRNO = errno_text"
| "otbrErrorString errno_text OTBR_ERROR_DTLS = ''DTLS error''"
| "otbrErrorString errno_text OTBR_ERROR_DBUS = ''DBUS error''"
| "otbrErrorString errno_text OTBR_ERROR_MDNS = ''MDNS error''"

text \<open>\<open>common/time.hpp\<close>: milliseconds of a \<open>timeval\<close>.\<close>

definition GetTimestamp :: "nat \<times> nat \<Rightarrow> u64" where
  "GetTimestamp tv = word_of_nat (fst tv * 1000 + snd tv div 1000)"

section \<open>The state of the log\<close>

record logger =
  sLevel :: int
  sMsecsStart :: u64
  sLogCol0 :: bool
  sLogFp :: "string option"
  sSyslogEnabled :: bool
  sSyslogOpened :: bool
  sent_to_syslog :: "(int \<times> string) list"

definition initial_logger :: logger where
  "initial_logger = \<lparr>sLevel = OTBR_LOG_INFO, sMsecsStart = 0, sLogCol0 = True, sLogFp = None,
     sSyslogEnabled = True, sSyslogOpened = False, sent_to_syslog = []\<rparr>"

definition otbrLogEnableSyslog :: "bool \<Rightarrow> logger \<Rightarrow> logger" where
  "otbrLogEnableSyslog b lg = lg\<lparr>sSyslogEnabled := b\<rparr>"

text \<open>\<open>fopen\<close> for writing empties the file, or fails and the program exits.\<close>

definition otbrLogSetFilename :: "bool \<Rightarrow> logger \<Rightarrow> logger res" where
  "otbrLogSetFilename fopen_ok lg = (if fopen_ok then Ok (lg\<lparr>sLogFp := Some []\<rparr>) else Fault Aborted)"

definition otbrLogGetLevel :: "logger \<Rightarrow> int" where
  "otbrLogGetLevel lg = sLevel lg"

definition level_ok :: "int \<Rightarrow> bool" where
  "level_ok aLevel \<longleftrightarrow> aLevel \<ge> OTBR_LOG_EMERG \<and> aLevel \<le> OTBR_LOG_DEBUG"

definition otbrLogSetLevel :: "int \<Rightarrow> logger \<Rightarrow> logger res" where
  "otbrLogSetLevel aLevel lg = rbind (guard (level_ok aLevel) AssertFail) (\<lambda>_. Ok (lg\<lparr>sLevel := aLevel\<rparr>))"

definition otbrLogInit :: "u64 \<Rightarrow> int \<Rightarrow> logger \<Rightarrow> logger res" where
  "otbrLogInit now aLevel lg =
     rbind (guard (level_ok aLevel) AssertFail) (\<lambda>_.
       Ok (lg\<lparr>sMsecsStart := now, sSyslogOpened := True, sLevel := aLevel\<rparr>))"

definition otbrLogDeinit :: "logger \<Rightarrow> logger" where
  "otbrLogDeinit lg = lg\<lparr>sSyslogOpened := False\<rparr>"

section \<open>Writing\<close>

text \<open>The two flags of \<open>LogCheck\<close>: to syslog, to the file.\<close>

definition LogCheck :: "int \<Rightarrow> logger \<Rightarrow> (bool \<times> bool) res" where
  "LogCheck aLevel lg =
     rbind (guard (level_ok aLevel) AssertFail) (\<lambda>_.
       Ok (sSyslogOpened lg \<and> sSyslogEnabled lg \<and> aLevel \<le> sLevel lg, sLogFp lg \<noteq> None))"

definition GetMsecsNow :: "u64 \<Rightarrow> logger \<Rightarrow> u64" where
  "GetMsecsNow now lg = now - sMsecsStart lg"

text \<open>\<open>%4lu.%03lu | \<close>\<close>

definition log_stamp :: "u64 \<Rightarrow> string" where
  "log_stamp n =
     pad_left CHR '' '' 4 (dec_string (unat n div 1000)) @ ''.''
       @ pad_left CHR ''0'' 3 (dec_string (unat n mod 1000)) @ '' | ''"

definition log_fputs :: "string \<Rightarrow> logger \<Rightarrow> logger res" where
  "log_fputs cs lg =
     (case sLogFp lg of None \<Rightarrow> Fault NullDeref | Some text \<Rightarrow> Ok (lg\<lparr>sLogFp := Some (text @ cs)\<rparr>))"

fun LogString :: "u64 \<Rightarrow> string \<Rightarrow> logger \<Rightarrow> logger res" where
  "LogString now [] lg = Ok lg"
| "LogString now (ch # cp) lg =
     rbind (if sLogCol0 lg
            then log_fputs (log_stamp (GetMsecsNow now lg)) (lg\<lparr>sLogCol0 := False\<rparr>)
            else Ok lg) (\<lambda>lg1.
     rbind (log_fputs [ch] (if ch = CHR 0x0A then lg1\<lparr>sLogCol0 := True\<rparr> else lg1)) (\<lambda>lg2.
     LogString now cp lg2))"

definition kLogBufSize :: nat where "kLogBufSize = 1024"

definition LogVprintf :: "u64 \<Rightarrow> string \<Rightarrow> logger \<Rightarrow> logger res" where
  "LogVprintf now text lg =
     (if sLogFp lg = None then Ok lg else LogString now (take (kLogBufSize - 1) text) lg)"

definition log_syslog :: "int \<Rightarrow> string \<Rightarrow> logger \<Rightarrow> logger" where
  "log_syslog aLevel text lg = lg\<lparr>sent_to_syslog := sent_to_syslog lg @ [(aLevel, text)]\<rparr>"

definition otbrLog :: "u64 \<Rightarrow> int \<Rightarrow> string \<Rightarrow> logger \<Rightarrow> logger res" where
  "otbrLog now aLevel text lg =
     rbind (LogCheck aLevel lg) (\<lambda>(to_syslog, to_file).
     rbind (if to_file then rbind (LogVprintf now text lg) (LogString now [CHR 0x0A]) else Ok lg) (\<lambda>lg1.
     Ok (if to_syslog then log_syslog aLevel text lg1 else lg1)))"

section \<open>The hex dump\<close>

definition kHexChars :: string where "kHexChars = ''0123456789abcdef''"

definition dump_byte :: "byte \<Rightarrow> string" where
  "dump_byte b = [kHexChars ! unat (drop_bit 4 b), kHexChars ! unat (b AND 0x0f), CHR '' '']"

text \<open>One line: the digits of its bytes, the last blank replaced by the terminator.\<close>

definition dump_hex :: "byte list \<Rightarrow> string" where
  "dump_hex bs = butlast (concat (map dump_byte bs))"

definition dump_line :: "string \<Rightarrow> nat \<Rightarrow> byte list \<Rightarrow> string" where
  "dump_line aPrefix addr bs =
     aPrefix @ '': '' @ pad_left CHR ''0'' 4 (hex_string addr) @ '': '' @ dump_hex bs"

function dump_loop ::
  "u64 \<Rightarrow> int \<Rightarrow> bool \<times> bool \<Rightarrow> string \<Rightarrow> nat \<Rightarrow> byte list \<Rightarrow> logger \<Rightarrow> logger res" where
  "dump_loop now aLevel r aPrefix addr memory lg =
     (if memory = [] then Ok lg
      else let line = dump_line aPrefix addr (take 16 memory);
               lg1 = (if fst r then log_syslog aLevel line lg else lg)
           in rbind (if snd r then LogVprintf now (line @ [CHR 0x0A]) lg1 else Ok lg1)
                (dump_loop now aLevel r aPrefix (addr + 16) (drop 16 memory)))"
  by pat_completeness auto
termination
  by (relation "measure (\<lambda>(now, l, r, p, a, memory, lg). length memory)") auto

declare dump_loop.simps [simp del]

definition otbrDump :: "u64 \<Rightarrow> int \<Rightarrow> string \<Rightarrow> byte list \<Rightarrow> logger \<Rightarrow> logger res" where
  "otbrDump now aLevel aPrefix aMemory lg =
     rbind (LogCheck aLevel lg) (\<lambda>r.
       if r = (False, False) then Ok lg else dump_loop now aLevel r aPrefix 0 aMemory lg)"

section \<open>The file, line by line\<close>

fun split_lines :: "string \<Rightarrow> string list" where
  "split_lines [] = [[]]"
| "split_lines (c # cs) =
     (if c = CHR 0x0A then [] # split_lines cs
      else (case split_lines cs of l # ls \<Rightarrow> (c # l) # ls | [] \<Rightarrow> [[c]]))"

definition stamped :: "string \<Rightarrow> string list \<Rightarrow> string" where
  "stamped st ls = concat (map (\<lambda>l. st @ l @ [CHR 0x0A]) ls)"

lemma split_lines_nonempty [simp]: "split_lines cs \<noteq> []"
  by (cases cs) (auto split: list.splits)

lemma split_lines_Cons: "c \<noteq> CHR 0x0A \<Longrightarrow>
  split_lines (c # cs) = (c # hd (split_lines cs)) # tl (split_lines cs)"
  by (simp split: list.splits)

lemma stamped_Cons: "stamped st (l # ls) = st @ l @ CHR 0x0A # stamped st ls"
  by (simp add: stamped_def)

lemma LogString_append: "LogString now (a @ b) lg = rbind (LogString now a lg) (LogString now b)"
proof -
  have "LogString now (a @ b) = (\<lambda>lg. rbind (LogString now a lg) (LogString now b))"
    by (induction a) (simp, rule ext, simp add: rbind_assoc)
  then show ?thesis by simp
qed

lemma LogString_lines:
  assumes "sLogFp lg = Some f"
  shows "LogString now (cs @ [CHR 0x0A]) lg = Ok (lg\<lparr>sLogCol0 := True, sLogFp := Some (f @
     (let st = log_stamp (GetMsecsNow now lg); ls = split_lines cs in
      if sLogCol0 lg then stamped st ls else hd ls @ CHR 0x0A # stamped st (tl ls)))\<rparr>)"
  using assms
proof (induction cs arbitrary: lg f)
  case Nil
  then show ?case by (simp add: log_fputs_def GetMsecsNow_def stamped_def Let_def)
next
  case (Cons c cs)
  let ?f = "f @ (if sLogCol0 lg then log_stamp (GetMsecsNow now lg) else []) @ [c]"
  let ?lg = "lg\<lparr>sLogCol0 := (c = CHR 0x0A), sLogFp := Some ?f\<rparr>"
  have "LogString now ((c # cs) @ [CHR 0x0A]) lg = LogString now (cs @ [CHR 0x0A]) ?lg"
    using Cons.prems by (cases lg) (auto simp: log_fputs_def GetMsecsNow_def)
  moreover obtain l ls where "split_lines cs = l # ls" by (cases "split_lines cs") auto
  ultimately show ?case
    using Cons.IH [of ?lg ?f] by (simp add: GetMsecsNow_def stamped_Cons Let_def)
qed

lemma LogVprintf_newline:
  assumes "sLogFp lg = Some f" and "sLogCol0 lg"
  shows "rbind (LogVprintf now text lg) (LogString now [CHR 0x0A]) = Ok (lg\<lparr>sLogFp :=
     Some (f @ stamped (log_stamp (GetMsecsNow now lg)) (split_lines (take (kLogBufSize - 1) text)))\<rparr>)"
proof -
  have "lg\<lparr>sLogCol0 := True, sLogFp := x\<rparr> = lg\<lparr>sLogFp := x\<rparr>" for x
    using assms(2) by (cases lg) simp
  then show ?thesis
    using LogString_lines [OF assms(1), of now "take (kLogBufSize - 1) text"] assms
    by (simp add: LogVprintf_def LogString_append [symmetric] Let_def del: LogString.simps)
qed

text \<open>The chunks of a dump.\<close>

definition dump_chunks :: "byte list \<Rightarrow> (nat \<times> byte list) list" where
  "dump_chunks bs = map (\<lambda>i. (16 * i, take 16 (drop (16 * i) bs))) [0..<(length bs + 15) div 16]"

lemma dump_chunks_step:
  assumes "bs \<noteq> []"
  shows "dump_chunks bs = (0, take 16 bs) # map (\<lambda>(a, c). (a + 16, c)) (dump_chunks (drop 16 bs))"
proof -
  have n: "(length bs + 15) div 16 = Suc ((length (drop 16 bs) + 15) div 16)"
    using assms by (cases "length bs \<le> 16") (auto simp: Suc_le_eq div_eq_dividend_iff le_div_geq)
  show ?thesis
    unfolding dump_chunks_def n upt_conv_Cons [OF zero_less_Suc] map_Suc_upt [symmetric]
    by (simp add: add.commute)
qed

lemma concat_dump_chunks: "concat (map snd (dump_chunks bs)) = bs"
proof (induction "length bs" arbitrary: bs rule: less_induct)
  case less
  show ?case
  proof (cases "bs = []")
    case True
    then show ?thesis by (simp add: dump_chunks_def)
  next
    case False
    then have "concat (map snd (dump_chunks bs)) = take 16 bs @ concat (map snd (dump_chunks (drop 16 bs)))"
      by (simp add: dump_chunks_step comp_def case_prod_beta)
    with less [of "drop 16 bs"] False show ?thesis by simp
  qed
qed

lemma dump_loop_syslog:
  "dump_loop now aLevel (True, False) aPrefix addr bs lg = Ok (lg\<lparr>sent_to_syslog := sent_to_syslog lg
     @ map (\<lambda>(a, c). (aLevel, dump_line aPrefix (addr + a) c)) (dump_chunks bs)\<rparr>)"
proof (induction "length bs" arbitrary: addr bs lg rule: less_induct)
  case less
  show ?case
  proof (cases "bs = []")
    case True
    then show ?thesis by (subst dump_loop.simps) (simp add: dump_chunks_def)
  next
    case False
    have "length (drop 16 bs) < length bs" using False by (cases bs) auto
    from less [OF this] show ?thesis
      using False by (subst dump_loop.simps)
        (simp add: dump_chunks_step log_syslog_def case_prod_unfold comp_def ac_simps)
  qed
qed

section \<open>Properties\<close>

text \<open>
  C33: a message logged at column 0 leaves the file at column 0, extended by exactly the lines of
  the (truncated) message, each with one time stamp and one newline, whatever its level; it
  goes to the syslog exactly when that is open, enabled and the level is not above \<open>sLevel\<close>.
\<close>

theorem otbrLog_lines:
  assumes "level_ok aLevel" and "sLogFp lg = Some f" and "sLogCol0 lg"
  shows "otbrLog now aLevel text lg = Ok (lg\<lparr>
      sLogFp := Some (f @ stamped (log_stamp (GetMsecsNow now lg)) (split_lines (take 1023 text))),
      sent_to_syslog := sent_to_syslog lg @
        (if sSyslogOpened lg \<and> sSyslogEnabled lg \<and> aLevel \<le> sLevel lg then [(aLevel, text)] else [])\<rparr>)"
  using assms LogVprintf_newline [OF assms(2,3), of now "text"]
  by (simp add: otbrLog_def LogCheck_def log_syslog_def kLogBufSize_def del: LogString.simps)

theorem otbrLog_lines_witness:
  "otbrLog 1234 OTBR_LOG_DEBUG ''ab'' (initial_logger\<lparr>sLogFp := Some []\<rparr>)
    = Ok (initial_logger\<lparr>sLogFp := Some (''   1.234 | ab'' @ [CHR 0x0A])\<rparr>)"
proof -
  have "log_stamp 1234 = ''   1.234 | ''"
    by (simp add: log_stamp_def dec_string_def base_string.simps pad_left_def numeral_3_eq_3)
  then show ?thesis
    using otbrLog_lines [of OTBR_LOG_DEBUG "initial_logger\<lparr>sLogFp := Some []\<rparr>" "[]" 1234 "''ab''"]
    by (simp add: level_ok_def log_levels initial_logger_def GetMsecsNow_def stamped_def)
qed

text \<open>
  A hex dump to the syslog prints one line per 16 bytes, with the addresses 0, 16, 32, ...,
  and the lines together show every byte of the memory once and in order.
\<close>

theorem otbrDump_chunks:
  assumes "level_ok aLevel" and "aLevel \<le> sLevel lg" and "sSyslogOpened lg" and "sSyslogEnabled lg"
    and "sLogFp lg = None"
  shows "\<exists>chunks. concat (map snd chunks) = aMemory
    \<and> map fst chunks = map ((*) 16) [0..<(length aMemory + 15) div 16]
    \<and> otbrDump now aLevel aPrefix aMemory lg = Ok (lg\<lparr>sent_to_syslog := sent_to_syslog lg
        @ map (\<lambda>(addr, bs). (aLevel, dump_line aPrefix addr bs)) chunks\<rparr>)"
proof (intro exI conjI)
  show "concat (map snd (dump_chunks aMemory)) = aMemory" by (rule concat_dump_chunks)
  show "map fst (dump_chunks aMemory) = map ((*) 16) [0..<(length aMemory + 15) div 16]"
    by (simp add: dump_chunks_def)
  show "otbrDump now aLevel aPrefix aMemory lg = Ok (lg\<lparr>sent_to_syslog := sent_to_syslog lg
      @ map (\<lambda>(addr, bs). (aLevel, dump_line aPrefix addr bs)) (dump_chunks aMemory)\<rparr>)"
    using assms by (simp add: otbrDump_def LogCheck_def dump_loop_syslog)
qed

theorem otbrDump_chunks_witness:
  "\<exists>chunks. concat (map snd chunks) = replicate 20 0xab \<and> map fst chunks = [0, 16]
    \<and> otbrDump 0 OTBR_LOG_INFO ''key'' (replicate 20 0xab) (initial_logger\<lparr>sSyslogOpened := True\<rparr>)
      = Ok (initial_logger\<lparr>sSyslogOpened := True,
          sent_to_syslog := map (\<lambda>(addr, bs). (OTBR_LOG_INFO, dump_line ''key'' addr bs)) chunks\<rparr>)"
  using otbrDump_chunks [of OTBR_LOG_INFO "initial_logger\<lparr>sSyslogOpened := True\<rparr>" "replicate 20 0xab" 0 "''key''"]
  by (simp add: level_ok_def log_levels initial_logger_def upt_rec)

end
