(* ===== verification/Coap.thy ===== *)
theory Coap
  imports Logging
begin

text \<open>
  \<open>agent/coap.hpp\<close> and \<open>agent/coap_libcoap.cpp\<close>: messages, resources and the agent that sends
  requests and dispatches what comes in.

  libcoap is not part of the repository: the size of an encoded message, the capacity of a
  packet and the outcome of a transmission are arguments.  A message is its fields; an agent
  keeps the resources it has registered, by the address of the \<open>Resource\<close> object, and the
  confirmable requests libcoap still holds, each with the \<open>MessageMeta\<close> embedded in its packet.
\<close>

section \<open>Messages\<close>

datatype coap_type = kTypeConfirmable | kTypeNonConfirmable | kTypeAcknowledgment | kTypeReset

datatype coap_code =
  kCodeEmpty | kCodeGet | kCodePost | kCodePut | kCodeDelete | kCodeCodeMin | kCodeCreated |
  kCodeDeleted | kCodeValid | kCodeChanged | kCodeContent

fun code_value :: "coap_code \<Rightarrow> byte" where
  "code_value kCodeEmpty = 0x00"
| "code_value kCodeGet = 0x01"
| "code_value kCodePost = 0x02"
| "code_value kCodePut = 0x03"
| "code_value kCodeDelete = 0x04"
| "code_value kCodeCodeMin = 0x40"
| "code_value kCodeCreated = 0x41"
| "code_value kCodeDeleted = 0x42"
| "code_value kCodeValid = 0x43"
| "code_value kCodeChanged = 0x44"
| "code_value kCodeContent = 0x45"

record coap_message =
  cm_type :: coap_type
  cm_code :: coap_code
  cm_id :: u16
  cm_token :: "byte list"
  cm_path :: string
  cm_payload :: "byte list"

definition msg_SetCode :: "coap_code \<Rightarrow> coap_message \<Rightarrow> coap_message" where
  "msg_SetCode aCode m = m\<lparr>cm_code := aCode\<rparr>"

definition msg_SetType :: "coap_type \<Rightarrow> coap_message \<Rightarrow> coap_message" where
  "msg_SetType aType m = m\<lparr>cm_type := aType\<rparr>"

definition msg_SetToken :: "byte list \<Rightarrow> coap_message \<Rightarrow> coap_message" where
  "msg_SetToken aToken m = m\<lparr>cm_token := aToken\<rparr>"

definition msg_SetPath :: "string \<Rightarrow> coap_message \<Rightarrow> coap_message" where
  "msg_SetPath aPath m = m\<lparr>cm_path := aPath\<rparr>"

definition msg_SetPayload :: "byte list \<Rightarrow> coap_message \<Rightarrow> coap_message" where
  "msg_SetPayload aPayload m = m\<lparr>cm_payload := aPayload\<rparr>"

definition msg_GetCode :: "coap_message \<Rightarrow> coap_code" where
  "msg_GetCode m = cm_code m"

definition msg_GetType :: "coap_message \<Rightarrow> coap_type" where
  "msg_GetType m = cm_type m"

definition msg_GetToken :: "coap_message \<Rightarrow> byte list" where
  "msg_GetToken m = cm_token m"

text \<open>The length goes through a \<open>uint16_t\<close>.\<close>

definition msg_GetPayload :: "coap_message \<Rightarrow> byte list" where
  "msg_GetPayload m = take (length (cm_payload m) mod 2 ^ 16) (cm_payload m)"

definition NewMessage :: "u16 \<Rightarrow> coap_type \<Rightarrow> coap_code \<Rightarrow> byte list \<Rightarrow> coap_message" where
  "NewMessage messageId aType aCode aToken =
     msg_SetToken aToken (msg_SetCode aCode (msg_SetType aType
       \<lparr>cm_type = kTypeConfirmable, cm_code = kCodeEmpty, cm_id = messageId, cm_token = [],
        cm_path = [], cm_payload = []\<rparr>))"

section \<open>Paths (\<open>agent/uris.hpp\<close>)\<close>

definition OT_URI_PATH_RELAY_RX :: string where "OT_URI_PATH_RELAY_RX = ''c/rx''"
definition OT_URI_PATH_RELAY_TX :: string where "OT_URI_PATH_RELAY_TX = ''c/tx''"
definition OT_URI_PATH_JOINER_FINALIZE :: string where "OT_URI_PATH_JOINER_FINALIZE = ''c/jf''"
definition OT_URI_PATH_COMMISSIONER_PETITION :: string where "OT_URI_PATH_COMMISSIONER_PETITION = ''c/cp''"
definition OT_URI_PATH_COMMISSIONER_KEEP_ALIVE :: string where "OT_URI_PATH_COMMISSIONER_KEEP_ALIVE = ''c/ca''"
definition OT_URI_PATH_COMMISSIONER_SET :: string where "OT_URI_PATH_COMMISSIONER_SET = ''c/cs''"

lemmas uri_paths = OT_URI_PATH_RELAY_RX_def OT_URI_PATH_RELAY_TX_def OT_URI_PATH_JOINER_FINALIZE_def
  OT_URI_PATH_COMMISSIONER_PETITION_def OT_URI_PATH_COMMISSIONER_KEEP_ALIVE_def OT_URI_PATH_COMMISSIONER_SET_def

section \<open>The agent\<close>

record ('h, 'c) coap_resource =
  mContext :: 'c
  mPath :: string
  mHandler :: 'h

record ('h, 'c, 'r) coap_agent =
  mResources :: "(nat \<times> ('h, 'c) coap_resource) list"
  mSent :: "(coap_message \<times> 'r option) list"

definition new_AgentLibcoap :: "('h, 'c, 'r) coap_agent" where
  "new_AgentLibcoap = \<lparr>mResources = [], mSent = []\<rparr>"

definition AddResource ::
  "nat \<Rightarrow> ('h, 'c) coap_resource \<Rightarrow> ('h, 'c, 'r) coap_agent \<Rightarrow> otbr_error \<times> ('h, 'c, 'r) coap_agent" where
  "AddResource addr aResource ag =
     (if addr \<in> fst ` set (mResources ag) then (OTBR_ERROR_ERRNO, ag)
      else (OTBR_ERROR_NONE, ag\<lparr>mResources := mResources ag @ [(addr, aResource)]\<rparr>))"

definition RemoveResource ::
  "nat \<Rightarrow> ('h, 'c, 'r) coap_agent \<Rightarrow> otbr_error \<times> ('h, 'c, 'r) coap_agent" where
  "RemoveResource addr ag =
     (if addr \<in> fst ` set (mResources ag)
      then (OTBR_ERROR_NONE, ag\<lparr>mResources := remove_first (\<lambda>r. fst r = addr) (mResources ag)\<rparr>)
      else (OTBR_ERROR_ERRNO, ag))"

text \<open>
  \<open>Send\<close>: a confirmable message needs room for its \<open>MessageMeta\<close> (two pointers) behind the
  encoded message; \<open>tid_ok\<close> tells whether libcoap returned a valid transaction.  The pointer
  \<open>pdu->hdr + pdu->length\<close> counts in headers, of 4 bytes each, in a buffer of \<open>max_size\<close> bytes.
\<close>

definition kMetaSize :: nat where "kMetaSize = 16"
definition kSizeofHdr :: nat where "kSizeofHdr = 4"

definition coap_Send ::
  "(coap_message \<Rightarrow> nat) \<Rightarrow> nat \<Rightarrow> bool \<Rightarrow> coap_message \<Rightarrow> 'r option \<Rightarrow> ('h, 'c, 'r) coap_agent
     \<Rightarrow> (otbr_error \<times> ('h, 'c, 'r) coap_agent) res" where
  "coap_Send pdu_length max_size tid_ok aMessage aHandler ag =
     (if cm_type aMessage = kTypeConfirmable
      then (if pdu_length aMessage + kMetaSize < max_size
            then rbind (guard (kSizeofHdr * pdu_length aMessage + kMetaSize \<le> max_size) Overflow) (\<lambda>_.
              Ok (OTBR_ERROR_NONE,
                  if tid_ok then ag\<lparr>mSent := mSent ag @ [(aMessage, aHandler)]\<rparr> else ag))
            else Ok (OTBR_ERROR_ERRNO, ag))
      else Ok (OTBR_ERROR_NONE, ag))"

text \<open>
  \<open>Input\<close> copies what was received into the array of the packet and hands it to libcoap;
  \<open>NetworkSend\<close> is how libcoap sends.
\<close>

definition MAX_COAP_PACKET :: nat where "MAX_COAP_PACKET = 1280"

definition coap_Input :: "(byte list \<Rightarrow> 'w \<Rightarrow> 'w res) \<Rightarrow> byte list \<Rightarrow> 'w \<Rightarrow> 'w res" where
  "coap_Input coap_handle_message aBuffer w =
     rbind (guard (length aBuffer \<le> MAX_COAP_PACKET) Overflow) (\<lambda>_. coap_handle_message aBuffer w)"

definition NetworkSend :: "(byte list \<Rightarrow> 'w \<Rightarrow> (int \<times> 'w) res) \<Rightarrow> byte list \<Rightarrow> 'w \<Rightarrow> (int \<times> 'w) res" where
  "NetworkSend mNetworkSender aBuffer w = mNetworkSender (take (length aBuffer mod 2 ^ 16) aBuffer) w"

text \<open>
  \<open>HandleResponse\<close>: libcoap hands over the request it found for the response, if any, and
  drops it; the result is the handler to call.
\<close>

definition HandleResponse ::
  "u16 \<Rightarrow> ('h, 'c, 'r) coap_agent \<Rightarrow> 'r option \<times> ('h, 'c, 'r) coap_agent" where
  "HandleResponse rid ag =
     (case find (\<lambda>s. cm_id (fst s) = rid) (mSent ag) of
        None \<Rightarrow> (None, ag)
      | Some sent \<Rightarrow> (snd sent, ag\<lparr>mSent := remove_first (\<lambda>s. cm_id (fst s) = rid) (mSent ag)\<rparr>))"

text \<open>
  \<open>HandleRequest\<close>: libcoap finds the resource by its path; the handler gets a response whose
  code says that nothing has been answered yet.
\<close>

definition HandleRequest ::
  "('h \<Rightarrow> 'c \<Rightarrow> coap_message \<Rightarrow> coap_message \<Rightarrow> 'w \<Rightarrow> (coap_message \<times> 'w) res)
     \<Rightarrow> coap_message \<Rightarrow> coap_message \<Rightarrow> ('h, 'c, 'r) coap_agent \<Rightarrow> 'w \<Rightarrow> (coap_message \<times> 'w) res" where
  "HandleRequest call aRequest aResponse ag w =
     (case find (\<lambda>r. mPath (snd r) = cm_path aRequest) (mResources ag) of
        None \<Rightarrow> Ok (aResponse, w)
      | Some r \<Rightarrow> call (mHandler (snd r)) (mContext (snd r)) aRequest (msg_SetCode kCodeEmpty aResponse) w)"

section \<open>Properties\<close>

definition agent_inv :: "('h, 'c, 'r) coap_agent \<Rightarrow> bool" where
  "agent_inv ag \<longleftrightarrow> distinct (map fst (mResources ag)) \<and> distinct (map (cm_id \<circ> fst) (mSent ag))"

lemma AddResource_inv [inv_intros]: "agent_inv ag \<Longrightarrow> agent_inv (snd (AddResource addr r ag))"
  by (auto simp: agent_inv_def AddResource_def)

lemma RemoveResource_inv [inv_intros]: "agent_inv ag \<Longrightarrow> agent_inv (snd (RemoveResource addr ag))"
  by (auto simp: agent_inv_def RemoveResource_def distinct_map_remove_first)

lemma HandleResponse_inv [inv_intros]: "agent_inv ag \<Longrightarrow> agent_inv (snd (HandleResponse rid ag))"
  by (auto simp: agent_inv_def HandleResponse_def distinct_map_remove_first comp_def split: option.splits
      intro: distinct_map_remove_first [where f = "\<lambda>x. cm_id (fst x)"])

text \<open>
  A resource added to an agent that serves no resource of that path or address gets the
  requests for its path; adding its address again is refused without a change; and removing
  it restores the agent.
\<close>

theorem coap_resource_lifecycle:
  assumes "addr \<notin> fst ` set (mResources ag)" and "mPath r \<notin> (mPath \<circ> snd) ` set (mResources ag)"
  shows "\<exists>ag1. AddResource addr r ag = (OTBR_ERROR_NONE, ag1)
    \<and> (\<forall>call req resp w. cm_path req = mPath r \<longrightarrow>
          HandleRequest call req resp ag1 w
            = call (mHandler r) (mContext r) req (msg_SetCode kCodeEmpty resp) w)
    \<and> (\<forall>r'. AddResource addr r' ag1 = (OTBR_ERROR_ERRNO, ag1))
    \<and> RemoveResource addr ag1 = (OTBR_ERROR_NONE, ag)"
proof -
  let ?ag1 = "ag\<lparr>mResources := mResources ag @ [(addr, r)]\<rparr>"
  have "find (\<lambda>x. mPath (snd x) = mPath r) (mResources ag @ [(addr, r)]) = Some (addr, r)"
    using assms(2) by (intro find_snoc_fresh) force+
  moreover have "remove_first (\<lambda>x. fst x = addr) (mResources ag @ [(addr, r)]) = mResources ag"
    using assms(1) by (intro remove_first_snoc) force+
  ultimately show ?thesis
    using assms(1) by (intro exI [of _ ?ag1]) (auto simp: AddResource_def HandleRequest_def RemoveResource_def)
qed

theorem coap_resource_lifecycle_witness:
  "\<exists>ag1. AddResource 7 \<lparr>mContext = (), mPath = ''c/rx'', mHandler = True\<rparr>
      (new_AgentLibcoap :: (bool, unit, bool) coap_agent) = (OTBR_ERROR_NONE, ag1)
    \<and> RemoveResource 7 ag1 = (OTBR_ERROR_NONE, new_AgentLibcoap)"
  using coap_resource_lifecycle [of 7 "new_AgentLibcoap :: (bool, unit, bool) coap_agent"
      "\<lparr>mContext = (), mPath = ''c/rx'', mHandler = True\<rparr>"]
  by (auto simp: new_AgentLibcoap_def)



end
