(* ===== verification/Dtls.thy ===== *)
theory Dtls
  imports Logging
begin

text \<open>
  \<open>agent/dtls_mbedtls.cpp\<close>: the DTLS server that joiners connect to, and its sessions.

  mbedTLS is not part of the repository.  What a call of it returns is a value of \<open>ssl_ret\<close>, and
  the operations that call it take the answers as arguments: a list where the code repeats
  the call, consumed in order; a loop still running when the list ends is the fault
  \<open>Blocked\<close>.  The answers of one call of the server are collected in a \<open>dtls_env\<close>.

  The server owns its sessions; a pointer to a session is its address, a number never used
  twice, and using the address of a session that has been deleted is a fault.  The state
  handler and the data handler belong to the client (\<open>joiner_session.cpp\<close>) and are arguments,
  \<open>notify\<close> and \<open>feed\<close>, that act on the pair of the server and the client's state.
\<close>

section \<open>Answers of the library\<close>

datatype ssl_ret =
  SslOk | WantRead | WantWrite | HelloVerifyRequired | PeerCloseNotify | ClientReconnect | SslTimeout | SslError

fun is_want :: "ssl_ret \<Rightarrow> bool" where
  "is_want WantRead = True"
| "is_want WantWrite = True"
| "is_want _ = False"

text \<open>\<open>do ret = call(); while (ret == WANT_READ || ret == WANT_WRITE)\<close>\<close>

fun ssl_retry :: "ssl_ret list \<Rightarrow> ssl_ret res" where
  "ssl_retry [] = Fault Blocked"
| "ssl_retry (ret # rets) = (if is_want ret then ssl_retry rets else Ok ret)"

datatype ssl_read = ReadData "byte list" | ReadRet ssl_ret

section \<open>Log levels\<close>

definition FromOtbrLogLevel :: "logger \<Rightarrow> int res" where
  "FromOtbrLogLevel lg =
     (let l = otbrLogGetLevel lg in
      if l = OTBR_LOG_EMERG \<or> l = OTBR_LOG_ALERT \<or> l = OTBR_LOG_CRIT then Ok 0
      else if l = OTBR_LOG_ERR then Ok 1
      else if l = OTBR_LOG_WARNING then Ok 2
      else if l = OTBR_LOG_NOTICE \<or> l = OTBR_LOG_INFO then Ok 3
      else if l = OTBR_LOG_DEBUG then Ok 4
      else Fault AssertFail)"

text \<open>The level computed by the switch decides whether to log; the message goes out at \<open>aLevel\<close>.\<close>

definition debug_level :: "int \<Rightarrow> int res" where
  "debug_level aLevel =
     (if aLevel = 0 then Ok 0
      else if aLevel = 1 then Ok OTBR_LOG_ERR
      else if aLevel = 2 then Ok OTBR_LOG_WARNING
      else if aLevel = 3 then Ok OTBR_LOG_INFO
      else if aLevel = 4 then Ok OTBR_LOG_DEBUG
      else Fault AssertFail)"

definition MbedtlsDebug :: "u64 \<Rightarrow> int \<Rightarrow> string \<Rightarrow> logger \<Rightarrow> logger res" where
  "MbedtlsDebug now aLevel text lg =
     rbind (debug_level aLevel) (\<lambda>level. if level \<noteq> 0 then otbrLog now aLevel text lg else Ok lg)"

section \<open>State\<close>

datatype session_state =
  kStateHandshaking | kStateReady | kStateClose | kStateEnd | kStateError | kStateExpired

definition kSessionTimeout :: u64 where "kSessionTimeout = 60000"
definition kMaxSizeOfPSK :: nat where "kMaxSizeOfPSK = 32"

text \<open>\<open>mKek\<close> is \<open>None\<close> until keys are exported to this session.\<close>

record dtls_session =
  mAddress :: nat
  mFd :: int
  mState :: session_state
  mExpiration :: u64
  mKek :: "byte list option"
  mIntermediate :: u64
  mFinal :: u64
  mIsTimerSet :: bool
  mDataHandler :: bool

text \<open>
  \<open>mExportTo\<close> is the context of the key export callback of \<open>mConf\<close>, which all sessions share;
  \<open>mPSK\<close> holds the \<open>mPSKLength\<close> bytes in use.
\<close>

record dtls_server =
  mSessions :: "dtls_session list"
  mSocket :: int
  mPort :: u16
  mPSK :: "byte list"
  mSeed :: "byte list"
  mExportTo :: "nat option"
  mFresh :: nat

definition new_MbedtlsServer :: "u16 \<Rightarrow> dtls_server" where
  "new_MbedtlsServer aPort = \<lparr>mSessions = [], mSocket = -1, mPort = aPort, mPSK = [], mSeed = [],
     mExportTo = None, mFresh = 0\<rparr>"

definition session_at :: "nat \<Rightarrow> dtls_server \<Rightarrow> dtls_session option" where
  "session_at a srv = find (\<lambda>s. mAddress s = a) (mSessions srv)"

definition live :: "nat \<Rightarrow> dtls_server \<Rightarrow> bool" where
  "live a srv \<longleftrightarrow> a \<in> mAddress ` set (mSessions srv)"

definition on_session :: "nat \<Rightarrow> (dtls_session \<Rightarrow> dtls_session) \<Rightarrow> dtls_server \<Rightarrow> dtls_server" where
  "on_session a f srv = srv\<lparr>mSessions := map (\<lambda>s. if mAddress s = a then f s else s) (mSessions srv)\<rparr>"

definition with_session :: "nat \<Rightarrow> dtls_server \<Rightarrow> (dtls_session \<Rightarrow> 'a res) \<Rightarrow> 'a res" where
  "with_session a srv k = (case session_at a srv of None \<Rightarrow> Fault UseAfterFree | Some s \<Rightarrow> k s)"

type_synonym 'w notify = "nat \<Rightarrow> session_state \<Rightarrow> dtls_server \<times> 'w \<Rightarrow> dtls_server \<times> 'w"
type_synonym 'w feed = "nat \<Rightarrow> byte list \<Rightarrow> dtls_server \<times> 'w \<Rightarrow> (dtls_server \<times> 'w) res"

section \<open>A session\<close>

definition ses_SetState :: "'w notify \<Rightarrow> nat \<Rightarrow> session_state \<Rightarrow> dtls_server \<times> 'w \<Rightarrow> (dtls_server \<times> 'w) res" where
  "ses_SetState notify a aState sys =
     with_session a (fst sys) (\<lambda>_.
       Ok (notify a aState (on_session a (\<lambda>s. s\<lparr>mState := aState\<rparr>) (fst sys), snd sys)))"

definition ses_SetDataHandler :: "nat \<Rightarrow> dtls_server \<Rightarrow> dtls_server" where
  "ses_SetDataHandler a srv = on_session a (\<lambda>s. s\<lparr>mDataHandler := True\<rparr>) srv"

text \<open>The number written, or -1 for a negative answer of the library.\<close>

definition ses_Write ::
  "'w notify \<Rightarrow> ssl_ret list \<Rightarrow> nat \<Rightarrow> byte list \<Rightarrow> dtls_server \<times> 'w \<Rightarrow> (int \<times> dtls_server \<times> 'w) res" where
  "ses_Write notify rets a aBuffer sys =
     with_session a (fst sys) (\<lambda>_.
       rbind (ssl_retry rets) (\<lambda>ret.
         if ret = SslOk then Ok (int (length aBuffer), sys)
         else map_res (Pair (-1)) (ses_SetState notify a kStateError sys)))"

text \<open>\<open>while (mbedtls_ssl_close_notify(&mSsl) == MBEDTLS_ERR_SSL_WANT_WRITE);\<close>\<close>

fun close_retry :: "ssl_ret list \<Rightarrow> unit res" where
  "close_retry [] = Fault Blocked"
| "close_retry (ret # rets) = (if ret = WantWrite then close_retry rets else Ok ())"

definition ses_Close ::
  "'w notify \<Rightarrow> ssl_ret list \<Rightarrow> nat \<Rightarrow> dtls_server \<times> 'w \<Rightarrow> (dtls_server \<times> 'w) res" where
  "ses_Close notify rets a sys =
     with_session a (fst sys) (\<lambda>s.
       if mState s = kStateError \<or> mState s = kStateEnd then Ok sys
       else rbind (close_retry rets) (\<lambda>_. ses_SetState notify a kStateEnd sys))"

text \<open>The switch on what \<open>mbedtls_ssl_read\<close> returned, when nothing was read.\<close>

definition read_failed ::
  "'w notify \<Rightarrow> nat \<Rightarrow> ssl_ret \<Rightarrow> dtls_server \<times> 'w \<Rightarrow> (dtls_server \<times> 'w) res" where
  "read_failed notify a ret sys =
     (case ret of
        SslOk \<Rightarrow> ses_SetState notify a kStateClose sys
      | PeerCloseNotify \<Rightarrow> ses_SetState notify a kStateClose sys
      | ClientReconnect \<Rightarrow> ses_SetState notify a kStateHandshaking sys
      | SslTimeout \<Rightarrow> Ok sys
      | _ \<Rightarrow> ses_SetState notify a kStateError sys)"

fun ses_Read ::
  "'w notify \<Rightarrow> 'w feed \<Rightarrow> nat \<Rightarrow> ssl_read list \<Rightarrow> dtls_server \<times> 'w \<Rightarrow> (dtls_server \<times> 'w) res" where
  "ses_Read notify feed a [] sys = Fault Blocked"
| "ses_Read notify feed a (ReadData bs # reads) sys =
     with_session a (fst sys) (\<lambda>s. if mDataHandler s then feed a bs sys else Fault Uninitialized)"
| "ses_Read notify feed a (ReadRet ret # reads) sys =
     (if is_want ret then ses_Read notify feed a reads sys else read_failed notify a ret sys)"

text \<open>A failed handshake stores \<open>kStateError\<close> without telling the server.\<close>

definition ses_Handshake ::
  "'w notify \<Rightarrow> nat \<Rightarrow> ssl_ret \<Rightarrow> dtls_server \<times> 'w \<Rightarrow> (dtls_server \<times> 'w) res" where
  "ses_Handshake notify a ret sys =
     with_session a (fst sys) (\<lambda>s.
       if mState s \<noteq> kStateHandshaking then Ok sys
       else if ret = SslOk then ses_SetState notify a kStateReady sys
       else if is_want ret then Ok sys
       else Ok (on_session a (\<lambda>s. s\<lparr>mState := kStateError\<rparr>) (fst sys), snd sys))"

text \<open>The retransmission timer that mbedTLS sets and polls.\<close>

definition ses_SetDelay :: "u64 \<Rightarrow> u32 \<Rightarrow> u32 \<Rightarrow> dtls_session \<Rightarrow> dtls_session" where
  "ses_SetDelay now aIntermediate aFinal s =
     (if aFinal \<noteq> 0
      then s\<lparr>mIntermediate := now + ucast aIntermediate, mFinal := now + ucast aFinal, mIsTimerSet := True\<rparr>
      else s\<lparr>mIsTimerSet := False\<rparr>)"

definition ses_GetDelay :: "u64 \<Rightarrow> dtls_session \<Rightarrow> int" where
  "ses_GetDelay now s =
     (if mIsTimerSet s
      then (if sint (mFinal s - now) \<le> 0 then 2
            else if sint (mIntermediate s - now) \<le> 0 then 1 else 0)
      else -1)"

section \<open>The server\<close>

text \<open>The credential and the seed; the length arguments are a \<open>uint8_t\<close> and a \<open>uint16_t\<close>.\<close>

definition srv_SetPSK :: "byte list option \<Rightarrow> byte \<Rightarrow> dtls_server \<Rightarrow> (otbr_error \<times> dtls_server) res" where
  "srv_SetPSK aPSK aLength srv =
     (case aPSK of
        None \<Rightarrow> Fault AssertFail
      | Some bs \<Rightarrow>
          rbind (guard (aLength > 0) AssertFail) (\<lambda>_.
            if unat aLength \<le> kMaxSizeOfPSK
            then map_res (\<lambda>psk. (OTBR_ERROR_NONE, srv\<lparr>mPSK := psk\<rparr>)) (read_bytes bs 0 (unat aLength))
            else Ok (OTBR_ERROR_ERRNO, srv)))"

definition srv_SetSeed :: "nat \<Rightarrow> byte list option \<Rightarrow> u16 \<Rightarrow> dtls_server \<Rightarrow> (otbr_error \<times> dtls_server) res" where
  "srv_SetSeed max_seed aSeed aLength srv =
     (case aSeed of
        None \<Rightarrow> Fault AssertFail
      | Some bs \<Rightarrow>
          rbind (guard (aLength > 0) AssertFail) (\<lambda>_.
            if unat aLength \<le> max_seed
            then map_res (\<lambda>seed. (OTBR_ERROR_NONE, srv\<lparr>mSeed := seed\<rparr>)) (read_bytes bs 0 (unat aLength))
            else Ok (OTBR_ERROR_ERRNO, srv)))"

text \<open>\<open>Bind\<close>: what \<open>socket\<close> returned, and whether the options and \<open>bind\<close> succeeded.\<close>

definition srv_Bind :: "int \<Rightarrow> bool \<Rightarrow> dtls_server \<Rightarrow> otbr_error \<times> dtls_server" where
  "srv_Bind fd bind_ok srv =
     (if fd \<noteq> -1 \<and> bind_ok then OTBR_ERROR_NONE else OTBR_ERROR_ERRNO, srv\<lparr>mSocket := fd\<rparr>)"

definition srv_Start :: "logger \<Rightarrow> bool \<Rightarrow> int \<Rightarrow> bool \<Rightarrow> dtls_server \<Rightarrow> (otbr_error \<times> dtls_server) res" where
  "srv_Start lg mbedtls_ok fd bind_ok srv =
     rbind (FromOtbrLogLevel lg) (\<lambda>_.
       Ok (if mbedtls_ok then srv_Bind fd bind_ok srv else (OTBR_ERROR_DTLS, srv)))"

text \<open>What the library and the system answer during one \<open>UpdateFdSet\<close> or \<open>Process\<close>.\<close>

record dtls_env =
  env_now :: u64
  env_readable :: "int set"
  env_handshake :: "nat \<Rightarrow> ssl_ret \<times> int option \<times> byte list option"
  env_read :: "nat \<Rightarrow> ssl_read list"
  env_close :: "nat \<Rightarrow> ssl_ret list"
  env_recv :: bool
  env_dst :: bool
  env_init :: bool
  env_bind_fd :: int
  env_bind_ok :: bool

text \<open>\<open>delete session\<close> with the \<open>Close\<close> of the destructor, and \<open>mSessions.erase\<close>.\<close>

definition srv_delete ::
  "'w notify \<Rightarrow> dtls_env \<Rightarrow> nat \<Rightarrow> dtls_server \<times> 'w \<Rightarrow> (dtls_server \<times> 'w) res" where
  "srv_delete notify env a sys =
     rbind (ses_Close notify (env_close env a) a sys) (\<lambda>sys1.
       Ok ((fst sys1)\<lparr>mSessions := filter (\<lambda>s. mAddress s \<noteq> a) (mSessions (fst sys1))\<rparr>, snd sys1))"

text \<open>\<open>~MbedtlsServer\<close> deletes every session.\<close>

definition srv_destroy :: "'w notify \<Rightarrow> dtls_env \<Rightarrow> dtls_server \<times> 'w \<Rightarrow> (dtls_server \<times> 'w) res" where
  "srv_destroy notify env sys =
     map_res (\<lambda>sys1. ((fst sys1)\<lparr>mSocket := -1\<rparr>, snd sys1))
       (fold_res (srv_delete notify env) (map mAddress (mSessions (fst sys))) sys)"

record fd_request =
  fr_read :: "int set"
  fr_max :: int
  fr_timeout :: u64

definition update_session ::
  "'w notify \<Rightarrow> dtls_env \<Rightarrow> nat \<Rightarrow> (dtls_server \<times> 'w) \<times> fd_request \<Rightarrow> ((dtls_server \<times> 'w) \<times> fd_request) res" where
  "update_session notify env a st =
     (case st of (sys, fr) \<Rightarrow>
       with_session a (fst sys) (\<lambda>s.
         let now = env_now env in
         if mExpiration s \<le> now
         then map_res (\<lambda>sys'. (sys', fr)) (srv_delete notify env a (notify a kStateExpired sys))
         else if mState s = kStateReady \<or> mState s = kStateHandshaking
         then Ok (sys, fr\<lparr>fr_read := insert (mFd s) (fr_read fr), fr_max := max (fr_max fr) (mFd s),
                fr_timeout := (if sint (mExpiration s - (now + fr_timeout fr)) < 0
                               then mExpiration s - now else fr_timeout fr)\<rparr>)
         else map_res (\<lambda>sys'. (sys', fr)) (srv_delete notify env a sys)))"

text \<open>Back to a \<open>timeval\<close> at the end of \<open>UpdateFdSet\<close>.\<close>

definition to_timeval :: "u64 \<Rightarrow> nat \<times> nat" where
  "to_timeval timeout = (unat timeout div 1000, unat timeout mod 1000 * 1000)"

definition srv_UpdateFdSet ::
  "'w notify \<Rightarrow> dtls_env \<Rightarrow> int set \<Rightarrow> int \<Rightarrow> nat \<times> nat \<Rightarrow> dtls_server \<times> 'w
     \<Rightarrow> ((dtls_server \<times> 'w) \<times> int set \<times> int \<times> nat \<times> nat) res" where
  "srv_UpdateFdSet notify env aReadFdSet aMaxFd aTimeout sys =
     rbind (fold_res (update_session notify env) (map mAddress (mSessions (fst sys)))
              (sys, \<lparr>fr_read = aReadFdSet, fr_max = aMaxFd, fr_timeout = GetTimestamp aTimeout\<rparr>))
       (\<lambda>(sys1, fr).
         let sock = mSocket (fst sys1); listening = (sock \<ge> 0) in
         Ok (sys1, if listening then insert sock (fr_read fr) else fr_read fr,
             if listening then max (fr_max fr) sock else fr_max fr, to_timeval (fr_timeout fr)))"

text \<open>
  \<open>MbedtlsSession::Process\<close>.  While the handshake runs, mbedTLS may call back \<open>SendMbedtls\<close>,
  which gives the session a socket of its own, and \<open>ExportKeys\<close>, which stores the key in the
  session registered last with the shared configuration.
\<close>

definition export_keys :: "byte list option \<Rightarrow> dtls_server \<Rightarrow> dtls_server res" where
  "export_keys key srv =
     (case (key, mExportTo srv) of
        (Some kek, Some a) \<Rightarrow> with_session a srv (\<lambda>_. Ok (on_session a (\<lambda>s. s\<lparr>mKek := Some kek\<rparr>) srv))
      | _ \<Rightarrow> Ok srv)"

text \<open>The socket \<open>SendMbedtls\<close> opens takes the place of the server's, or -1 when there is none.\<close>

definition ses_SendMbedtls :: "int \<Rightarrow> dtls_session \<Rightarrow> dtls_session" where
  "ses_SendMbedtls fd s = s\<lparr>mFd := fd\<rparr>"

declare ses_SendMbedtls_def [simp]

definition ses_Process ::
  "'w notify \<Rightarrow> 'w feed \<Rightarrow> dtls_env \<Rightarrow> nat \<Rightarrow> dtls_server \<times> 'w \<Rightarrow> (dtls_server \<times> 'w) res" where
  "ses_Process notify feed env a sys =
     with_session a (fst sys) (\<lambda>s.
       let srv1 = on_session a (\<lambda>s. s\<lparr>mExpiration := env_now env + kSessionTimeout\<rparr>) (fst sys) in
       case mState s of
         kStateHandshaking \<Rightarrow>
           (case env_handshake env a of (ret, fd, key) \<Rightarrow>
             rbind (export_keys key (case fd of None \<Rightarrow> srv1 | Some fd' \<Rightarrow> on_session a (ses_SendMbedtls fd') srv1))
               (\<lambda>srv2. ses_Handshake notify a ret (srv2, snd sys)))
       | kStateReady \<Rightarrow> ses_Read notify feed a (env_read env a) (srv1, snd sys)
       | _ \<Rightarrow> Ok (srv1, snd sys))"

text \<open>
  Accepting a joiner.  The state of a new session is set by \<open>Init\<close>, when the calls of the library
  succeed; a session whose \<open>Init\<close> fails is deleted before that, and its destructor reads the state.
\<close>

definition ses_Init :: "bool \<Rightarrow> dtls_session \<Rightarrow> otbr_error \<times> dtls_session" where
  "ses_Init mbedtls_ok s = (if mbedtls_ok then (OTBR_ERROR_NONE, s\<lparr>mState := kStateHandshaking\<rparr>) else (OTBR_ERROR_DTLS, s))"

declare ses_Init_def [simp]

definition new_session :: "dtls_server \<Rightarrow> dtls_session" where
  "new_session srv = \<lparr>mAddress = mFresh srv, mFd = mSocket srv, mState = kStateHandshaking, mExpiration = 0,
     mKek = None, mIntermediate = 0, mFinal = 0, mIsTimerSet = False, mDataHandler = False\<rparr>"

definition srv_accept :: "dtls_server \<Rightarrow> dtls_server" where
  "srv_accept srv = srv\<lparr>mSessions := mSessions srv @ [snd (ses_Init True (new_session srv))], mExportTo := Some (mFresh srv),
     mFresh := Suc (mFresh srv)\<rparr>"

definition srv_rebind :: "dtls_env \<Rightarrow> dtls_server \<times> 'w \<Rightarrow> (dtls_server \<times> 'w) res" where
  "srv_rebind env sys =
     (case srv_Bind (env_bind_fd env) (env_bind_ok env) (fst sys) of (err, srv1) \<Rightarrow>
        if err = OTBR_ERROR_NONE then Ok (srv1, snd sys) else Fault Aborted)"

definition srv_ProcessServer ::
  "'w notify \<Rightarrow> 'w feed \<Rightarrow> dtls_env \<Rightarrow> dtls_server \<times> 'w \<Rightarrow> (dtls_server \<times> 'w) res" where
  "srv_ProcessServer notify feed env sys =
     (let srv = fst sys in
      if \<not> (mSocket srv \<ge> 0) \<or> mSocket srv \<notin> env_readable env then Ok sys
      else if \<not> env_recv env \<or> \<not> env_dst env then srv_rebind env sys
      else if fst (ses_Init (env_init env) (new_session srv)) \<noteq> OTBR_ERROR_NONE then Fault Uninitialized
      else ses_Process notify feed env (mFresh srv) (srv_accept srv, snd sys))"

definition process_ready ::
  "'w notify \<Rightarrow> 'w feed \<Rightarrow> dtls_env \<Rightarrow> nat \<Rightarrow> dtls_server \<times> 'w \<Rightarrow> (dtls_server \<times> 'w) res" where
  "process_ready notify feed env a sys =
     with_session a (fst sys) (\<lambda>s.
       if mFd s \<in> env_readable env then ses_Process notify feed env a sys else Ok sys)"

definition srv_Process ::
  "'w notify \<Rightarrow> 'w feed \<Rightarrow> dtls_env \<Rightarrow> dtls_server \<times> 'w \<Rightarrow> (dtls_server \<times> 'w) res" where
  "srv_Process notify feed env sys =
     rbind (fold_res (process_ready notify feed env) (map mAddress (mSessions (fst sys))) sys)
       (srv_ProcessServer notify feed env)"

section \<open>Distances on the millisecond clock\<close>

lemma sint_diff_small:
  fixes a b :: u64
  assumes "unat a < 2 ^ 62" and "unat b < 2 ^ 62"
  shows "sint (a - b) = int (unat a) - int (unat b)"
proof -
  have ab: "a - b = word_of_int (int (unat a) - int (unat b))" by simp
  have "int (unat a) < 2 ^ 62" and "int (unat b) < 2 ^ 62"
    using assms by (simp_all only: of_nat_less_numeral_power_cancel_iff)
  moreover have "0 \<le> x \<Longrightarrow> x < 2 ^ 62 \<Longrightarrow> 0 \<le> y \<Longrightarrow> y < 2 ^ 62 \<Longrightarrow> - (2 ^ 63) \<le> x - y \<and> x - y < 2 ^ 63"
    for x y :: int by simp
  ultimately have "- (2 ^ 63) \<le> int (unat a) - int (unat b)" and "int (unat a) - int (unat b) < 2 ^ 63"
    by (meson of_nat_0_le_iff)+
  then have k: "signed_take_bit 63 (int (unat a) - int (unat b)) = int (unat a) - int (unat b)"
    by (intro signed_take_bit_int_eq_self) simp_all
  have "sint (a - b) = sint (word_of_int (int (unat a) - int (unat b)) :: u64)" by (simp only: ab)
  also have "\<dots> = signed_take_bit 63 (int (unat a) - int (unat b))" by (subst sint_sbintrunc') simp
  finally show ?thesis by (simp only: k)
qed

lemma sint_add_diff:
  fixes t d e :: u64
  assumes "unat d < 2 ^ 62" and "unat e < 2 ^ 62"
  shows "sint ((t + e) - (t + d)) = int (unat e) - int (unat d)"
  using sint_diff_small [OF assms(2,1)] by simp

section \<open>What a state handler must not do\<close>

text \<open>The part of a session the server's loops depend on.\<close>

definition session_core :: "dtls_session \<Rightarrow> nat \<times> int \<times> session_state \<times> u64" where
  "session_core s = (mAddress s, mFd s, mState s, mExpiration s)"

definition cores :: "dtls_server \<Rightarrow> (nat \<times> int \<times> session_state \<times> u64) list" where
  "cores srv = map session_core (mSessions srv)"

definition pending_core :: "u64 \<Rightarrow> nat \<times> int \<times> session_state \<times> u64 \<Rightarrow> bool" where
  "pending_core now c =
     (case c of (a, fd, st, e) \<Rightarrow> now < e \<and> (st = kStateReady \<or> st = kStateHandshaking))"

definition request_core :: "u64 \<Rightarrow> nat \<times> int \<times> session_state \<times> u64 \<Rightarrow> fd_request \<Rightarrow> fd_request" where
  "request_core now c fr =
     (case c of (a, fd, st, e) \<Rightarrow>
       fr\<lparr>fr_read := insert fd (fr_read fr), fr_max := max (fr_max fr) fd,
          fr_timeout := (if sint (e - (now + fr_timeout fr)) < 0 then e - now else fr_timeout fr)\<rparr>)"

definition closes :: "dtls_env \<Rightarrow> bool" where
  "closes env \<longleftrightarrow> (\<forall>a. \<exists>r\<in>set (env_close env a). r \<noteq> WantWrite)"

lemma map_fst_cores: "map fst (cores srv) = map mAddress (mSessions srv)"
  by (simp add: cores_def session_core_def comp_def)

lemma session_at_core:
  assumes "c \<in> set (cores srv)" and "distinct (map fst (cores srv))"
  shows "\<exists>s. session_at (fst c) srv = Some s \<and> session_core s = c"
proof -
  obtain s where s: "s \<in> set (mSessions srv)" "session_core s = c"
    using assms(1) by (auto simp: cores_def)
  have "session_at (mAddress s) srv = Some s"
    using s(1) assms(2) unfolding map_fst_cores session_at_def by (intro find_distinct)
  with s(2) show ?thesis by (auto simp: session_core_def)
qed

lemma close_retry_ok: "\<exists>r\<in>set rs. r \<noteq> WantWrite \<Longrightarrow> close_retry rs = Ok ()"
  by (induction rs) auto

lemma cores_on_session:
  "(\<And>s. session_core (f s) = g (session_core s)) \<Longrightarrow>
     cores (on_session a f srv) = map (\<lambda>c. if fst c = a then g c else c) (cores srv)"
  by (auto simp: cores_def on_session_def session_core_def)

lemma mSocket_on_session [simp]: "mSocket (on_session a f srv) = mSocket srv"
  by (simp add: on_session_def)

locale session_observer =
  fixes notify :: "nat \<Rightarrow> session_state \<Rightarrow> dtls_server \<times> 'w \<Rightarrow> dtls_server \<times> 'w"
  assumes notify_cores: "cores (fst (notify a st sys)) = cores (fst sys)"
    and notify_socket: "mSocket (fst (notify a st sys)) = mSocket (fst sys)"
begin

lemma delete_ok:
  assumes "c \<in> set (cores (fst sys))" and "distinct (map fst (cores (fst sys)))" and "closes env"
  shows "\<exists>sys'. srv_delete notify env (fst c) sys = Ok sys'
    \<and> cores (fst sys') = filter (\<lambda>d. fst d \<noteq> fst c) (cores (fst sys)) \<and> mSocket (fst sys') = mSocket (fst sys)"
proof -
  obtain s where s: "session_at (fst c) (fst sys) = Some s" using session_at_core [OF assms(1,2)] by blast
  have retry: "close_retry (env_close env (fst c)) = Ok ()"
    using assms(3) by (intro close_retry_ok) (simp add: closes_def)
  let ?set = "\<lambda>d. if fst d = fst c then (fst d, fst (snd d), kStateEnd, snd (snd (snd d))) else d"
  have "\<exists>sys1. ses_Close notify (env_close env (fst c)) (fst c) sys = Ok sys1
      \<and> mSocket (fst sys1) = mSocket (fst sys)
      \<and> (cores (fst sys1) = cores (fst sys) \<or> cores (fst sys1) = map ?set (cores (fst sys)))"
  proof (cases "mState s = kStateError \<or> mState s = kStateEnd")
    case True
    with s show ?thesis by (simp add: ses_Close_def with_session_def)
  next
    case False
    let ?sys1 = "notify (fst c) kStateEnd (on_session (fst c) (\<lambda>s. s\<lparr>mState := kStateEnd\<rparr>) (fst sys), snd sys)"
    have "cores (fst ?sys1) = map ?set (cores (fst sys))"
      by (simp add: notify_cores session_core_def
          cores_on_session [where g = "\<lambda>d. (fst d, fst (snd d), kStateEnd, snd (snd (snd d)))"])
    then show ?thesis using False s retry notify_socket
      by (intro exI [of _ ?sys1]) (simp add: ses_Close_def ses_SetState_def with_session_def)
  qed
  moreover have "filter (\<lambda>d. fst d \<noteq> fst c) (map ?set cs) = filter (\<lambda>d. fst d \<noteq> fst c) cs" for cs
    by (induction cs) auto
  moreover have "cores (srv\<lparr>mSessions := filter (\<lambda>s. mAddress s \<noteq> a) (mSessions srv)\<rparr>)
      = filter (\<lambda>d. fst d \<noteq> a) (cores srv)" for srv a
    by (simp add: cores_def filter_map comp_def session_core_def)
  ultimately show ?thesis by (fastforce simp: srv_delete_def)
qed

lemma update_session_ok:
  assumes "cores (fst sys) = done @ c # rest" and "distinct (map fst (done @ c # rest))" and "closes env"
  shows "\<exists>sys'. update_session notify env (fst c) (sys, fr)
      = Ok (sys', if pending_core (env_now env) c then request_core (env_now env) c fr else fr)
    \<and> cores (fst sys') = done @ (if pending_core (env_now env) c then [c] else []) @ rest
    \<and> mSocket (fst sys') = mSocket (fst sys)"
proof -
  have mem: "c \<in> set (cores (fst sys))" "distinct (map fst (cores (fst sys)))"
    using assms(1,2) by auto
  obtain s where s: "session_at (fst c) (fst sys) = Some s" "session_core s = c"
    using session_at_core [OF mem] by blast
  then have c: "c = (mAddress s, mFd s, mState s, mExpiration s)" by (simp add: session_core_def)
  have rm: "filter (\<lambda>d. fst d \<noteq> fst c) (cores (fst sys)) = done @ rest"
    using assms(1,2) by (auto simp: filter_fresh_key)
  have del: "\<exists>sys2. srv_delete notify env (fst c) sys1 = Ok sys2 \<and> cores (fst sys2) = done @ rest
      \<and> mSocket (fst sys2) = mSocket (fst sys)"
    if "cores (fst sys1) = cores (fst sys)" "mSocket (fst sys1) = mSocket (fst sys)" for sys1
    using delete_ok [of c sys1 env] mem that assms(3) rm by auto
  show ?thesis
  proof (cases "pending_core (env_now env) c")
    case True
    then show ?thesis using s assms(1) c
      by (intro exI [of _ sys])
        (auto simp: update_session_def with_session_def pending_core_def request_core_def Let_def)
  next
    case False
    consider "mExpiration s \<le> env_now env"
      | "\<not> mExpiration s \<le> env_now env" "mState s \<noteq> kStateReady" "mState s \<noteq> kStateHandshaking"
      using False c by (cases "mExpiration s \<le> env_now env") (auto simp: pending_core_def not_le)
    then show ?thesis
    proof cases
      case 1
      with del [of "notify (fst c) kStateExpired sys"] False s show ?thesis
        by (auto simp: update_session_def with_session_def notify_cores notify_socket)
    next
      case 2
      with del [of sys] False s show ?thesis
        by (auto simp: update_session_def with_session_def)
    qed
  qed
qed

lemma update_sessions_ok:
  assumes "closes env"
  shows "cores (fst sys) = done @ rest \<Longrightarrow> distinct (map fst (done @ rest)) \<Longrightarrow>
    \<exists>sys'. fold_res (update_session notify env) (map fst rest) (sys, fr)
      = Ok (sys', fold (request_core (env_now env)) (filter (pending_core (env_now env)) rest) fr)
    \<and> cores (fst sys') = done @ filter (pending_core (env_now env)) rest
    \<and> mSocket (fst sys') = mSocket (fst sys)"
proof (induction rest arbitrary: sys "done" fr)
  case Nil
  then show ?case by simp
next
  case (Cons c rest)
  let ?keep = "if pending_core (env_now env) c then [c] else []"
  obtain sys1 where s1: "update_session notify env (fst c) (sys, fr)
      = Ok (sys1, if pending_core (env_now env) c then request_core (env_now env) c fr else fr)"
    "cores (fst sys1) = (done @ ?keep) @ rest" "mSocket (fst sys1) = mSocket (fst sys)"
    using update_session_ok [OF Cons.prems(1,2) assms, of fr] unfolding append_assoc by blast
  have "distinct (map fst ((done @ ?keep) @ rest))" using Cons.prems(2) by auto
  from Cons.IH [OF s1(2) this] s1 show ?case by auto
qed

lemma UpdateFdSet_cores:
  assumes "closes env" and "distinct (map mAddress (mSessions (fst sys)))"
  shows "\<exists>sys'. cores (fst sys') = filter (pending_core (env_now env)) (cores (fst sys))
    \<and> mSocket (fst sys') = mSocket (fst sys)
    \<and> srv_UpdateFdSet notify env fds maxfd tv sys
      = (let fr = fold (request_core (env_now env)) (filter (pending_core (env_now env)) (cores (fst sys)))
                    \<lparr>fr_read = fds, fr_max = maxfd, fr_timeout = GetTimestamp tv\<rparr>;
             sock = mSocket (fst sys) in
         Ok (sys', if sock \<ge> 0 then insert sock (fr_read fr) else fr_read fr,
             if sock \<ge> 0 then max (fr_max fr) sock else fr_max fr, to_timeval (fr_timeout fr)))"
proof -
  have "distinct (map fst ([] @ cores (fst sys)))" using assms(2) by (simp add: map_fst_cores)
  from update_sessions_ok [OF assms(1) _ this, of sys] obtain sys' where
    "fold_res (update_session notify env) (map fst (cores (fst sys)))
        (sys, \<lparr>fr_read = fds, fr_max = maxfd, fr_timeout = GetTimestamp tv\<rparr>)
      = Ok (sys', fold (request_core (env_now env)) (filter (pending_core (env_now env)) (cores (fst sys)))
          \<lparr>fr_read = fds, fr_max = maxfd, fr_timeout = GetTimestamp tv\<rparr>)"
    "cores (fst sys') = filter (pending_core (env_now env)) (cores (fst sys))"
    "mSocket (fst sys') = mSocket (fst sys)"
    unfolding append_Nil by blast
  then show ?thesis
    by (intro exI [of _ sys']) (simp add: srv_UpdateFdSet_def map_fst_cores Let_def)
qed

end

section \<open>The timeout requested\<close>

definition core_left :: "u64 \<Rightarrow> nat \<times> int \<times> session_state \<times> u64 \<Rightarrow> nat" where
  "core_left now c = unat (snd (snd (snd c))) - unat now"

lemma request_timeout:
  assumes "pending_core now c" and "core_left now c < 2 ^ 62" and "unat (fr_timeout fr) < 2 ^ 62"
  shows "unat (fr_timeout (request_core now c fr)) = min (unat (fr_timeout fr)) (core_left now c)"
proof -
  obtain a fd st e where c: "c = (a, fd, st, e)" by (cases c) auto
  have e: "unat (e - now) = unat e - unat now" and "now < e"
    using assms(1) c by (auto simp: pending_core_def unat_sub)
  have "e - (now + fr_timeout fr) = (e - now) - fr_timeout fr" by (simp add: algebra_simps)
  moreover have "sint ((e - now) - fr_timeout fr) = int (unat (e - now)) - int (unat (fr_timeout fr))"
    using assms(2,3) c e by (intro sint_diff_small) (simp_all add: core_left_def)
  ultimately have "sint (e - (now + fr_timeout fr)) = int (unat (e - now)) - int (unat (fr_timeout fr))"
    by (simp only:)
  then have "sint (e - (now + fr_timeout fr)) < 0 \<longleftrightarrow> unat e - unat now < unat (fr_timeout fr)"
    unfolding e(1) by linarith
  then show ?thesis using c e by (simp add: request_core_def core_left_def)
qed

lemma fold_request:
  "\<forall>c\<in>set cs. pending_core now c \<and> core_left now c < 2 ^ 62 \<Longrightarrow> unat (fr_timeout fr) < 2 ^ 62 \<Longrightarrow>
    fr_read (fold (request_core now) cs fr) = fr_read fr \<union> (\<lambda>c. fst (snd c)) ` set cs
    \<and> fr_max (fold (request_core now) cs fr) = fold (\<lambda>c m. max m (fst (snd c))) cs (fr_max fr)
    \<and> unat (fr_timeout (fold (request_core now) cs fr))
        = fold (\<lambda>c t. min t (core_left now c)) cs (unat (fr_timeout fr))"
proof (induction cs arbitrary: fr)
  case Nil
  then show ?case by simp
next
  case (Cons c cs)
  have t: "unat (fr_timeout (request_core now c fr)) = min (unat (fr_timeout fr)) (core_left now c)"
    using Cons.prems by (intro request_timeout) auto
  have f: "fr_read (request_core now c fr) = insert (fst (snd c)) (fr_read fr)"
    "fr_max (request_core now c fr) = max (fr_max fr) (fst (snd c))"
    by (simp_all add: request_core_def case_prod_unfold)
  have "unat (fr_timeout (request_core now c fr)) < 2 ^ 62" using t Cons.prems(2) by simp
  from Cons.IH [OF _ this] Cons.prems(1) t f show ?case by auto
qed

section \<open>How the state of a session moves\<close>

text \<open>
  The diagram of \<open>agent/dtls.hpp\<close>, without \<open>Expired\<close>, which is only ever reported, and with the
  edge back to \<open>Handshaking\<close> that \<open>Read\<close> takes when the peer reconnects.
\<close>

inductive session_edge :: "session_state \<Rightarrow> session_state \<Rightarrow> bool" where
  handshake_done: "session_edge kStateHandshaking kStateReady"
| handshake_failed: "session_edge kStateHandshaking kStateError"
| closed_by_peer: "session_edge kStateReady kStateClose"
| reconnected: "session_edge kStateReady kStateHandshaking"
| corrupted: "session_edge kStateReady kStateError"
| ended: "st \<noteq> kStateError \<Longrightarrow> st \<noteq> kStateEnd \<Longrightarrow> session_edge st kStateEnd"

inductive_simps session_edge_simps:
  "session_edge kStateHandshaking st" "session_edge kStateReady st" "session_edge kStateClose st"
  "session_edge kStateEnd st" "session_edge kStateError st"

lemma end_is_final: "\<not> session_edge kStateEnd st" "\<not> session_edge kStateError st"
  by (auto simp: session_edge_simps)

section \<open>Properties\<close>

text \<open>
  The debug hook logs a message of mbedTLS level 1 to 4 at that number instead of the log
  level it has just computed, which is a less urgent one: verbose output of the library
  (level 4) is logged as a warning, an error (level 1) as an alert.
\<close>

theorem MbedtlsDebug_level:
  assumes "debug_level aLevel = Ok level" and "level \<noteq> 0"
  shows "MbedtlsDebug now aLevel text lg = otbrLog now aLevel text lg \<and> aLevel < level"
  using assms by (auto simp: MbedtlsDebug_def debug_level_def log_levels split: if_splits)

theorem MbedtlsDebug_level_witness:
  "MbedtlsDebug 0 4 ''x'' initial_logger = otbrLog 0 OTBR_LOG_WARNING ''x'' initial_logger
    \<and> debug_level 4 = Ok OTBR_LOG_DEBUG"
  using MbedtlsDebug_level [of 4 OTBR_LOG_DEBUG 0 "''x''" initial_logger] by (simp add: debug_level_def log_levels)

text \<open>
  The timer mbedTLS sets at some time reports, later on, exactly which of its two delays
  have run out, also when the millisecond counter wraps in between; a final delay of 0
  cancels it.
\<close>

theorem ses_delay_exact:
  assumes "unat d < 2 ^ 62"
  shows "ses_GetDelay (t0 + d) (ses_SetDelay t0 aIntermediate aFinal s) =
    (if aFinal = 0 then -1
     else if unat aFinal \<le> unat d then 2
     else if unat aIntermediate \<le> unat d then 1 else 0)"
proof -
  have "sint ((t0 + ucast x) - (t0 + d)) \<le> 0 \<longleftrightarrow> unat x \<le> unat d" for x :: u32
  proof -
    have u: "unat (ucast x :: u64) = unat x"
      by (simp add: unsigned_ucast_eq take_bit_nat_eq_self_iff less_le_trans [OF unsigned_less [of x]])
    have "unat (ucast x :: u64) < 2 ^ 62"
      unfolding u using unsigned_less [of x] by (auto elim: less_trans)
    from sint_add_diff [OF assms this, of t0] show ?thesis unfolding u by linarith
  qed
  then show ?thesis by (simp add: ses_GetDelay_def ses_SetDelay_def)
qed

theorem ses_delay_exact_witness:
  "ses_GetDelay (18446744073709551615 + 1500) (ses_SetDelay 18446744073709551615 1000 4000
     (new_session (new_MbedtlsServer 1))) = 1"
  using ses_delay_exact [of 1500 18446744073709551615 1000 4000 "new_session (new_MbedtlsServer 1)"] by simp

end
