(* ===== verification/JoinerSess.thy ===== *)
theory JoinerSess
  imports Dtls Coap TlvCodec Constants
begin

text \<open>
  \<open>commissioner/joiner_session.cpp\<close>: the DTLS server of a commissioner together with the CoAP
  agent that answers \<open>c/jf\<close> (joiner finalize) and the key that is relayed to the joiner's
  router afterwards.  The state is the pair of the server and the members of \<open>JoinerSession\<close>;
  \<open>mDtlsSession\<close> is the address of a session the server owns.

  Decoding a packet and encoding the answer is libcoap's: \<open>lib_parse\<close> and \<open>lib_reply\<close>.
\<close>

section \<open>State\<close>

text \<open>\<open>mKek\<close> is \<open>None\<close> as long as no key has been copied into it.\<close>

record joiner_session =
  js_mKek :: "byte list option"
  mDtlsSession :: "nat option"
  mNeedAppendKek :: bool

type_synonym joiner_system = "dtls_server \<times> joiner_session"

definition joiner_agent :: "(unit, unit, unit) coap_agent" where
  "joiner_agent = snd (AddResource 0 \<lparr>mContext = (), mPath = OT_URI_PATH_JOINER_FINALIZE, mHandler = ()\<rparr>
     new_AgentLibcoap)"

definition joiner_SetPSK :: "string \<Rightarrow> joiner_system \<Rightarrow> joiner_system res" where
  "joiner_SetPSK aPskdAscii sys =
     map_res (\<lambda>r. (snd r, snd sys))
       (srv_SetPSK (Some (bytes_of_string aPskdAscii)) (word_of_nat (length aPskdAscii)) (fst sys))"

definition new_JoinerSession ::
  "logger \<Rightarrow> bool \<Rightarrow> int \<Rightarrow> bool \<Rightarrow> u16 \<Rightarrow> string \<Rightarrow> joiner_system res" where
  "new_JoinerSession lg mbedtls_ok fd bind_ok aInternalServerPort aPskdAscii =
     rbind (joiner_SetPSK aPskdAscii
              (new_MbedtlsServer aInternalServerPort,
               \<lparr>js_mKek = None, mDtlsSession = None, mNeedAppendKek = False\<rparr>)) (\<lambda>sys.
       map_res (\<lambda>r. (snd r, snd sys)) (srv_Start lg mbedtls_ok fd bind_ok (fst sys)))"

section \<open>Callbacks\<close>

definition HandleSessionChange :: "nat \<Rightarrow> session_state \<Rightarrow> joiner_system \<Rightarrow> joiner_system" where
  "HandleSessionChange aSession aState sys =
     (case aState of
        kStateReady \<Rightarrow>
          (ses_SetDataHandler aSession (fst sys),
           (snd sys)\<lparr>js_mKek := Option.bind (session_at aSession (fst sys)) mKek,
                     mDtlsSession := Some aSession\<rparr>)
      | kStateError \<Rightarrow> (fst sys, (snd sys)\<lparr>mDtlsSession := None\<rparr>)
      | kStateEnd \<Rightarrow> (fst sys, (snd sys)\<lparr>mDtlsSession := None\<rparr>)
      | _ \<Rightarrow> sys)"

definition joiner_SendCoap :: "ssl_ret list \<Rightarrow> byte list \<Rightarrow> joiner_system \<Rightarrow> (int \<times> joiner_system) res" where
  "joiner_SendCoap rets aBuffer sys =
     (case mDtlsSession (snd sys) of
        Some a \<Rightarrow> ses_Write HandleSessionChange rets a aBuffer sys
      | None \<Rightarrow> Ok (-1, sys))"

text \<open>The answer to a joiner, built in a buffer of 50 bytes.\<close>

definition kTestString :: "byte list" where
  "kTestString = bytes_of_string (''test'' @ [CHR 0x0D, CHR 0x0A])"

definition finalize_payload :: "byte list res" where
  "finalize_payload =
     rbind (tlv_put kState (tlv_SetValueUInt8 (word_of_int kStateAccepted)) (replicate 50 0, 0)) (\<lambda>cur1.
     rbind (tlv_put kUdpEncapsulation (tlv_SetValueBytes kTestString False) cur1) (\<lambda>cur2.
       Ok (take (LengthOf 0 (snd cur2)) (fst cur2))))"

definition HandleJoinerFinalize ::
  "unit \<Rightarrow> unit \<Rightarrow> coap_message \<Rightarrow> coap_message \<Rightarrow> joiner_session \<Rightarrow> (coap_message \<times> joiner_session) res" where
  "HandleJoinerFinalize h c aRequest aResponse js =
     rbind finalize_payload (\<lambda>payload.
       Ok (msg_SetPayload payload (msg_SetCode kCodeChanged aResponse), js\<lparr>mNeedAppendKek := True\<rparr>))"

record coap_lib =
  lib_parse :: "byte list \<Rightarrow> coap_message option"
  lib_reply :: "coap_message \<Rightarrow> coap_message \<Rightarrow> byte list option"

text \<open>Data of a session goes to the agent; its answer goes out through \<open>mDtlsSession\<close>.\<close>

definition joiner_message :: "coap_lib \<Rightarrow> ssl_ret list \<Rightarrow> byte list \<Rightarrow> joiner_system \<Rightarrow> joiner_system res" where
  "joiner_message lib rets aBuffer sys =
     (case lib_parse lib aBuffer of
        None \<Rightarrow> Ok sys
      | Some req \<Rightarrow>
          let resp = NewMessage (cm_id req) kTypeAcknowledgment kCodeEmpty (cm_token req) in
          rbind (if cm_code req = kCodePost
                 then HandleRequest HandleJoinerFinalize req resp joiner_agent (snd sys)
                 else Ok (resp, snd sys)) (\<lambda>(resp', js').
            case lib_reply lib req resp' of
              None \<Rightarrow> Ok (fst sys, js')
            | Some out \<Rightarrow> map_res snd (NetworkSend (joiner_SendCoap rets) out (fst sys, js'))))"

definition FeedCoap :: "coap_lib \<Rightarrow> ssl_ret list \<Rightarrow> nat \<Rightarrow> byte list \<Rightarrow> joiner_system \<Rightarrow> joiner_system res" where
  "FeedCoap lib rets aSession aBuffer sys = coap_Input (joiner_message lib rets) aBuffer sys"

section \<open>Operations\<close>

definition joiner_Process ::
  "coap_lib \<Rightarrow> ssl_ret list \<Rightarrow> dtls_env \<Rightarrow> joiner_system \<Rightarrow> joiner_system res" where
  "joiner_Process lib rets env sys = srv_Process HandleSessionChange (FeedCoap lib rets) env sys"

definition joiner_UpdateFdSet ::
  "dtls_env \<Rightarrow> int set \<Rightarrow> int \<Rightarrow> nat \<times> nat \<Rightarrow> joiner_system
     \<Rightarrow> (joiner_system \<times> int set \<times> int \<times> nat \<times> nat) res" where
  "joiner_UpdateFdSet env aReadFdSet aMaxFd aTimeout sys =
     srv_UpdateFdSet HandleSessionChange env aReadFdSet aMaxFd aTimeout sys"

definition NeedAppendKek :: "joiner_session \<Rightarrow> bool" where
  "NeedAppendKek js = mNeedAppendKek js"

definition MarkKekSent :: "joiner_session \<Rightarrow> joiner_session" where
  "MarkKekSent js = js\<lparr>mNeedAppendKek := False\<rparr>"

definition GetKek :: "nat \<Rightarrow> joiner_session \<Rightarrow> byte list res" where
  "GetKek aBufSize js =
     (case js_mKek js of None \<Rightarrow> Fault Uninitialized | Some kek \<Rightarrow> Ok (take (min kKEKSize aBufSize) kek))"

definition joiner_destroy :: "dtls_env \<Rightarrow> joiner_system \<Rightarrow> joiner_system res" where
  "joiner_destroy env sys = srv_destroy HandleSessionChange env sys"

section \<open>Library\<close>

lemma session_at_on_session:
  "(\<And>s. mAddress (f s) = mAddress s) \<Longrightarrow>
     session_at b (on_session a f srv) = (if a = b then map_option f (session_at b srv) else session_at b srv)"
  unfolding session_at_def on_session_def
  by (simp add: find_map_if)

interpretation joiner_observer: session_observer HandleSessionChange
proof
  fix a st and sys :: joiner_system
  have "map session_core (mSessions (on_session a (\<lambda>s. s\<lparr>mDataHandler := True\<rparr>) srv))
      = map session_core (mSessions srv)" for srv
    by (simp add: on_session_def session_core_def)
  then show "cores (fst (HandleSessionChange a st sys)) = cores (fst sys)"
    by (cases st) (auto simp: HandleSessionChange_def ses_SetDataHandler_def cores_def)
  show "mSocket (fst (HandleSessionChange a st sys)) = mSocket (fst sys)"
    by (cases st) (auto simp: HandleSessionChange_def ses_SetDataHandler_def)
qed

lemma finalize_payload_bytes:
  "finalize_payload = Ok (tlvs_bytes [WTlv kState False [1], WTlv kUdpEncapsulation False kTestString])"
proof -
  have ok: "list_all wire_ok [WTlv kState False [1], WTlv kUdpEncapsulation False kTestString]"
    by (simp add: wire_ok_def kTestString_def bytes_of_string_def)
  have len: "length (tlvs_bytes [WTlv kState False [1], WTlv kUdpEncapsulation False kTestString]) = 11"
    by (simp add: tlv_bytes_def length_field_def kLengthEscape_def kTestString_def bytes_of_string_def)
  from request_payload [OF ok, of "replicate 50 0"] len show ?thesis
    by (simp add: finalize_payload_def tlv_put_all_simps tlv_SetValueUInt8_bytes kStateAccepted_def rbind_assoc)
qed

section \<open>The invariant of the two together\<close>

definition handshake_fails :: "dtls_env \<Rightarrow> nat \<Rightarrow> bool" where
  "handshake_fails env a \<longleftrightarrow> fst (env_handshake env a) \<noteq> SslOk \<and> \<not> is_want (fst (env_handshake env a))"

definition server_inv :: "dtls_server \<Rightarrow> bool" where
  "server_inv srv \<longleftrightarrow> distinct (map mAddress (mSessions srv))
     \<and> (\<forall>s\<in>set (mSessions srv). mAddress s < mFresh srv \<and> (mState s = kStateReady \<longrightarrow> mDataHandler s))
     \<and> (\<forall>e. mExportTo srv = Some e \<longrightarrow> live e srv)"

text \<open>\<open>mDtlsSession\<close> is null or a session of the server that has not ended.\<close>

definition pointer_ok :: "joiner_system \<Rightarrow> bool" where
  "pointer_ok sys \<longleftrightarrow> (\<forall>a. mDtlsSession (snd sys) = Some a \<longrightarrow>
     (\<exists>s. session_at a (fst sys) = Some s \<and> mState s \<noteq> kStateError \<and> mState s \<noteq> kStateEnd))"

definition joiner_inv :: "joiner_system \<Rightarrow> bool" where
  "joiner_inv sys \<longleftrightarrow> server_inv (fst sys) \<and> pointer_ok sys"

text \<open>
  Answers with which every loop of \<open>Process\<close> ends and no system call is fatal, and messages that
  fit the packet of the agent.
\<close>

definition env_ok :: "ssl_ret list \<Rightarrow> dtls_env \<Rightarrow> bool" where
  "env_ok rets env \<longleftrightarrow> (\<exists>r\<in>set rets. \<not> is_want r)
     \<and> (\<forall>a. \<exists>r\<in>set (env_read env a). \<forall>w. r = ReadRet w \<longrightarrow> \<not> is_want w)
     \<and> (\<forall>a bs. ReadData bs \<in> set (env_read env a) \<longrightarrow> length bs \<le> MAX_COAP_PACKET)
     \<and> (env_recv env \<and> env_dst env \<longrightarrow> env_init env) \<and> env_bind_fd env \<noteq> -1 \<and> env_bind_ok env"

definition joiner_good :: "dtls_env \<Rightarrow> joiner_system \<Rightarrow> bool" where
  "joiner_good env sys \<longleftrightarrow> joiner_inv sys
     \<and> (\<forall>b. mDtlsSession (snd sys) = Some b \<longrightarrow> \<not> handshake_fails env b)"

definition yields :: "dtls_env \<Rightarrow> joiner_system \<Rightarrow> joiner_system res \<Rightarrow> bool" where
  "yields env sys r \<longleftrightarrow> (\<exists>sys'. r = Ok sys' \<and> joiner_good env sys'
     \<and> map mAddress (mSessions (fst sys')) = map mAddress (mSessions (fst sys)))"

lemma yields_Ok: "yields env sys (Ok sys') \<longleftrightarrow> joiner_good env sys'
    \<and> map mAddress (mSessions (fst sys')) = map mAddress (mSessions (fst sys))"
  by (simp add: yields_def)

lemma yields_trans: "yields env sys1 r \<Longrightarrow> map mAddress (mSessions (fst sys1)) = map mAddress (mSessions (fst sys))
    \<Longrightarrow> yields env sys r"
  by (auto simp: yields_def)

lemma yields_rbind:
  "yields env sys m \<Longrightarrow> (\<And>sys1. joiner_good env sys1 \<Longrightarrow>
     map mAddress (mSessions (fst sys1)) = map mAddress (mSessions (fst sys)) \<Longrightarrow> yields env sys1 (f sys1))
   \<Longrightarrow> yields env sys (rbind m f)"
  by (fastforce simp: yields_def)

lemma session_at_None: "session_at a srv = None \<longleftrightarrow> \<not> live a srv"
  by (auto simp: session_at_def find_None_iff live_def)

lemma session_at_live: "live a srv \<longleftrightarrow> (\<exists>s. session_at a srv = Some s)"
  using session_at_None [of a srv] by (cases "session_at a srv") auto

lemma session_at_mem: "session_at a srv = Some s \<Longrightarrow> s \<in> set (mSessions srv) \<and> mAddress s = a"
  by (auto simp: session_at_def find_Some_iff)

lemma live_addresses: "live a srv \<longleftrightarrow> a \<in> set (map mAddress (mSessions srv))"
  by (simp add: live_def)

lemma on_session_facts [simp]:
  assumes "\<And>s. mAddress (f s) = mAddress s"
  shows "map mAddress (mSessions (on_session a f srv)) = map mAddress (mSessions srv)"
  using assms by (simp add: on_session_def)

lemma live_on_session [simp]: "(\<And>s. mAddress (f s) = mAddress s) \<Longrightarrow> live b (on_session a f srv) = live b srv"
  unfolding live_addresses by simp

lemma on_session_fields [simp]:
  "mFresh (on_session a f srv) = mFresh srv" "mExportTo (on_session a f srv) = mExportTo srv"
  by (simp_all add: on_session_def)

lemma on_session_inv:
  assumes "server_inv srv" and "\<And>s. mAddress (f s) = mAddress s"
    and "\<And>s. mState s = kStateReady \<longrightarrow> mDataHandler s \<Longrightarrow> mState (f s) = kStateReady \<longrightarrow> mDataHandler (f s)"
  shows "server_inv (on_session a f srv)"
proof -
  have "live e (on_session a f srv) = live e srv" for e
    unfolding live_addresses using assms(2) by simp
  moreover have "\<forall>s\<in>set (mSessions (on_session a f srv)).
      mAddress s < mFresh srv \<and> (mState s = kStateReady \<longrightarrow> mDataHandler s)"
    using assms by (auto simp: on_session_def server_inv_def)
  ultimately show ?thesis using assms(1,2) by (simp add: server_inv_def)
qed

lemma good_on_session:
  assumes "joiner_good env sys" and "\<And>s. mAddress (f s) = mAddress s" and "\<And>s. mState (f s) = mState s"
    and "\<And>s. mDataHandler s \<Longrightarrow> mDataHandler (f s)"
  shows "joiner_good env (on_session a f (fst sys), snd sys)"
proof -
  have "server_inv (on_session a f (fst sys))"
    using assms by (intro on_session_inv) (auto simp: joiner_good_def joiner_inv_def)
  moreover have "pointer_ok (on_session a f (fst sys), snd sys)"
    using assms by (auto simp: joiner_good_def joiner_inv_def pointer_ok_def session_at_on_session)
  ultimately show ?thesis using assms(1) by (simp add: joiner_good_def joiner_inv_def)
qed

lemma SetState_yields:
  assumes good: "joiner_good env sys" and "live a (fst sys)" and "st = kStateReady \<longrightarrow> \<not> handshake_fails env a"
  shows "yields env sys (ses_SetState HandleSessionChange a st sys)"
proof -
  obtain s where s: "session_at a (fst sys) = Some s" using assms(2) session_at_live by blast
  let ?srv = "on_session a (\<lambda>s. s\<lparr>mState := st\<rparr>) (fst sys)"
  let ?sys = "HandleSessionChange a st (?srv, snd sys)"
  have inv: "server_inv (fst sys)" and ptr: "pointer_ok sys" using good by (simp_all add: joiner_good_def joiner_inv_def)
  have srv: "fst ?sys = (if st = kStateReady
      then on_session a (\<lambda>s. s\<lparr>mState := kStateReady, mDataHandler := True\<rparr>) (fst sys) else ?srv)"
    by (cases st) (auto simp: HandleSessionChange_def ses_SetDataHandler_def on_session_def)
  have "server_inv (fst ?sys)" unfolding srv using inv by (auto intro!: on_session_inv)
  moreover have "pointer_ok ?sys"
    using ptr s srv
    by (cases st) (auto simp: pointer_ok_def HandleSessionChange_def ses_SetDataHandler_def session_at_on_session)
  moreover have "\<forall>b. mDtlsSession (snd ?sys) = Some b \<longrightarrow> \<not> handshake_fails env b"
    using good assms(3) by (cases st) (auto simp: joiner_good_def HandleSessionChange_def)
  moreover have "map mAddress (mSessions (fst ?sys)) = map mAddress (mSessions (fst sys))"
    unfolding srv by simp
  ultimately show ?thesis
    using s by (simp add: ses_SetState_def with_session_def yields_Ok joiner_good_def joiner_inv_def)
qed

lemma ssl_retry_ok: "\<exists>r\<in>set rets. \<not> is_want r \<Longrightarrow> \<exists>r. ssl_retry rets = Ok r"
  by (induction rets) auto

lemma SendCoap_ok:
  assumes good: "joiner_good env sys" and "\<exists>r\<in>set rets. \<not> is_want r"
  shows "\<exists>n sys'. joiner_SendCoap rets out sys = Ok (n, sys') \<and> yields env sys (Ok sys')"
proof (cases "mDtlsSession (snd sys)")
  case None
  with good show ?thesis by (simp add: joiner_SendCoap_def yields_Ok)
next
  case (Some a)
  with good obtain s where s: "session_at a (fst sys) = Some s"
    by (auto simp: joiner_good_def joiner_inv_def pointer_ok_def)
  obtain r where r: "ssl_retry rets = Ok r" using ssl_retry_ok [OF assms(2)] by blast
  have "yields env sys (ses_SetState HandleSessionChange a kStateError sys)"
    using good s session_at_live by (intro SetState_yields) auto
  then obtain sys' where sys': "ses_SetState HandleSessionChange a kStateError sys = Ok sys'" "yields env sys (Ok sys')"
    by (auto simp: yields_def)
  have w: "joiner_SendCoap rets out sys = (if r = SslOk then Ok (int (length out), sys) else Ok (-1, sys'))"
    using Some s r sys'(1) by (simp add: joiner_SendCoap_def ses_Write_def with_session_def)
  show ?thesis
    unfolding w using good sys'(2) by (cases "r = SslOk") (simp_all add: yields_Ok)
qed

lemma good_kek_flag: "joiner_good env (srv, js\<lparr>mNeedAppendKek := b\<rparr>) = joiner_good env (srv, js)"
  by (simp add: joiner_good_def joiner_inv_def pointer_ok_def)

lemma HandleRequest_joiner:
  "HandleRequest HandleJoinerFinalize req resp joiner_agent js =
     (if cm_path req = OT_URI_PATH_JOINER_FINALIZE
      then Ok (msg_SetPayload (tlvs_bytes [WTlv kState False [1], WTlv kUdpEncapsulation False kTestString])
                 (msg_SetCode kCodeChanged resp), js\<lparr>mNeedAppendKek := True\<rparr>)
      else Ok (resp, js))"
  by (auto simp: HandleRequest_def joiner_agent_def AddResource_def new_AgentLibcoap_def HandleJoinerFinalize_def
      finalize_payload_bytes msg_SetCode_def)

lemma joiner_message_yields:
  assumes good: "joiner_good env sys" and rets: "\<exists>r\<in>set rets. \<not> is_want r"
  shows "yields env sys (joiner_message lib rets bs sys)"
proof (cases "lib_parse lib bs")
  case None
  with good show ?thesis by (simp add: joiner_message_def yields_Ok)
next
  case (Some req)
  define resp where "resp = NewMessage (cm_id req) kTypeAcknowledgment kCodeEmpty (cm_token req)"
  define b where "b \<longleftrightarrow> cm_code req = kCodePost \<and> cm_path req = OT_URI_PATH_JOINER_FINALIZE"
  define resp' where "resp' = (if b then msg_SetPayload
      (tlvs_bytes [WTlv kState False [1], WTlv kUdpEncapsulation False kTestString]) (msg_SetCode kCodeChanged resp)
    else resp)"
  have r: "(if cm_code req = kCodePost then HandleRequest HandleJoinerFinalize req resp joiner_agent (snd sys)
      else Ok (resp, snd sys)) = Ok (resp', if b then (snd sys)\<lparr>mNeedAppendKek := True\<rparr> else snd sys)"
    by (simp add: HandleRequest_joiner b_def resp'_def)
  let ?sys = "(fst sys, if b then (snd sys)\<lparr>mNeedAppendKek := True\<rparr> else snd sys)"
  have g: "joiner_good env ?sys" using good by (simp add: good_kek_flag)
  show ?thesis
  proof (cases "lib_reply lib req resp'")
    case None
    with Some r g show ?thesis by (simp add: joiner_message_def resp_def [symmetric] Let_def yields_Ok)
  next
    case (Some out)
    from SendCoap_ok [OF g rets] obtain n sys' where "NetworkSend (joiner_SendCoap rets) out ?sys = Ok (n, sys')"
      "yields env ?sys (Ok sys')" unfolding NetworkSend_def by blast
    with Some r \<open>lib_parse lib bs = Some req\<close> show ?thesis
      by (simp add: joiner_message_def resp_def [symmetric] Let_def yields_Ok)
  qed
qed

lemma FeedCoap_yields:
  assumes "joiner_good env sys" and "\<exists>r\<in>set rets. \<not> is_want r" and "length bs \<le> MAX_COAP_PACKET"
  shows "yields env sys (FeedCoap lib rets a bs sys)"
  using joiner_message_yields [OF assms(1,2)] assms(3) by (simp add: FeedCoap_def coap_Input_def)

lemma Read_yields:
  assumes good: "joiner_good env sys" and rets: "\<exists>r\<in>set rets. \<not> is_want r"
    and a: "session_at a (fst sys) = Some s" "mDataHandler s"
  shows "\<exists>r\<in>set reads. \<forall>w. r = ReadRet w \<longrightarrow> \<not> is_want w \<Longrightarrow>
    (\<And>bs. ReadData bs \<in> set reads \<Longrightarrow> length bs \<le> MAX_COAP_PACKET) \<Longrightarrow>
    yields env sys (ses_Read HandleSessionChange (FeedCoap lib rets) a reads sys)"
proof (induction reads)
  case Nil
  then show ?case by simp
next
  case (Cons r reads)
  have "live a (fst sys)" using a(1) session_at_live by blast
  show ?case
  proof (cases r)
    case (ReadData bs)
    with a FeedCoap_yields [OF good rets] Cons.prems(2) show ?thesis by (simp add: with_session_def)
  next
    case (ReadRet w)
    show ?thesis
    proof (cases "is_want w")
      case True
      with ReadRet Cons show ?thesis by auto
    next
      case False
      with ReadRet good SetState_yields [OF good \<open>live a (fst sys)\<close>] show ?thesis
        by (cases w) (auto simp: read_failed_def yields_Ok)
    qed
  qed
qed

lemma Handshake_yields:
  assumes good: "joiner_good env sys" and "live a (fst sys)"
  shows "yields env sys (ses_Handshake HandleSessionChange a (fst (env_handshake env a)) sys)"
proof -
  obtain s where s: "session_at a (fst sys) = Some s" using assms(2) session_at_live by blast
  let ?sys = "(on_session a (\<lambda>s. s\<lparr>mState := kStateError\<rparr>) (fst sys), snd sys)"
  have "joiner_good env ?sys" if "handshake_fails env a"
  proof -
    have "mDtlsSession (snd sys) \<noteq> Some a" using good that by (auto simp: joiner_good_def)
    then have "pointer_ok ?sys"
      using good by (auto simp: joiner_good_def joiner_inv_def pointer_ok_def session_at_on_session)
    moreover have "server_inv (fst ?sys)"
      using good by (auto intro!: on_session_inv simp: joiner_good_def joiner_inv_def)
    ultimately show ?thesis using good by (simp add: joiner_good_def joiner_inv_def)
  qed
  moreover have "fst (env_handshake env a) = SslOk \<Longrightarrow>
      yields env sys (ses_SetState HandleSessionChange a kStateReady sys)"
    using good assms(2) by (intro SetState_yields) (simp_all add: handshake_fails_def)
  ultimately show ?thesis
    using good s by (auto simp: ses_Handshake_def with_session_def yields_Ok handshake_fails_def)
qed

lemma export_keys_good:
  assumes good: "joiner_good env (srv, js)"
  shows "\<exists>srv'. export_keys key srv = Ok srv' \<and> yields env (srv, js) (Ok (srv', js))
    \<and> (\<forall>a. live a srv \<longrightarrow> live a srv')"
proof (cases "key = None \<or> mExportTo srv = None")
  case True
  with good show ?thesis by (auto simp: export_keys_def yields_Ok split: option.splits)
next
  case False
  then obtain k e where k: "key = Some k" "mExportTo srv = Some e" by auto
  let ?f = "\<lambda>s. s\<lparr>mKek := Some k\<rparr>"
  have "live e srv" using good k(2) by (simp add: joiner_good_def joiner_inv_def server_inv_def)
  then have "export_keys key srv = Ok (on_session e ?f srv)"
    using k by (auto simp: export_keys_def with_session_def session_at_live)
  moreover have "joiner_good env (on_session e ?f srv, js)" using good_on_session [OF good, of ?f] by simp
  ultimately show ?thesis by (simp add: yields_Ok)
qed

lemma ses_Process_yields:
  assumes good: "joiner_good env sys" and ok: "env_ok rets env" and a: "live a (fst sys)"
  shows "yields env sys (ses_Process HandleSessionChange (FeedCoap lib rets) env a sys)"
proof -
  let ?exp = "\<lambda>s. s\<lparr>mExpiration := env_now env + kSessionTimeout\<rparr>"
  define srv1 where "srv1 = on_session a ?exp (fst sys)"
  have rets: "\<exists>r\<in>set rets. \<not> is_want r" using ok by (simp add: env_ok_def)
  obtain s where s: "session_at a (fst sys) = Some s" using a session_at_live by blast
  have g1: "joiner_good env (srv1, snd sys)" unfolding srv1_def using good by (intro good_on_session) auto
  have ad: "map mAddress (mSessions srv1) = map mAddress (mSessions (fst sys))" by (simp add: srv1_def)
  have s1: "session_at a srv1 = Some (?exp s)" using s by (simp add: srv1_def session_at_on_session)
  show ?thesis
  proof (cases "mState s")
    case kStateHandshaking
    obtain ret fd key where h: "env_handshake env a = (ret, fd, key)" by (cases "env_handshake env a")
    define srv2 where "srv2 = (case fd of None \<Rightarrow> srv1 | Some fd' \<Rightarrow> on_session a (ses_SendMbedtls fd') srv1)"
    have g2: "joiner_good env (srv2, snd sys)"
      using g1 good_on_session [OF g1] by (auto simp: srv2_def ses_SendMbedtls_def split: option.splits)
    have ad2: "map mAddress (mSessions srv2) = map mAddress (mSessions (fst sys))"
      using ad by (simp add: srv2_def split: option.splits)
    obtain srv3 where e: "export_keys key srv2 = Ok srv3" "yields env (srv2, snd sys) (Ok (srv3, snd sys))"
      using export_keys_good [OF g2] by blast
    have "live a srv3" using a e(2) ad2 by (simp add: yields_Ok live_addresses)
    then have "yields env (srv3, snd sys) (ses_Handshake HandleSessionChange a ret (srv3, snd sys))"
      using Handshake_yields [of env "(srv3, snd sys)" a] e(2) h by (simp add: yields_Ok)
    then have "yields env sys (ses_Handshake HandleSessionChange a ret (srv3, snd sys))"
      using e(2) ad2 by (auto elim!: yields_trans simp: yields_Ok)
    then show ?thesis
      using s h e(1) kStateHandshaking
      by (simp add: ses_Process_def with_session_def srv1_def [symmetric] srv2_def [symmetric])
  next
    case kStateReady
    then have "mDataHandler s"
      using good session_at_mem [OF s] by (auto simp: joiner_good_def joiner_inv_def server_inv_def)
    then have "yields env (srv1, snd sys)
        (ses_Read HandleSessionChange (FeedCoap lib rets) a (env_read env a) (srv1, snd sys))"
      using Read_yields [OF g1 rets, of a "?exp s" "env_read env a" lib] s1 ok by (simp add: env_ok_def)
    then have "yields env sys
        (ses_Read HandleSessionChange (FeedCoap lib rets) a (env_read env a) (srv1, snd sys))"
      using ad by (auto elim!: yields_trans)
    then show ?thesis
      using s kStateReady by (simp add: ses_Process_def with_session_def srv1_def [symmetric])
  qed (use s g1 ad in \<open>simp_all add: ses_Process_def with_session_def srv1_def [symmetric] yields_Ok\<close>)
qed

lemma process_ready_yields:
  assumes "joiner_good env sys" and "env_ok rets env" and "live a (fst sys)"
  shows "yields env sys (process_ready HandleSessionChange (FeedCoap lib rets) env a sys)"
  using assms ses_Process_yields [OF assms] session_at_live [of a "fst sys"]
  by (auto simp: process_ready_def with_session_def yields_Ok)

lemma process_all_yields:
  "joiner_good env sys \<Longrightarrow> env_ok rets env \<Longrightarrow> set as \<subseteq> set (map mAddress (mSessions (fst sys))) \<Longrightarrow>
     yields env sys (fold_res (process_ready HandleSessionChange (FeedCoap lib rets) env) as sys)"
proof (induction as arbitrary: sys)
  case Nil
  then show ?case by (simp add: yields_Ok)
next
  case (Cons a as)
  have "yields env sys (process_ready HandleSessionChange (FeedCoap lib rets) env a sys)"
    using Cons.prems by (intro process_ready_yields) (auto simp: live_addresses)
  then obtain sys1 where "process_ready HandleSessionChange (FeedCoap lib rets) env a sys = Ok sys1"
    "joiner_good env sys1" "map mAddress (mSessions (fst sys1)) = map mAddress (mSessions (fst sys))"
    by (auto simp: yields_def)
  with Cons.IH [of sys1] Cons.prems show ?case by (auto simp: yields_def)
qed

lemma accept_good:
  assumes good: "joiner_good env sys"
  shows "joiner_good env (srv_accept (fst sys), snd sys)" and "live (mFresh (fst sys)) (srv_accept (fst sys))"
proof -
  have new: "mAddress (new_session (fst sys)) = mFresh (fst sys)" "mState (new_session (fst sys)) = kStateHandshaking"
    by (simp_all add: new_session_def)
  have "server_inv (fst sys)" and ptr: "pointer_ok sys" using good by (simp_all add: joiner_good_def joiner_inv_def)
  then have "server_inv (srv_accept (fst sys))"
    using new by (fastforce simp: server_inv_def live_def srv_accept_def)
  moreover have "session_at b (srv_accept (fst sys)) = Some s" if "session_at b (fst sys) = Some s" for b s
    using that by (simp add: session_at_def find_append srv_accept_def)
  then have "pointer_ok (srv_accept (fst sys), snd sys)" using ptr by (fastforce simp: pointer_ok_def)
  ultimately show "joiner_good env (srv_accept (fst sys), snd sys)" using good
    by (simp add: joiner_good_def joiner_inv_def)
  show "live (mFresh (fst sys)) (srv_accept (fst sys))" using new by (simp add: live_def srv_accept_def)
qed

lemma ProcessServer_ok:
  assumes good: "joiner_good env sys" and ok: "env_ok rets env"
  shows "\<exists>sys'. srv_ProcessServer HandleSessionChange (FeedCoap lib rets) env sys = Ok sys' \<and> joiner_good env sys'"
proof -
  let ?acc = "(srv_accept (fst sys), snd sys)"
  have "yields env ?acc (ses_Process HandleSessionChange (FeedCoap lib rets) env (mFresh (fst sys)) ?acc)"
    using accept_good [OF good] ok by (intro ses_Process_yields) simp_all
  then obtain sys2 where p: "ses_Process HandleSessionChange (FeedCoap lib rets) env (mFresh (fst sys)) ?acc = Ok sys2"
    "joiner_good env sys2" unfolding yields_def by blast
  have rebind: "joiner_good env ((fst sys)\<lparr>mSocket := fd\<rparr>, snd sys)" for fd
    using good by (simp add: joiner_good_def joiner_inv_def server_inv_def pointer_ok_def session_at_def live_def)
  consider "\<not> mSocket (fst sys) \<ge> 0 \<or> mSocket (fst sys) \<notin> env_readable env"
    | "mSocket (fst sys) \<ge> 0 \<and> mSocket (fst sys) \<in> env_readable env" "\<not> env_recv env \<or> \<not> env_dst env"
    | "mSocket (fst sys) \<ge> 0 \<and> mSocket (fst sys) \<in> env_readable env" "env_recv env \<and> env_dst env"
    by blast
  then show ?thesis
  proof cases
    case 1
    with good show ?thesis by (simp only: srv_ProcessServer_def Let_def if_True) blast
  next
    case 2
    with ok rebind show ?thesis by (simp add: srv_ProcessServer_def srv_rebind_def srv_Bind_def env_ok_def)
  next
    case 3
    with ok p show ?thesis by (simp add: srv_ProcessServer_def env_ok_def)
  qed
qed

lemma Process_ok:
  assumes "joiner_good env sys" and "env_ok rets env"
  shows "\<exists>sys'. joiner_Process lib rets env sys = Ok sys' \<and> joiner_good env sys'"
proof -
  obtain sys1 where "fold_res (process_ready HandleSessionChange (FeedCoap lib rets) env)
      (map mAddress (mSessions (fst sys))) sys = Ok sys1" "joiner_good env sys1"
    using process_all_yields [OF assms, of "map mAddress (mSessions (fst sys))" lib] unfolding yields_def by blast
  with ProcessServer_ok [OF _ assms(2)] show ?thesis by (fastforce simp: joiner_Process_def srv_Process_def)
qed

text \<open>Deleting a session that has not ended reports the end of it first.\<close>

lemma HandleSessionChange_expired [simp]: "HandleSessionChange a kStateExpired sys = sys"
  by (simp add: HandleSessionChange_def)

lemma delete_pointer:
  assumes "pointer_ok sys" and "srv_delete HandleSessionChange env a sys = Ok sys'"
  shows "pointer_ok sys'"
proof -
  obtain sys1 where c: "ses_Close HandleSessionChange (env_close env a) a sys = Ok sys1"
    and sys': "sys' = ((fst sys1)\<lparr>mSessions := filter (\<lambda>s. mAddress s \<noteq> a) (mSessions (fst sys1))\<rparr>, snd sys1)"
    using assms(2) by (auto simp: srv_delete_def rbind_eq_Ok)
  obtain s where s: "session_at a (fst sys) = Some s" and
    c1: "if mState s = kStateError \<or> mState s = kStateEnd then sys1 = sys else mDtlsSession (snd sys1) = None"
    using c by (auto simp: ses_Close_def ses_SetState_def with_session_def HandleSessionChange_def rbind_eq_Ok
        split: option.splits if_splits)
  have at: "session_at b (fst sys') = session_at b (fst sys1)" if "b \<noteq> a" for b
    using that unfolding sys' session_at_def by (simp add: find_filter_other)
  show ?thesis
  proof (cases "mState s = kStateError \<or> mState s = kStateEnd")
    case True
    with c1 have "sys1 = sys" by simp
    moreover have "mDtlsSession (snd sys) \<noteq> Some a" using assms(1) s True by (auto simp: pointer_ok_def)
    ultimately show ?thesis using assms(1) at by (fastforce simp: pointer_ok_def sys')
  next
    case False
    with c1 show ?thesis by (simp add: pointer_ok_def sys')
  qed
qed

text \<open>The destructor ends every session, and none is left.\<close>

lemma srv_delete_ok:
  assumes "closes env" and "live a (fst sys)"
  shows "\<exists>sys'. srv_delete HandleSessionChange env a sys = Ok sys'
    \<and> map mAddress (mSessions (fst sys')) = filter (\<lambda>b. b \<noteq> a) (map mAddress (mSessions (fst sys)))"
proof -
  obtain s where s: "session_at a (fst sys) = Some s" using assms(2) session_at_live by blast
  have "close_retry (env_close env a) = Ok ()" using assms(1) close_retry_ok by (simp add: closes_def)
  with s show ?thesis
    by (auto simp: srv_delete_def ses_Close_def with_session_def ses_SetState_def HandleSessionChange_def on_session_def
        filter_map comp_def if_distrib)
qed

lemma joiner_destroy_ok:
  assumes "closes env" and "distinct (map mAddress (mSessions (fst sys)))"
  shows "\<exists>sys'. joiner_destroy env sys = Ok sys' \<and> mSessions (fst sys') = []"
proof -
  have "distinct as \<Longrightarrow> set as \<subseteq> set (map mAddress (mSessions (fst sys)))
      \<Longrightarrow> \<exists>sys'. fold_res (srv_delete HandleSessionChange env) as sys = Ok sys'
            \<and> map mAddress (mSessions (fst sys')) = filter (\<lambda>b. b \<notin> set as) (map mAddress (mSessions (fst sys)))" for as sys
  proof (induction as arbitrary: sys)
    case Nil
    then show ?case by simp
  next
    case (Cons a as)
    then have "live a (fst sys)" by (auto simp: live_def)
    from srv_delete_ok [OF assms(1) this] obtain sys1 where s1: "srv_delete HandleSessionChange env a sys = Ok sys1"
      "map mAddress (mSessions (fst sys1)) = filter (\<lambda>b. b \<noteq> a) (map mAddress (mSessions (fst sys)))" by blast
    have "distinct as" "set as \<subseteq> set (map mAddress (mSessions (fst sys1)))" using Cons.prems unfolding s1(2) by auto
    from Cons.IH [OF this] s1 show ?case by (auto simp: filter_filter conj_commute intro: filter_cong)
  qed
  from this [OF assms(2) order_refl] show ?thesis by (auto simp: joiner_destroy_def srv_destroy_def filter_empty_conv)
qed

lemma update_pointer:
  "pointer_ok (fst st) \<Longrightarrow> fold_res (update_session HandleSessionChange env) as st = Ok st' \<Longrightarrow> pointer_ok (fst st')"
proof (induction as arbitrary: st)
  case Nil
  then show ?case by simp
next
  case (Cons a as)
  obtain st1 where st1: "update_session HandleSessionChange env a st = Ok st1"
    "fold_res (update_session HandleSessionChange env) as st1 = Ok st'"
    using Cons.prems(2) by (auto simp: rbind_eq_Ok)
  have "pointer_ok (fst st1)"
    using st1(1) Cons.prems(1) delete_pointer [of "fst st" env a]
    by (cases st) (auto simp: update_session_def with_session_def map_res_eq_Ok Let_def
        split: option.splits if_splits)
  with Cons.IH st1(2) show ?case by blast
qed

lemma UpdateFdSet_pointer:
  assumes "closes env" and "distinct (map mAddress (mSessions (fst sys)))" and "pointer_ok sys"
  shows "\<exists>sys' r. joiner_UpdateFdSet env fds maxfd tv sys = Ok (sys', r) \<and> pointer_ok sys'"
proof -
  obtain sys' r where u: "joiner_UpdateFdSet env fds maxfd tv sys = Ok (sys', r)"
    using joiner_observer.UpdateFdSet_cores [OF assms(1,2), of fds maxfd tv]
    unfolding joiner_UpdateFdSet_def Let_def by blast
  then obtain fr where "fold_res (update_session HandleSessionChange env) (map mAddress (mSessions (fst sys)))
      (sys, \<lparr>fr_read = fds, fr_max = maxfd, fr_timeout = GetTimestamp tv\<rparr>) = Ok (sys', fr)"
    by (auto simp: joiner_UpdateFdSet_def srv_UpdateFdSet_def rbind_eq_Ok Let_def)
  from update_pointer [OF _ this] assms(3) have "pointer_ok sys'" by simp
  with u show ?thesis by blast
qed

lemma SendCoap_total:
  assumes "pointer_ok sys" and "\<exists>r\<in>set rets. \<not> is_want r"
  shows "\<exists>n sys'. joiner_SendCoap rets out sys = Ok (n, sys')"
  using assms ssl_retry_ok [OF assms(2)]
  by (auto simp: joiner_SendCoap_def ses_Write_def with_session_def pointer_ok_def ses_SetState_def
      split: option.splits)

definition session_next :: "session_state \<Rightarrow> ssl_ret \<Rightarrow> ssl_ret \<Rightarrow> session_state" where
  "session_next st hret rret =
     (case st of
        kStateHandshaking \<Rightarrow>
          if hret = SslOk then kStateReady else if is_want hret then kStateHandshaking else kStateError
      | kStateReady \<Rightarrow>
          (case rret of
             SslOk \<Rightarrow> kStateClose | PeerCloseNotify \<Rightarrow> kStateClose | ClientReconnect \<Rightarrow> kStateHandshaking
           | SslTimeout \<Rightarrow> kStateReady | _ \<Rightarrow> kStateError)
      | _ \<Rightarrow> st)"

lemma session_next_edge: "session_next st hret rret = st \<or> session_edge st (session_next st hret rret)"
  by (cases st; cases rret) (auto simp: session_next_def session_edge_simps)

lemma SetPSK_eq:
  "joiner_SetPSK psk sys =
    (let n = length psk mod 256 in
     if n = 0 then Fault AssertFail
     else if n \<le> 32 then Ok ((fst sys)\<lparr>mPSK := take n (bytes_of_string psk)\<rparr>, snd sys)
     else Ok sys)"
proof -
  have n: "unat (word_of_nat (length psk) :: byte) = length psk mod 256"
    by (simp add: unat_of_nat)
  have z: "(0 :: byte) < word_of_nat (length psk) \<longleftrightarrow> length psk mod 256 \<noteq> 0"
    using n unat_eq_zero [of "word_of_nat (length psk) :: byte"] by (simp only: word_gt_0) auto
  have "length psk mod 256 \<le> length (bytes_of_string psk)" by (simp add: bytes_of_string_def)
  then show ?thesis
    using n z by (cases sys) (auto simp: joiner_SetPSK_def srv_SetPSK_def kMaxSizeOfPSK_def read_bytes_def guard_def Let_def)
qed

section \<open>Properties\<close>


definition idle_env :: dtls_env where
  "idle_env = \<lparr>env_now = 1000, env_readable = {5}, env_handshake = (\<lambda>_. (SslOk, None, None)),
     env_read = (\<lambda>_. [ReadRet SslTimeout]), env_close = (\<lambda>_. [SslOk]), env_recv = True, env_dst = True,
     env_init = True, env_bind_fd = 5, env_bind_ok = True\<rparr>"

definition idle_system :: joiner_system where
  "idle_system = ((new_MbedtlsServer kPortJoinerSession)\<lparr>mSocket := 5, mPSK := [1]\<rparr>,
     \<lparr>js_mKek = None, mDtlsSession = None, mNeedAppendKek = False\<rparr>)"

definition null_lib :: coap_lib where
  "null_lib = \<lparr>lib_parse = (\<lambda>_. None), lib_reply = (\<lambda>_ _. None)\<rparr>"

lemma idle_facts: "joiner_inv idle_system" "env_ok [SslOk] idle_env" "closes idle_env" "mDtlsSession (snd idle_system) = None"
  by (simp_all add: joiner_inv_def server_inv_def pointer_ok_def idle_system_def new_MbedtlsServer_def env_ok_def
      idle_env_def closes_def)



definition one_session :: "session_state \<Rightarrow> joiner_system" where
  "one_session st = ((srv_accept (fst idle_system))\<lparr>mSessions := [(new_session (fst idle_system))\<lparr>mState := st,
     mDataHandler := True\<rparr>]\<rparr>, (snd idle_system)\<lparr>mDtlsSession := Some 0\<rparr>)"


text \<open>
  C31: the key relayed to the joiner's router is the one its handshake exported only while that
  session is the one registered last: the callback of the shared configuration stores the key
  of an earlier joiner's handshake in the session accepted last, and \<open>JoinerSession\<close> copies
  what was in the right session before.
\<close>

theorem joiner_kek_exported:
  assumes "session_at a srv = Some s" and "mState s = kStateHandshaking"
    and "env_handshake env a = (SslOk, None, Some kek)" and "mExportTo srv = Some e" and "live e srv"
  shows "\<exists>srv' js'. ses_Process HandleSessionChange feed env a (srv, js) = Ok (srv', js')
    \<and> mDtlsSession js' = Some a
    \<and> js_mKek js' = (if e = a then Some kek else mKek s)
    \<and> map_option mKek (session_at e srv') = Some (Some kek)"
proof -
  obtain se where "session_at e srv = Some se" using assms(5) session_at_live by blast
  with assms(1-4) show ?thesis
    by (auto simp: ses_Process_def with_session_def export_keys_def ses_Handshake_def ses_SetState_def
        HandleSessionChange_def ses_SetDataHandler_def session_at_on_session)
qed

theorem joiner_kek_exported_witness:
  "\<exists>srv' js'. ses_Process HandleSessionChange (FeedCoap null_lib [SslOk])
        (idle_env\<lparr>env_handshake := \<lambda>_. (SslOk, None, Some [7])\<rparr>) 0 (one_session kStateHandshaking) = Ok (srv', js')
    \<and> js_mKek js' = Some [7]"
  using joiner_kek_exported [of 0 "fst (one_session kStateHandshaking)"
      "(new_session (fst idle_system))\<lparr>mState := kStateHandshaking, mDataHandler := True\<rparr>"
      "idle_env\<lparr>env_handshake := \<lambda>_. (SslOk, None, Some [7])\<rparr>" "[7]" 0 "FeedCoap null_lib [SslOk]"
      "snd (one_session kStateHandshaking)"]
  by (simp add: one_session_def new_session_def idle_system_def new_MbedtlsServer_def idle_env_def session_at_def
      srv_accept_def live_def) blast

text \<open>
  C17: \<open>UpdateFdSet\<close> deletes exactly the sessions that have expired or are neither handshaking nor
  ready, asks to read on the sockets of the others and of the server, raises the maximum
  descriptor to cover them, and shortens the timeout to the time left to the earliest
  expiration but never extends it.
\<close>

theorem joiner_update_fd_set:
  assumes "closes env" and "distinct (map mAddress (mSessions srv))"
    and "\<forall>c\<in>set (cores srv). core_left (env_now env) c < 2 ^ 62" and "unat (GetTimestamp tv) < 2 ^ 62"
    and "kept = filter (pending_core (env_now env)) (cores srv)"
  shows "\<exists>sys' fds' maxfd' t.
    joiner_UpdateFdSet env fds maxfd tv (srv, js) = Ok (sys', fds', maxfd', to_timeval t)
    \<and> cores (fst sys') = kept
    \<and> fds' = fds \<union> (\<lambda>c. fst (snd c)) ` set kept \<union> (if mSocket srv \<ge> 0 then {mSocket srv} else {})
    \<and> (\<forall>c\<in>set kept. fst (snd c) \<le> maxfd') \<and> maxfd \<le> maxfd'
    \<and> unat t = fold (\<lambda>c t. min t (core_left (env_now env) c)) kept (unat (GetTimestamp tv))"
proof -
  let ?init = "\<lparr>fr_read = fds, fr_max = maxfd, fr_timeout = GetTimestamp tv\<rparr>"
  let ?fr = "fold (request_core (env_now env)) kept ?init"
  have prem: "\<forall>c\<in>set kept. pending_core (env_now env) c \<and> core_left (env_now env) c < 2 ^ 62"
    using assms(3,5) by simp
  have "unat (fr_timeout ?init) < 2 ^ 62" using assms(4) by simp
  note fold = fold_request [OF prem this]
  have fr: "fr_read ?fr = fds \<union> (\<lambda>c. fst (snd c)) ` set kept"
    "fr_max ?fr = fold (\<lambda>c m. max m (fst (snd c))) kept maxfd"
    "unat (fr_timeout ?fr) = fold (\<lambda>c t. min t (core_left (env_now env) c)) kept (unat (GetTimestamp tv))"
    using fold by simp_all
  have max: "maxfd \<le> fold (\<lambda>c m. max m (fst (snd c))) cs maxfd
      \<and> (\<forall>c\<in>set cs. fst (snd c) \<le> fold (\<lambda>c m. max m (fst (snd c))) cs maxfd)"
    for cs :: "(nat \<times> int \<times> session_state \<times> u64) list"
    by (induction cs rule: rev_induct) auto
  let ?max = "if mSocket srv \<ge> 0 then max (fr_max ?fr) (mSocket srv) else fr_max ?fr"
  let ?fds = "if mSocket srv \<ge> 0 then insert (mSocket srv) (fr_read ?fr) else fr_read ?fr"
  obtain sys' where u: "cores (fst sys') = kept"
    "joiner_UpdateFdSet env fds maxfd tv (srv, js) = Ok (sys', ?fds, ?max, to_timeval (fr_timeout ?fr))"
    using joiner_observer.UpdateFdSet_cores [OF assms(1), of "(srv, js)" fds maxfd tv] assms(2)
    unfolding assms(5) joiner_UpdateFdSet_def fst_conv Let_def by blast
  have "?fds = fds \<union> (\<lambda>c. fst (snd c)) ` set kept \<union> (if mSocket srv \<ge> 0 then {mSocket srv} else {})"
    using fr(1) by simp
  moreover have "\<forall>c\<in>set kept. fst (snd c) \<le> ?max" and "maxfd \<le> ?max"
    using max [of kept] fr(2) by (auto intro: le_max_iff_disj [THEN iffD2])
  ultimately show ?thesis using u fr(3) by blast
qed

theorem joiner_update_fd_set_witness:
  "\<exists>sys' fds' maxfd' t.
    joiner_UpdateFdSet idle_env {} (-1) (1, 0) (one_session kStateReady) = Ok (sys', fds', maxfd', to_timeval t)
    \<and> cores (fst sys') = [] \<and> fds' = {5}"
  using joiner_update_fd_set [of idle_env "fst (one_session kStateReady)" "(1, 0)" "[]" "{}" "-1"
      "snd (one_session kStateReady)"] idle_facts(3)
  by (auto simp: one_session_def new_session_def idle_system_def new_MbedtlsServer_def idle_env_def
      srv_accept_def cores_def session_core_def core_left_def GetTimestamp_def pending_core_def)

text \<open>
  The PSK of the DTLS server becomes the given credential when it has 1 to 32 characters,
  an empty one stops the program at an assertion, and one of 33 to 255 characters is refused
  without a change; beyond that the length wraps and a prefix is installed.
\<close>

theorem joiner_SetPSK_cases:
  "joiner_SetPSK psk sys =
    (let n = length psk mod 256 in
     if n = 0 then Fault AssertFail
     else if n \<le> 32 then Ok ((fst sys)\<lparr>mPSK := take n (bytes_of_string psk)\<rparr>, snd sys)
     else Ok sys)"
  by (rule SetPSK_eq)

text \<open>
  C32: a joiner-finalize request is answered with \<open>State = Accepted\<close>, which a TLV reader finds in
  the payload, and asks for the key to be relayed; any other request leaves the flag alone.  A
  message of more than 1280 bytes, which a session reads up to 1500 of, overflows the packet.
\<close>

theorem joiner_finalize_answer:
  assumes "lib_parse lib bs = Some req" and "cm_code req = kCodePost"
  shows "if MAX_COAP_PACKET < length bs then FeedCoap lib rets a bs (srv, js) = Fault Overflow
    else \<exists>payload resp b. tlv_walk collect_step payload 0 [] = Ok [(kState, [word_of_int kStateAccepted]),
      (kUdpEncapsulation, kTestString)]
    \<and> b = (cm_path req = OT_URI_PATH_JOINER_FINALIZE)
    \<and> (b \<longrightarrow> cm_code resp = kCodeChanged \<and> cm_payload resp = payload \<and> cm_token resp = cm_token req)
    \<and> FeedCoap lib rets a bs (srv, js)
      = (let sys = (srv, js\<lparr>mNeedAppendKek := (b \<or> mNeedAppendKek js)\<rparr>) in
         case lib_reply lib req resp of None \<Rightarrow> Ok sys
         | Some out \<Rightarrow> map_res snd (NetworkSend (joiner_SendCoap rets) out sys))"
proof (cases "MAX_COAP_PACKET < length bs")
  case True
  then show ?thesis by (simp add: FeedCoap_def coap_Input_def)
next
  case False
  let ?ts = "[WTlv kState False [1], WTlv kUdpEncapsulation False kTestString]"
  let ?blank = "NewMessage (cm_id req) kTypeAcknowledgment kCodeEmpty (cm_token req)"
  let ?b = "cm_path req = OT_URI_PATH_JOINER_FINALIZE"
  let ?resp = "if ?b then msg_SetPayload (tlvs_bytes ?ts) (msg_SetCode kCodeChanged ?blank) else ?blank"
  have "length (tlvs_bytes ?ts) < 65536"
    by (simp add: tlv_bytes_def length_field_def kLengthEscape_def kTestString_def bytes_of_string_def)
  moreover have "list_all wire_ok ?ts" by (simp add: wire_ok_def kTestString_def bytes_of_string_def)
  ultimately have "tlv_walk collect_step (tlvs_bytes ?ts) 0 [] = Ok [(kState, [1]), (kUdpEncapsulation, kTestString)]"
    using collect.walk_payload [of ?ts "[]"] by (simp add: run_collect)
  moreover have "FeedCoap lib rets a bs (srv, js)
      = (let sys = (srv, js\<lparr>mNeedAppendKek := (?b \<or> mNeedAppendKek js)\<rparr>) in
         case lib_reply lib req ?resp of None \<Rightarrow> Ok sys
         | Some out \<Rightarrow> map_res snd (NetworkSend (joiner_SendCoap rets) out sys))"
    using assms False
    by (cases ?b) (simp_all add: FeedCoap_def coap_Input_def joiner_message_def HandleRequest_joiner Let_def split: option.split)
  moreover have "?b \<longrightarrow> cm_code ?resp = kCodeChanged \<and> cm_payload ?resp = tlvs_bytes ?ts \<and> cm_token ?resp = cm_token req"
    by (simp add: msg_SetPayload_def msg_SetCode_def NewMessage_def msg_SetToken_def)
  ultimately have "\<exists>payload resp b. tlv_walk collect_step payload 0 [] = Ok [(kState, [word_of_int kStateAccepted]),
      (kUdpEncapsulation, kTestString)]
    \<and> b = (cm_path req = OT_URI_PATH_JOINER_FINALIZE)
    \<and> (b \<longrightarrow> cm_code resp = kCodeChanged \<and> cm_payload resp = payload \<and> cm_token resp = cm_token req)
    \<and> FeedCoap lib rets a bs (srv, js)
      = (let sys = (srv, js\<lparr>mNeedAppendKek := (b \<or> mNeedAppendKek js)\<rparr>) in
         case lib_reply lib req resp of None \<Rightarrow> Ok sys
         | Some out \<Rightarrow> map_res snd (NetworkSend (joiner_SendCoap rets) out sys))"
    by (intro exI [of _ "tlvs_bytes ?ts"] exI [of _ ?resp] exI [of _ ?b] conjI) (simp_all add: kStateAccepted_def)
  with False show ?thesis by simp
qed

theorem joiner_finalize_answer_witness:
  "\<exists>sys. FeedCoap \<lparr>lib_parse = (\<lambda>_. Some ((NewMessage 5 kTypeConfirmable kCodePost [9])\<lparr>cm_path := ''c/jf''\<rparr>)),
        lib_reply = (\<lambda>_ _. None)\<rparr> [SslOk] 0 [1] idle_system = Ok sys \<and> mNeedAppendKek (snd sys)"
  using joiner_finalize_answer [of "\<lparr>lib_parse = (\<lambda>_. Some ((NewMessage 5 kTypeConfirmable kCodePost [9])\<lparr>cm_path := ''c/jf''\<rparr>)),
        lib_reply = (\<lambda>_ _. None)\<rparr>" "[1]" "(NewMessage 5 kTypeConfirmable kCodePost [9])\<lparr>cm_path := ''c/jf''\<rparr>"
      "[SslOk]" 0 "fst idle_system" "snd idle_system"]
  by (auto simp: NewMessage_def msg_SetCode_def msg_SetType_def msg_SetToken_def OT_URI_PATH_JOINER_FINALIZE_def MAX_COAP_PACKET_def)

text \<open>
  C28: what one \<open>Process\<close> without application data does to the state of a session, for every answer
  of the library: it keeps it or follows an edge of the diagram of \<open>dtls.hpp\<close>, extended by the
  way back from \<open>Ready\<close> to \<open>Handshaking\<close> that a reconnecting peer takes; \<open>End\<close> and \<open>Error\<close> are final.
\<close>

theorem session_process_state:
  assumes "session_at a srv = Some s" and "env_handshake env a = (hret, None, None)"
    and "env_read env a = [ReadRet rret]" and "\<not> is_want rret"
  shows "\<exists>sys' s'. ses_Process HandleSessionChange feed env a (srv, js) = Ok sys'
    \<and> session_at a (fst sys') = Some s' \<and> mState s' = session_next (mState s) hret rret
    \<and> (mState s' = mState s \<or> session_edge (mState s) (mState s'))"
proof -
  have "\<exists>sys' s'. ses_Process HandleSessionChange feed env a (srv, js) = Ok sys'
    \<and> session_at a (fst sys') = Some s' \<and> mState s' = session_next (mState s) hret rret"
    using assms
    by (cases "mState s"; cases rret)
      (auto simp: ses_Process_def with_session_def export_keys_def ses_Handshake_def ses_SetState_def
        HandleSessionChange_def ses_SetDataHandler_def session_at_on_session session_next_def read_failed_def)
  then show ?thesis using session_next_edge by metis
qed

theorem session_process_state_witness:
  "\<exists>sys' s'. ses_Process HandleSessionChange (FeedCoap null_lib [SslOk])
        (idle_env\<lparr>env_read := \<lambda>_. [ReadRet ClientReconnect]\<rparr>) 0 (one_session kStateReady) = Ok sys'
    \<and> session_at 0 (fst sys') = Some s' \<and> mState s' = kStateHandshaking"
  using session_process_state [of 0 "fst (one_session kStateReady)"
      "(new_session (fst idle_system))\<lparr>mState := kStateReady, mDataHandler := True\<rparr>"
      "idle_env\<lparr>env_read := \<lambda>_. [ReadRet ClientReconnect]\<rparr>" SslOk ClientReconnect "FeedCoap null_lib [SslOk]"
      "snd (one_session kStateReady)"]
  by (simp add: one_session_def new_session_def idle_system_def new_MbedtlsServer_def idle_env_def session_at_def
      srv_accept_def session_next_def) blast

end
