(* ===== verification/Commissioner.thy ===== *)
theory Commissioner
  imports JoinerSess JoinerList PskcGen
begin

text \<open>
  \<open>commissioner/commissioner.cpp\<close>: the commissioner.  It petitions the leader, announces the
  steering data, keeps itself alive, and relays DTLS records between joiners and its own
  joiner session.

  A request given to \<open>mCoapAgent->Send\<close> is appended to \<open>mRequests\<close> with its response handler, a
  datagram sent to the joiner session to \<open>mRelayed\<close>.  A member the constructor leaves
  uninitialised is \<open>None\<close> until it is set, and using it before is a fault; the two counters of
  keep-alive messages, which nothing reads, start at a value given by the caller.
  Tokens lie in memory in the byte order of a little-endian host.
\<close>

section \<open>State\<close>

definition kCommissionerIdString :: "byte list" where
  "kCommissionerIdString = bytes_of_string ''OpenThread'' @ [0]"

datatype commission_state = kCommInvalid | kCommConnected | kCommAccepted | kCommRejected

datatype response_handler = OnCommissionerPetition | OnCommissionerSet | OnCommissionerKeepAlive

record commissioner =
  mSslFd :: int
  mJoinerSessionClientFd :: int
  mDtlsInitDone :: bool
  mCommissionState :: commission_state
  mCoapToken :: u32
  mMessageId :: u16
  mRequests :: "(coap_message \<times> response_handler option) list"
  mPskcBin :: "byte list"
  mPetitionRetryCount :: int
  mCommissionerSessionId :: "u16 option"
  mJoinerSession :: "joiner_system option"
  mJoinerUdpPort :: "u16 option"
  mJoinerIid :: "byte list option"
  mJoinerRouterLocator :: "u16 option"
  mRelayed :: "byte list list"
  mKeepAliveRate :: int
  mLastKeepAliveTime :: "int option"
  mKeepAliveTxCount :: u32
  mKeepAliveRxCount :: u32

definition new_Commissioner :: "u32 \<Rightarrow> u32 \<Rightarrow> int \<Rightarrow> byte list \<Rightarrow> int \<Rightarrow> commissioner res" where
  "new_Commissioner indeterminate rand client_fd aPskcBin aKeepAliveRate =
     map_res (\<lambda>pskc. \<lparr>mSslFd = -1, mJoinerSessionClientFd = client_fd, mDtlsInitDone = False,
        mCommissionState = kCommInvalid, mCoapToken = rand, mMessageId = 0, mRequests = [], mPskcBin = pskc,
        mPetitionRetryCount = 0, mCommissionerSessionId = None, mJoinerSession = None, mJoinerUdpPort = None,
        mJoinerIid = None, mJoinerRouterLocator = None, mRelayed = [], mKeepAliveRate = aKeepAliveRate,
        mLastKeepAliveTime = None, mKeepAliveTxCount = indeterminate, mKeepAliveRxCount = indeterminate\<rparr>)
       (read_bytes aPskcBin 0 OT_PSKC_LENGTH)"

definition IsValid :: "commissioner \<Rightarrow> bool" where
  "IsValid c \<longleftrightarrow> mCommissionState c \<noteq> kCommInvalid"

definition IsCommissionerAccepted :: "commissioner \<Rightarrow> bool" where
  "IsCommissionerAccepted c \<longleftrightarrow> mCommissionState c = kCommAccepted"

definition SetJoiner ::
  "logger \<Rightarrow> bool \<Rightarrow> int \<Rightarrow> bool \<Rightarrow> string \<Rightarrow> commissioner \<Rightarrow> commissioner res" where
  "SetJoiner lg mbedtls_ok fd bind_ok aPskdAscii c =
     (case mJoinerSession c of
        Some js \<Rightarrow> Ok c
      | None \<Rightarrow> map_res (\<lambda>js. c\<lparr>mJoinerSession := Some js\<rparr>)
          (new_JoinerSession lg mbedtls_ok fd bind_ok kPortJoinerSession aPskdAscii))"

text \<open>\<open>InitDtls\<close>: the two \<open>strcpy\<close> and, if the library calls succeed, the connected socket.\<close>

definition InitDtls :: "int option \<Rightarrow> string \<Rightarrow> string \<Rightarrow> commissioner \<Rightarrow> commissioner res" where
  "InitDtls connected aHost aPort c =
     rbind (strcpy_to kIPAddrNameBufSize aHost) (\<lambda>_. rbind (strcpy_to kPortNameBufSize aPort) (\<lambda>_.
       Ok (case connected of
             None \<Rightarrow> c\<lparr>mDtlsInitDone := True, mSslFd := -1\<rparr>
           | Some fd \<Rightarrow> c\<lparr>mDtlsInitDone := True, mSslFd := fd\<rparr>)))"

definition TryDtlsHandshake :: "ssl_ret \<Rightarrow> commissioner \<Rightarrow> commissioner" where
  "TryDtlsHandshake ret c =
     (if ret = SslOk then c\<lparr>mCommissionState := kCommConnected\<rparr>
      else if \<not> is_want ret then c\<lparr>mCommissionState := kCommInvalid\<rparr> else c)"

section \<open>Requests\<close>

definition network_token :: "u32 \<Rightarrow> byte list" where
  "network_token t = u16_bytes (ucast t)"

definition host_token16 :: "u32 \<Rightarrow> byte list" where
  "host_token16 t = [ucast t, ucast (drop_bit 8 t)]"

definition host_token32 :: "u32 \<Rightarrow> byte list" where
  "host_token32 t = [ucast t, ucast (drop_bit 8 t), ucast (drop_bit 16 t), ucast (drop_bit 24 t)]"

definition packet :: "byte list \<times> nat" where
  "packet = (replicate kSizeMaxPacket 0, 0)"

definition payload_of :: "byte list \<times> nat \<Rightarrow> byte list res" where
  "payload_of cur = Ok (take (LengthOf 0 (snd cur)) (fst cur))"

text \<open>\<open>NewMessage\<close>, \<open>SetPath\<close>, \<open>SetPayload\<close>, \<open>Send\<close> and \<open>FreeMessage\<close>.\<close>

definition send_request ::
  "coap_type \<Rightarrow> byte list \<Rightarrow> string \<Rightarrow> response_handler option \<Rightarrow> byte list \<Rightarrow> commissioner \<Rightarrow> commissioner" where
  "send_request aType aToken aPath aHandler payload c =
     c\<lparr>mMessageId := mMessageId c + 1,
       mRequests := mRequests c @
         [(msg_SetPayload payload (msg_SetPath aPath (NewMessage (mMessageId c + 1) aType kCodePost aToken)),
           aHandler)]\<rparr>"

definition CommissionerPetition :: "commissioner \<Rightarrow> commissioner res" where
  "CommissionerPetition c =
     (let c1 = c\<lparr>mCoapToken := mCoapToken c + 1\<rparr> in
      rbind (tlv_put kCommissionerId (tlv_SetValueBytes kCommissionerIdString False) packet) (\<lambda>cur.
      rbind (payload_of cur) (\<lambda>payload.
        Ok (send_request kTypeConfirmable (network_token (mCoapToken c1)) OT_URI_PATH_COMMISSIONER_PETITION
              (Some OnCommissionerPetition) payload c1))))"

definition CommissionerSet :: "steering_data \<Rightarrow> commissioner \<Rightarrow> commissioner res" where
  "CommissionerSet aSteeringData c =
     (let c1 = c\<lparr>mCoapToken := mCoapToken c + 1\<rparr> in
      rbind (initialized (mCommissionerSessionId c1)) (\<lambda>session_id.
      rbind (tlv_put kCommissionerSessionId (tlv_SetValueUInt16 session_id) packet) (\<lambda>cur1.
      rbind (read_bytes (mBloomFilter aSteeringData) 0 (mLength aSteeringData)) (\<lambda>bloom.
      rbind (tlv_put kSteeringData (tlv_SetValueBytes bloom False) cur1) (\<lambda>cur2.
      rbind (payload_of cur2) (\<lambda>payload.
        Ok (send_request kTypeConfirmable (network_token (mCoapToken c1)) OT_URI_PATH_COMMISSIONER_SET
              (Some OnCommissionerSet) payload c1)))))))"

definition CommissionerKeepAlive :: "int \<Rightarrow> commissioner \<Rightarrow> commissioner res" where
  "CommissionerKeepAlive now c =
     (let c1 = c\<lparr>mCoapToken := mCoapToken c + 1\<rparr> in
      rbind (tlv_put kState (tlv_SetValueUInt8 (word_of_int kStateAccepted)) packet) (\<lambda>cur1.
      rbind (initialized (mCommissionerSessionId c1)) (\<lambda>session_id.
      rbind (tlv_put kCommissionerSessionId (tlv_SetValueUInt16 session_id) cur1) (\<lambda>cur2.
      rbind (payload_of cur2) (\<lambda>payload.
        Ok (send_request kTypeConfirmable (host_token32 (mCoapToken c1)) OT_URI_PATH_COMMISSIONER_KEEP_ALIVE
              (Some OnCommissionerKeepAlive) payload
              (c1\<lparr>mLastKeepAliveTime := Some now, mKeepAliveTxCount := mKeepAliveTxCount c1 + 1\<rparr>)))))))"

section \<open>Responses\<close>

definition CommissionerResponseNext :: "commissioner \<Rightarrow> commissioner res" where
  "CommissionerResponseNext c =
     (if mCommissionState c = kCommConnected \<or> mCommissionState c = kCommRejected
      then (if mCommissionState c \<noteq> kCommInvalid \<and> mPetitionRetryCount c < kPetitionMaxRetry
            then CommissionerPetition (c\<lparr>mPetitionRetryCount := mPetitionRetryCount c + 1\<rparr>)
            else Ok (c\<lparr>mCommissionState := kCommInvalid, mPetitionRetryCount := 0\<rparr>))
      else Ok c)"

text \<open>The value of a State TLV, an \<open>int8_t\<close>.\<close>

definition meshcop_state :: "byte \<Rightarrow> commission_state" where
  "meshcop_state b =
     (if sint b = kStateAccepted then kCommAccepted
      else if sint b = kStateRejected then kCommRejected else kCommInvalid)"

text \<open>The loop body of \<open>HandleCommissionerPetition\<close> and of \<open>HandleCommissionerSet\<close>.\<close>

definition petition_step :: "byte list \<Rightarrow> nat \<Rightarrow> commissioner \<Rightarrow> (bool \<times> commissioner) res" where
  "petition_step payload tlv c =
     rbind (tlv_GetValueUInt8 payload tlv) (\<lambda>state.
     rbind (tlv_GetType payload tlv) (\<lambda>tlvType.
       if tlvType = kState then Ok (True, c\<lparr>mCommissionState := meshcop_state state\<rparr>)
       else if tlvType = kCommissionerSessionId
       then map_res (\<lambda>i. (True, c\<lparr>mCommissionerSessionId := Some i\<rparr>)) (tlv_GetValueUInt16 payload tlv)
       else Ok (True, c)))"

definition keepalive_step :: "byte list \<Rightarrow> nat \<Rightarrow> commissioner \<Rightarrow> (bool \<times> commissioner) res" where
  "keepalive_step payload tlv c =
     rbind (tlv_GetValueUInt8 payload tlv) (\<lambda>state.
     rbind (tlv_GetType payload tlv) (\<lambda>tlvType.
       if tlvType = kState then Ok (True, c\<lparr>mCommissionState := meshcop_state state\<rparr>) else Ok (True, c)))"

definition HandleCommissionerPetition :: "int \<Rightarrow> byte list \<Rightarrow> commissioner \<Rightarrow> commissioner res" where
  "HandleCommissionerPetition now payload c =
     rbind (tlv_walk petition_step payload 0 c) (\<lambda>c1.
       CommissionerResponseNext (c1\<lparr>mLastKeepAliveTime := Some now\<rparr>))"

definition HandleCommissionerSet :: "byte list \<Rightarrow> commissioner \<Rightarrow> commissioner res" where
  "HandleCommissionerSet payload c =
     rbind (tlv_walk petition_step payload 0 c) CommissionerResponseNext"

definition HandleCommissionerKeepAlive :: "int \<Rightarrow> byte list \<Rightarrow> commissioner \<Rightarrow> commissioner res" where
  "HandleCommissionerKeepAlive now payload c =
     rbind (tlv_walk keepalive_step payload 0
              (c\<lparr>mLastKeepAliveTime := Some now, mKeepAliveRxCount := mKeepAliveRxCount c + 1\<rparr>))
       CommissionerResponseNext"

section \<open>Relaying\<close>

text \<open>
  \<open>FindEui\<close>: the first listed joiner whose hashed EUI-64 is the interface identifier.  One
  iteration per instance and one for the null at the end, so the fuel given is enough.
\<close>

definition joiner_iid :: "(byte list \<Rightarrow> byte list) \<Rightarrow> byte list \<Rightarrow> byte list" where
  "joiner_iid sha eui =
     (let out = sha (take kEui64Len eui) in take kEui64Len (out[0 := out ! 0 AND 0xfd]))"

fun find_eui_loop ::
  "(byte list \<Rightarrow> byte list) \<Rightarrow> 'j joiner_list \<Rightarrow> byte list \<Rightarrow> nat \<Rightarrow> u32 \<Rightarrow> joiner_system option
     \<Rightarrow> joiner_system option res" where
  "find_eui_loop sha jl mac 0 num js = Fault Blocked"
| "find_eui_loop sha jl mac (Suc fuel) num js =
     rbind (jl_GetJoinerInstance num jl) (\<lambda>inst.
       case inst of
         None \<Rightarrow> Ok js
       | Some v \<Rightarrow>
           if joiner_iid sha (mJoinerEui64Bin v) = mac
           then (case js of
                   None \<Rightarrow> Fault NullDeref
                 | Some sys \<Rightarrow> map_res Some (joiner_SetPSK (mJoinerPSKdAscii v) sys))
           else find_eui_loop sha jl mac fuel (num + 1) js)"

definition FindEui ::
  "(byte list \<Rightarrow> byte list) \<Rightarrow> 'j joiner_list \<Rightarrow> byte list \<Rightarrow> commissioner \<Rightarrow> commissioner res" where
  "FindEui sha jl mac c =
     map_res (\<lambda>js. c\<lparr>mJoinerSession := js\<rparr>)
       (find_eui_loop sha jl mac (Suc (length (jl_vector jl))) 0 (mJoinerSession c))"

text \<open>\<open>send\<close> returns \<open>sent\<close> of the datagram; -1 leaves the loop.\<close>

definition relay_step ::
  "(byte list \<Rightarrow> byte list) \<Rightarrow> 'j joiner_list \<Rightarrow> (byte list \<Rightarrow> int) \<Rightarrow> byte list \<Rightarrow> nat \<Rightarrow> commissioner
     \<Rightarrow> (bool \<times> commissioner) res" where
  "relay_step sha jl sent payload tlv c =
     rbind (tlv_GetType payload tlv) (\<lambda>tlvType.
       if tlvType = kJoinerDtlsEncapsulation
       then rbind (tlv_GetValue payload tlv) (\<lambda>v. rbind (tlv_GetLength payload tlv) (\<lambda>n.
            rbind (read_bytes payload v n) (\<lambda>bs.
              if sent bs = -1 then Ok (False, c) else Ok (True, c\<lparr>mRelayed := mRelayed c @ [bs]\<rparr>))))
       else if tlvType = kJoinerUdpPort
       then map_res (\<lambda>port. (True, c\<lparr>mJoinerUdpPort := Some port\<rparr>)) (tlv_GetValueUInt16 payload tlv)
       else if tlvType = kJoinerIid
       then rbind (tlv_GetValue payload tlv) (\<lambda>v. rbind (read_bytes payload v 8) (\<lambda>iid.
            map_res (Pair True) (FindEui sha jl iid (c\<lparr>mJoinerIid := Some iid\<rparr>))))
       else if tlvType = kJoinerRouterLocator
       then map_res (\<lambda>rloc. (True, c\<lparr>mJoinerRouterLocator := Some rloc\<rparr>)) (tlv_GetValueUInt16 payload tlv)
       else Ok (True, c))"

definition HandleRelayReceive ::
  "(byte list \<Rightarrow> byte list) \<Rightarrow> 'j joiner_list \<Rightarrow> (byte list \<Rightarrow> int) \<Rightarrow> byte list \<Rightarrow> commissioner \<Rightarrow> commissioner res" where
  "HandleRelayReceive sha jl sent payload c = tlv_walk (relay_step sha jl sent) payload 0 c"

definition SendRelayTransmit :: "byte list \<Rightarrow> commissioner \<Rightarrow> commissioner res" where
  "SendRelayTransmit aBuf c =
     rbind (tlv_put kJoinerDtlsEncapsulation (tlv_SetValueBytes aBuf False) packet) (\<lambda>cur1.
     rbind (initialized (mJoinerUdpPort c)) (\<lambda>port.
     rbind (tlv_put kJoinerUdpPort (tlv_SetValueUInt16 port) cur1) (\<lambda>cur2.
     rbind (initialized (mJoinerIid c)) (\<lambda>iid.
     rbind (tlv_put kJoinerIid (tlv_SetValueBytes iid False) cur2) (\<lambda>cur3.
     rbind (initialized (mJoinerRouterLocator c)) (\<lambda>rloc.
     rbind (tlv_put kJoinerRouterLocator (tlv_SetValueUInt16 rloc) cur3) (\<lambda>cur4.
     case mJoinerSession c of
       None \<Rightarrow> Fault AssertFail
     | Some (srv, js) \<Rightarrow>
         rbind (if NeedAppendKek js
                then rbind (GetKek kKEKSize js) (\<lambda>kek.
                     map_res (\<lambda>cur. (cur, MarkKekSent js))
                       (tlv_put kJoinerRouterKek (tlv_SetValueBytes kek False) cur4))
                else Ok (cur4, js)) (\<lambda>(cur5, js1).
         rbind (payload_of cur5) (\<lambda>payload.
           let c1 = c\<lparr>mJoinerSession := Some (srv, js1), mCoapToken := mCoapToken c + 1\<rparr> in
           Ok (send_request kTypeNonConfirmable (host_token16 (mCoapToken c1)) OT_URI_PATH_RELAY_TX None
                 payload c1))))))))))"

section \<open>The main loop's calls\<close>

text \<open>What libcoap finds in a record received from the agent; \<open>ce_input\<close> is that record and what it holds.\<close>

datatype coap_input = InResponse response_handler "byte list" | InRelay "byte list" | InOther

record comm_env =
  ce_lib :: coap_lib
  ce_rets :: "ssl_ret list"
  ce_dtls :: dtls_env
  ce_input :: "(byte list \<times> coap_input) option"
  ce_datagram :: "byte list option"
  ce_sent :: "byte list \<Rightarrow> int"
  ce_now :: int

definition comm_Input ::
  "(byte list \<Rightarrow> byte list) \<Rightarrow> 'j joiner_list \<Rightarrow> comm_env \<Rightarrow> coap_input \<Rightarrow> commissioner \<Rightarrow> commissioner res" where
  "comm_Input sha jl env i c =
     (case i of
        InResponse OnCommissionerPetition payload \<Rightarrow> HandleCommissionerPetition (ce_now env) payload c
      | InResponse OnCommissionerSet payload \<Rightarrow> HandleCommissionerSet payload c
      | InResponse OnCommissionerKeepAlive payload \<Rightarrow> HandleCommissionerKeepAlive (ce_now env) payload c
      | InRelay payload \<Rightarrow> HandleRelayReceive sha jl (ce_sent env) payload c
      | InOther \<Rightarrow> Ok c)"

definition comm_keep_alive :: "int \<Rightarrow> commissioner \<Rightarrow> commissioner res" where
  "comm_keep_alive now c =
     (if mCommissionState c = kCommAccepted \<and> mKeepAliveRate c > 0
      then rbind (initialized (mLastKeepAliveTime c)) (\<lambda>last.
             if now - last > mKeepAliveRate c then CommissionerKeepAlive now c else Ok c)
      else Ok c)"

definition comm_Process ::
  "(byte list \<Rightarrow> byte list) \<Rightarrow> 'j joiner_list \<Rightarrow> comm_env \<Rightarrow> commissioner \<Rightarrow> commissioner res" where
  "comm_Process sha jl env c =
     rbind (case mJoinerSession c of
              None \<Rightarrow> Ok c
            | Some sys \<Rightarrow> map_res (\<lambda>sys'. c\<lparr>mJoinerSession := Some sys'\<rparr>)
                (joiner_Process (ce_lib env) (ce_rets env) (ce_dtls env) sys)) (\<lambda>c1.
     rbind (case ce_input env of None \<Rightarrow> Ok c1 | Some (bs, i) \<Rightarrow> coap_Input (\<lambda>_. comm_Input sha jl env i) bs c1) (\<lambda>c2.
     rbind (case ce_datagram env of None \<Rightarrow> Ok c2 | Some bs \<Rightarrow> SendRelayTransmit bs c2) (\<lambda>c3.
     comm_keep_alive (ce_now env) c3)))"

definition comm_UpdateFdSet ::
  "dtls_env \<Rightarrow> int set \<Rightarrow> int \<Rightarrow> nat \<times> nat \<Rightarrow> commissioner \<Rightarrow> (commissioner \<times> int set \<times> int \<times> nat \<times> nat) res" where
  "comm_UpdateFdSet env aReadFdSet aMaxFd aTimeout c =
     (let fds = insert (mJoinerSessionClientFd c) (insert (mSslFd c) aReadFdSet);
          maxfd = max (mJoinerSessionClientFd c) (max (mSslFd c) aMaxFd) in
      case mJoinerSession c of
        None \<Rightarrow> Ok (c, fds, maxfd, aTimeout)
      | Some sys \<Rightarrow> map_res (\<lambda>(sys', r). (c\<lparr>mJoinerSession := Some sys'\<rparr>, r))
          (joiner_UpdateFdSet env fds maxfd aTimeout sys))"

text \<open>What the agent sends goes into the DTLS connection.\<close>

definition comm_SendCoap :: "(byte list \<Rightarrow> int) \<Rightarrow> byte list \<Rightarrow> int" where
  "comm_SendCoap ssl_write aBuffer = ssl_write aBuffer"

text \<open>
  The destructor: the connection is closed when \<open>InitDtls\<close> was called, and the joiner session is
  destroyed.
\<close>

definition comm_destroy :: "ssl_ret list \<Rightarrow> dtls_env \<Rightarrow> commissioner \<Rightarrow> unit res" where
  "comm_destroy rets env c =
     rbind (if mDtlsInitDone c then close_retry rets else Ok ()) (\<lambda>_.
       case mJoinerSession c of None \<Rightarrow> Ok () | Some sys \<Rightarrow> map_res (\<lambda>_. ()) (joiner_destroy env sys))"

section \<open>Messages\<close>

definition LogMeshcopState :: "u64 \<Rightarrow> string \<Rightarrow> byte \<Rightarrow> logger \<Rightarrow> logger res" where
  "LogMeshcopState now aPrefix aState lg =
     otbrLog now OTBR_LOG_INFO
       (if sint aState = kStateAccepted then aPrefix @ '': state=accepted''
        else if sint aState = kStateRejected then aPrefix @ '': state=rejected''
        else aPrefix @ '': state='' @ (if sint aState < 0 then ''-'' @ dec_string (nat (- sint aState)) else dec_string (nat (sint aState)))) lg"

text \<open>
  \<open>MBedDebugPrint\<close>: \<open>strncpy\<close> leaves a text of 100 characters or more without a terminator, and
  \<open>strchr\<close> then reads past the array unless it finds its character before.
\<close>

definition cut_line :: "char \<Rightarrow> string \<times> bool \<Rightarrow> (string \<times> bool) res" where
  "cut_line ch buf =
     (if ch \<in> set (fst buf) then Ok (takeWhile (\<lambda>c. c \<noteq> ch) (fst buf), True)
      else if snd buf then Ok buf else Fault OutOfBounds)"

definition MBedDebugPrint :: "u64 \<Rightarrow> string \<Rightarrow> nat \<Rightarrow> string \<Rightarrow> logger \<Rightarrow> logger res" where
  "MBedDebugPrint now aFile aLine aStr lg =
     rbind (cut_line CHR 0x0A (take 100 aStr, length aStr < 100)) (\<lambda>buf1.
     rbind (cut_line CHR 0x0D buf1) (\<lambda>buf2.
       otbrLog now OTBR_LOG_INFO (aFile @ '':'' @ dec_string aLine @ '': '' @ fst buf2) lg))"

lemma MBedDebugPrint_long:
  assumes "100 \<le> length aStr" and "CHR 0x0A \<notin> set (take 100 aStr)"
  shows "MBedDebugPrint now aFile aLine aStr lg = Fault OutOfBounds"
  using assms by (simp add: MBedDebugPrint_def cut_line_def)

section \<open>Library\<close>

lemma comm_destroy_ok:
  assumes "\<exists>r\<in>set rets. r \<noteq> WantWrite" and "closes env" and "\<And>sys. mJoinerSession c = Some sys \<Longrightarrow> joiner_inv sys"
  shows "comm_destroy rets env c = Ok ()"
proof (cases "mJoinerSession c")
  case None
  with assms(1) close_retry_ok show ?thesis by (simp add: comm_destroy_def)
next
  case (Some sys)
  then have "distinct (map mAddress (mSessions (fst sys)))" using assms(3) by (simp add: joiner_inv_def server_inv_def)
  from joiner_destroy_ok [OF assms(2) this] Some close_retry_ok [OF assms(1)] show ?thesis by (auto simp: comm_destroy_def)
qed


lemma CommissionerPetition_ok:
  "CommissionerPetition c =
     Ok (send_request kTypeConfirmable (network_token (mCoapToken c + 1)) OT_URI_PATH_COMMISSIONER_PETITION
       (Some OnCommissionerPetition) (tlvs_bytes [WTlv kCommissionerId False kCommissionerIdString])
       (c\<lparr>mCoapToken := mCoapToken c + 1\<rparr>))"
proof -
  let ?ts = "[WTlv kCommissionerId False kCommissionerIdString]"
  have "length (tlvs_bytes ?ts) = 13"
    by (simp add: tlv_bytes_def length_field_length kCommissionerIdString_def)
  then show ?thesis
    using request_payload [of ?ts "replicate kSizeMaxPacket 0"]
    by (simp add: CommissionerPetition_def tlv_put_all_simps packet_def payload_of_def [abs_def] wire_ok_def
        kCommissionerIdString_def kSizeMaxPacket_def rbind_eq_Ok Let_def) auto
qed

lemma request_of:
  assumes "list_all wire_ok ts" and "length (tlvs_bytes ts) \<le> kSizeMaxPacket"
  shows "rbind (tlv_put_all ts packet) payload_of = Ok (tlvs_bytes ts)"
  using request_payload [OF assms(1), of "replicate kSizeMaxPacket 0"] assms(2)
  by (simp add: packet_def payload_of_def [abs_def] kSizeMaxPacket_def)

text \<open>Values of a TLV on the wire.\<close>

definition tlv_u16 :: "wire_tlv \<Rightarrow> u16" where
  "tlv_u16 t = push_bit 8 (ucast (w_value t ! 0)) OR ucast (w_value t ! 1)"

lemma tlv_u16_bytes: "w_value t = u16_bytes v \<Longrightarrow> tlv_u16 t = v"
  by (simp add: tlv_u16_def u16_bytes_def u16_join)

lemma tlv_GetValueUInt16_u16:
  assumes "wire_ok t" and "2 \<le> length (w_value t)"
  shows "tlv_GetValueUInt16 (pre @ tlv_bytes t @ post) (length pre) = Ok (tlv_u16 t)"
proof -
  obtain v where v: "tlv_GetValue (pre @ tlv_bytes t @ post) (length pre) = Ok v"
    using tlv_GetValue_wire [OF assms(1)] by blast
  have "read_u16be (w_value t @ post) 0 = Ok (tlv_u16 t)"
    using assms(2) by (cases "w_value t") (auto simp: read_u16be_def read_byte_def tlv_u16_def nth_append)
  with tlv_value_shift(2) [OF assms(1) v, of 0] v show ?thesis by (simp add: tlv_GetValueUInt16_def)
qed

lemma tlv_GetValue_bytes:
  assumes "wire_ok t" and "n \<le> length (w_value t)"
  shows "\<exists>v. tlv_GetValue (pre @ tlv_bytes t @ post) (length pre) = Ok v
    \<and> read_bytes (pre @ tlv_bytes t @ post) v n = Ok (take n (w_value t))"
proof -
  obtain v where v: "tlv_GetValue (pre @ tlv_bytes t @ post) (length pre) = Ok v"
    using tlv_GetValue_wire [OF assms(1)] by blast
  with tlv_value_shift(3) [OF assms(1) v, of 0 n] assms(2) show ?thesis by (simp add: read_bytes_def)
qed

lemma tlv_GetValueUInt8_hd:
  assumes "wire_ok t" and "w_value t \<noteq> []"
  shows "tlv_GetValueUInt8 (pre @ tlv_bytes t @ post) (length pre) = Ok (hd (w_value t))"
  using assms tlv_GetValueUInt8_wire [OF assms(1), of "hd (w_value t)" "tl (w_value t)"] by simp

text \<open>What the response handlers do with one TLV, and the TLVs they can read.\<close>

definition petition_act :: "wire_tlv \<Rightarrow> commissioner \<Rightarrow> bool \<times> commissioner" where
  "petition_act t c = (True,
     if w_type t = kState then c\<lparr>mCommissionState := meshcop_state (hd (w_value t))\<rparr>
     else if w_type t = kCommissionerSessionId then c\<lparr>mCommissionerSessionId := Some (tlv_u16 t)\<rparr> else c)"

definition keepalive_act :: "wire_tlv \<Rightarrow> commissioner \<Rightarrow> bool \<times> commissioner" where
  "keepalive_act t c = (True,
     if w_type t = kState then c\<lparr>mCommissionState := meshcop_state (hd (w_value t))\<rparr> else c)"

definition response_ok :: "wire_tlv \<Rightarrow> bool" where
  "response_ok t \<longleftrightarrow> wire_ok t \<and> w_value t \<noteq> []
     \<and> (w_type t = kCommissionerSessionId \<longrightarrow> 2 \<le> length (w_value t))"

interpretation petition: tlv_handler petition_step petition_act response_ok "\<lambda>_. True"
proof
  fix t pre post c
  assume t: "response_ok t"
  then have w: "wire_ok t" "w_value t \<noteq> []" by (simp_all add: response_ok_def)
  show "petition_step (pre @ tlv_bytes t @ post) (length pre) c = Ok (petition_act t c)"
    using t tlv_GetValueUInt8_hd [OF w, of pre post] tlv_GetValueUInt16_u16 [OF w(1), of pre post]
    by (simp add: petition_step_def petition_act_def tlv_GetType_wire response_ok_def)
qed (simp_all add: response_ok_def)

interpretation keepalive: tlv_handler keepalive_step keepalive_act response_ok "\<lambda>_. True"
proof
  fix t pre post c
  assume t: "response_ok t"
  then have w: "wire_ok t" "w_value t \<noteq> []" by (simp_all add: response_ok_def)
  show "keepalive_step (pre @ tlv_bytes t @ post) (length pre) c = Ok (keepalive_act t c)"
    using tlv_GetValueUInt8_hd [OF w, of pre post]
    by (simp add: keepalive_step_def keepalive_act_def tlv_GetType_wire)
qed (simp_all add: response_ok_def)

text \<open>The last TLV of a type decides.\<close>

definition last_tlv :: "byte \<Rightarrow> wire_tlv list \<Rightarrow> wire_tlv option" where
  "last_tlv ty ts = find (\<lambda>t. w_type t = ty) (rev ts)"

definition answered_state :: "wire_tlv list \<Rightarrow> commission_state \<Rightarrow> commission_state" where
  "answered_state ts st = (case last_tlv kState ts of None \<Rightarrow> st | Some t \<Rightarrow> meshcop_state (hd (w_value t)))"

definition answered_session :: "wire_tlv list \<Rightarrow> u16 option \<Rightarrow> u16 option" where
  "answered_session ts i = (case last_tlv kCommissionerSessionId ts of None \<Rightarrow> i | Some t \<Rightarrow> Some (tlv_u16 t))"

lemma find_snoc: "find P (xs @ [x]) = (case find P xs of None \<Rightarrow> if P x then Some x else None | Some y \<Rightarrow> Some y)"
  by (induction xs) auto

lemma last_tlv_Cons:
  "last_tlv ty (t # ts) = (case last_tlv ty ts of None \<Rightarrow> if w_type t = ty then Some t else None | Some u \<Rightarrow> Some u)"
  by (simp add: last_tlv_def find_snoc)

lemma run_petition:
  "run_tlvs petition_act ts c = c\<lparr>mCommissionState := answered_state ts (mCommissionState c),
     mCommissionerSessionId := answered_session ts (mCommissionerSessionId c)\<rparr>"
proof (induction ts arbitrary: c)
  case Nil
  then show ?case by (simp add: answered_state_def answered_session_def last_tlv_def)
next
  case (Cons t ts)
  have "kState \<noteq> kCommissionerSessionId" by (simp add: kState_def kCommissionerSessionId_def)
  with Cons show ?case
    by (simp add: petition_act_def answered_state_def answered_session_def last_tlv_Cons Let_def split: option.splits)
qed

lemma run_keepalive:
  "run_tlvs keepalive_act ts c = c\<lparr>mCommissionState := answered_state ts (mCommissionState c)\<rparr>"
proof (induction ts arbitrary: c)
  case Nil
  then show ?case by (simp add: answered_state_def last_tlv_def)
next
  case (Cons t ts)
  then show ?case
    by (simp add: keepalive_act_def answered_state_def last_tlv_Cons Let_def split: option.splits)
qed

text \<open>The requests, as the TLVs they carry.\<close>

definition set_request :: "u16 \<Rightarrow> steering_data \<Rightarrow> wire_tlv list" where
  "set_request session_id sd =
     [WTlv kCommissionerSessionId False (u16_bytes session_id),
      WTlv kSteeringData False (take (mLength sd) (mBloomFilter sd))]"

definition keepalive_request :: "u16 \<Rightarrow> wire_tlv list" where
  "keepalive_request session_id =
     [WTlv kState False [word_of_int kStateAccepted], WTlv kCommissionerSessionId False (u16_bytes session_id)]"

definition relay_request :: "byte list \<Rightarrow> u16 \<Rightarrow> byte list \<Rightarrow> u16 \<Rightarrow> byte list option \<Rightarrow> wire_tlv list" where
  "relay_request bs port iid rloc kek =
     [WTlv kJoinerDtlsEncapsulation False bs, WTlv kJoinerUdpPort False (u16_bytes port),
      WTlv kJoinerIid False iid, WTlv kJoinerRouterLocator False (u16_bytes rloc)]
     @ (case kek of None \<Rightarrow> [] | Some k \<Rightarrow> [WTlv kJoinerRouterKek False k])"

lemma CommissionerSet_ok:
  assumes "mCommissionerSessionId c = Some session_id" and "sd_inv sd"
  shows "CommissionerSet sd c =
    Ok (send_request kTypeConfirmable (network_token (mCoapToken c + 1)) OT_URI_PATH_COMMISSIONER_SET
      (Some OnCommissionerSet) (tlvs_bytes (set_request session_id sd)) (c\<lparr>mCoapToken := mCoapToken c + 1\<rparr>))"
proof -
  have l: "mLength sd \<le> 16" "length (mBloomFilter sd) = 16"
    using assms(2) by (simp_all add: sd_inv_def kMaxSizeOfBloomFilter_def)
  then have "list_all wire_ok (set_request session_id sd)" "length (tlvs_bytes (set_request session_id sd)) \<le> 24"
    by (simp_all add: set_request_def tlv_bytes_def length_field_length wire_ok_def)
  then have "rbind (tlv_put_all (set_request session_id sd) packet) payload_of = Ok (tlvs_bytes (set_request session_id sd))"
    by (intro request_of) (simp_all add: kSizeMaxPacket_def)
  with assms(1) l show ?thesis
    by (auto simp: CommissionerSet_def set_request_def tlv_put_all_simps tlv_SetValueUInt16_bytes initialized_def
        read_bytes_def rbind_eq_Ok Let_def)
qed

lemma CommissionerKeepAlive_ok:
  assumes "mCommissionerSessionId c = Some session_id"
  shows "CommissionerKeepAlive now c =
    Ok (send_request kTypeConfirmable (host_token32 (mCoapToken c + 1)) OT_URI_PATH_COMMISSIONER_KEEP_ALIVE
      (Some OnCommissionerKeepAlive) (tlvs_bytes (keepalive_request session_id))
      (c\<lparr>mCoapToken := mCoapToken c + 1, mLastKeepAliveTime := Some now,
         mKeepAliveTxCount := mKeepAliveTxCount c + 1\<rparr>))"
proof -
  have "rbind (tlv_put_all (keepalive_request session_id) packet) payload_of = Ok (tlvs_bytes (keepalive_request session_id))"
    by (rule request_of) (simp_all add: keepalive_request_def kSizeMaxPacket_def tlv_bytes_def length_field_length wire_ok_def)
  with assms show ?thesis
    by (auto simp: CommissionerKeepAlive_def keepalive_request_def tlv_put_all_simps tlv_SetValueUInt16_bytes
        tlv_SetValueUInt8_bytes initialized_def rbind_eq_Ok Let_def)
qed

lemma relay_request_length:
  "length (tlvs_bytes (relay_request bs port iid rloc kek)) =
     length bs + (if length bs \<ge> 255 then 4 else 2) + 8 + length iid + (if length iid \<ge> 255 then 4 else 2)
       + (case kek of None \<Rightarrow> 0 | Some k \<Rightarrow> length k + (if length k \<ge> 255 then 4 else 2))"
  by (simp add: relay_request_def tlv_bytes_def length_field_length split: option.split)

text \<open>
  The key appended: none, or the one of the joiner session while the flag is set.  The relay
  state is complete when a relayed record has been seen and the session exists.
\<close>

definition pending_kek :: "joiner_session \<Rightarrow> byte list option" where
  "pending_kek js = (if mNeedAppendKek js then js_mKek js else None)"

definition relay_ready :: "commissioner \<Rightarrow> u16 \<Rightarrow> byte list \<Rightarrow> u16 \<Rightarrow> dtls_server \<Rightarrow> joiner_session \<Rightarrow> bool" where
  "relay_ready c port iid rloc srv js \<longleftrightarrow>
     mJoinerUdpPort c = Some port \<and> mJoinerIid c = Some iid \<and> length iid = 8
     \<and> mJoinerRouterLocator c = Some rloc \<and> mJoinerSession c = Some (srv, js)
     \<and> (mNeedAppendKek js \<longrightarrow> (\<exists>k. js_mKek js = Some k \<and> length k = 32))"

lemma relay_put:
  assumes "length iid = 8" and "\<And>k. kek = Some k \<Longrightarrow> length k = 32" and "length bs \<le> 1500"
    and "length (tlvs_bytes (relay_request bs port iid rloc kek)) \<le> kSizeMaxPacket"
  shows "rbind (tlv_put_all (relay_request bs port iid rloc kek) packet) payload_of
    = Ok (tlvs_bytes (relay_request bs port iid rloc kek))"
  using assms by (intro request_of) (auto simp: relay_request_def wire_ok_def split: option.split)

text \<open>\<open>SendRelayTransmit\<close> builds its request in one buffer and sends what was written.\<close>

lemma SendRelayTransmit_eq:
  assumes ready: "relay_ready c port iid rloc srv js"
  shows "SendRelayTransmit bs c =
    map_res (\<lambda>payload. send_request kTypeNonConfirmable (host_token16 (mCoapToken c + 1)) OT_URI_PATH_RELAY_TX None
        payload (c\<lparr>mJoinerSession := Some (srv, js\<lparr>mNeedAppendKek := False\<rparr>), mCoapToken := mCoapToken c + 1\<rparr>))
      (rbind (tlv_put_all (relay_request bs port iid rloc (pending_kek js)) packet) payload_of)"
proof (cases "mNeedAppendKek js")
  case True
  with ready obtain k where "js_mKek js = Some k" "length k = 32" by (auto simp: relay_ready_def)
  with True ready show ?thesis
    by (simp add: SendRelayTransmit_def relay_ready_def relay_request_def pending_kek_def tlv_put_all_simps
        tlv_SetValueUInt16_bytes initialized_def NeedAppendKek_def MarkKekSent_def GetKek_def kKEKSize_def
        map_res_rbind rbind_assoc Let_def)
next
  case False
  then have same: "js\<lparr>mNeedAppendKek := False\<rparr> = js" by (cases js) simp
  with False ready show ?thesis
    by (simp add: same SendRelayTransmit_def relay_ready_def relay_request_def pending_kek_def tlv_put_all_simps
        tlv_SetValueUInt16_bytes initialized_def NeedAppendKek_def map_res_rbind rbind_assoc Let_def)
qed

lemma SendRelayTransmit_ok:
  assumes ready: "relay_ready c port iid rloc srv js" and bs: "length bs \<le> 1500"
    and fit: "length (tlvs_bytes (relay_request bs port iid rloc (pending_kek js))) \<le> kSizeMaxPacket"
  shows "SendRelayTransmit bs c =
    Ok (send_request kTypeNonConfirmable (host_token16 (mCoapToken c + 1)) OT_URI_PATH_RELAY_TX None
      (tlvs_bytes (relay_request bs port iid rloc (pending_kek js)))
      (c\<lparr>mJoinerSession := Some (srv, js\<lparr>mNeedAppendKek := False\<rparr>), mCoapToken := mCoapToken c + 1\<rparr>))"
proof -
  have "rbind (tlv_put_all (relay_request bs port iid rloc (pending_kek js)) packet) payload_of
    = Ok (tlvs_bytes (relay_request bs port iid rloc (pending_kek js)))"
    using ready fit bs by (intro relay_put) (auto simp: relay_ready_def pending_kek_def split: if_splits)
  then show ?thesis by (simp add: SendRelayTransmit_eq [OF ready])
qed

end
