(* ===== verification/CommProps.thy ===== *)
theory CommProps
  imports Commissioner
begin

text \<open>
  What the commissioner promises: how it reacts to the leader's responses and how often it
  petitions again, when it keeps itself alive, what its requests carry, and what it relays in
  both directions, with the faults of each.
\<close>

section \<open>Responses\<close>

text \<open>The commissioner after a response whose TLVs are read: petition again, give up or stay.\<close>

definition petition_again :: "commissioner \<Rightarrow> commissioner" where
  "petition_again c =
     send_request kTypeConfirmable (network_token (mCoapToken c + 1)) OT_URI_PATH_COMMISSIONER_PETITION
       (Some OnCommissionerPetition) (tlvs_bytes [WTlv kCommissionerId False kCommissionerIdString])
       (c\<lparr>mCoapToken := mCoapToken c + 1\<rparr>)"

definition next_action :: "commissioner \<Rightarrow> commissioner" where
  "next_action c =
     (case mCommissionState c of
        kCommInvalid \<Rightarrow> c
      | kCommAccepted \<Rightarrow> c
      | _ \<Rightarrow> if mPetitionRetryCount c < 2 then petition_again (c\<lparr>mPetitionRetryCount := mPetitionRetryCount c + 1\<rparr>)
            else c\<lparr>mCommissionState := kCommInvalid, mPetitionRetryCount := 0\<rparr>)"

lemma ResponseNext_action: "CommissionerResponseNext c = Ok (next_action c)"
  by (simp add: CommissionerResponseNext_def next_action_def CommissionerPetition_ok petition_again_def
      kPetitionMaxRetry_def split: commission_state.split)

lemma petition_again_fields [simp]:
  "mCommissionState (petition_again c) = mCommissionState c"
  "mPetitionRetryCount (petition_again c) = mPetitionRetryCount c"
  by (simp_all add: petition_again_def send_request_def)

lemma petition_handled:
  assumes "list_all response_ok ts" and "length (tlvs_bytes ts) < 65536"
  shows "HandleCommissionerPetition now (tlvs_bytes ts) c = Ok (next_action
    (c\<lparr>mCommissionState := answered_state ts (mCommissionState c),
       mCommissionerSessionId := answered_session ts (mCommissionerSessionId c), mLastKeepAliveTime := Some now\<rparr>))"
  using petition.walk_payload [OF assms(1) TrueI assms(2)]
  by (simp add: HandleCommissionerPetition_def run_petition ResponseNext_action)

lemma set_handled:
  assumes "list_all response_ok ts" and "length (tlvs_bytes ts) < 65536"
  shows "HandleCommissionerSet (tlvs_bytes ts) c = Ok (next_action
    (c\<lparr>mCommissionState := answered_state ts (mCommissionState c),
       mCommissionerSessionId := answered_session ts (mCommissionerSessionId c)\<rparr>))"
  using petition.walk_payload [OF assms(1) TrueI assms(2)]
  by (simp add: HandleCommissionerSet_def run_petition ResponseNext_action)

lemma keepalive_handled:
  assumes "list_all response_ok ts" and "length (tlvs_bytes ts) < 65536"
  shows "HandleCommissionerKeepAlive now (tlvs_bytes ts) c = Ok (next_action
    (c\<lparr>mLastKeepAliveTime := Some now, mKeepAliveRxCount := mKeepAliveRxCount c + 1,
       mCommissionState := answered_state ts (mCommissionState c)\<rparr>))"
  using keepalive.walk_payload [OF assms(1) TrueI assms(2)]
  by (simp add: HandleCommissionerKeepAlive_def run_keepalive ResponseNext_action)

text \<open>
  Responses handled while the commissioner is valid, as its owner does; a response rejects when
  the last State TLV it carries is \<open>kStateRejected\<close>.
\<close>

definition sized_response :: "response_handler \<times> wire_tlv list \<Rightarrow> bool" where
  "sized_response r \<longleftrightarrow> list_all response_ok (snd r) \<and> length (tlvs_bytes (snd r)) < 65536"

fun handle_responses ::
  "(byte list \<Rightarrow> byte list) \<Rightarrow> 'j joiner_list \<Rightarrow> comm_env \<Rightarrow> (response_handler \<times> wire_tlv list) list
     \<Rightarrow> commissioner \<Rightarrow> commissioner res" where
  "handle_responses sha jl env [] c = Ok c"
| "handle_responses sha jl env (r # rs) c =
     (if IsValid c
      then rbind (comm_Input sha jl env (InResponse (fst r) (tlvs_bytes (snd r))) c) (handle_responses sha jl env rs)
      else Ok c)"

definition rejects :: "response_handler \<times> wire_tlv list \<Rightarrow> bool" where
  "rejects r \<longleftrightarrow> answered_state (snd r) kCommInvalid = kCommRejected"

definition is_petition :: "coap_message \<times> response_handler option \<Rightarrow> bool" where
  "is_petition m \<longleftrightarrow> cm_path (fst m) = OT_URI_PATH_COMMISSIONER_PETITION
     \<and> cm_payload (fst m) = tlvs_bytes [WTlv kCommissionerId False kCommissionerIdString]
     \<and> snd m = Some OnCommissionerPetition"

lemma petition_again_request:
  "\<exists>m. mRequests (petition_again c) = mRequests c @ [m] \<and> is_petition m"
  by (simp add: petition_again_def send_request_def is_petition_def msg_SetPath_def msg_SetPayload_def)

lemma response_handled:
  assumes "sized_response r"
  shows "\<exists>c0. comm_Input sha jl env (InResponse (fst r) (tlvs_bytes (snd r))) c = Ok (next_action c0)
    \<and> mCommissionState c0 = answered_state (snd r) (mCommissionState c)
    \<and> mRequests c0 = mRequests c \<and> mPetitionRetryCount c0 = mPetitionRetryCount c"
  using assms
  by (cases "fst r")
    (simp add: sized_response_def comm_Input_def petition_handled set_handled keepalive_handled,
     rule exI, rule conjI, rule refl, simp)+

text \<open>One response while valid: at most one more petition, counted; a rejection costs a retry.\<close>

lemma next_action_counts:
  assumes "mPetitionRetryCount c \<in> {0..2}"
  shows "\<exists>new. mRequests (next_action c) = mRequests c @ new \<and> list_all is_petition new
    \<and> (IsValid (next_action c) \<longrightarrow> mPetitionRetryCount (next_action c) = mPetitionRetryCount c + int (length new))
    \<and> int (length new) \<le> 2 - mPetitionRetryCount c
    \<and> (mCommissionState c \<in> {kCommConnected, kCommRejected} \<and> IsValid (next_action c) \<longrightarrow> length new = 1)"
proof -
  obtain m where m: "mRequests (petition_again (c\<lparr>mPetitionRetryCount := mPetitionRetryCount c + 1\<rparr>)) = mRequests c @ [m]"
    "is_petition m"
    using petition_again_request [of "c\<lparr>mPetitionRetryCount := mPetitionRetryCount c + 1\<rparr>"] by auto
  show ?thesis
  proof (cases "mCommissionState c \<in> {kCommConnected, kCommRejected} \<and> mPetitionRetryCount c < 2")
    case True
    with m show ?thesis by (intro exI [of _ "[m]"]) (auto simp: next_action_def)
  next
    case False
    with assms show ?thesis
      by (intro exI [of _ "[]"]) (auto simp: next_action_def IsValid_def split: commission_state.split)
  qed
qed

lemma responses_counted:
  assumes "list_all sized_response rs" and "mPetitionRetryCount c \<in> {0..2}"
  shows "\<exists>c' new. handle_responses sha jl env rs c = Ok c' \<and> mRequests c' = mRequests c @ new
    \<and> list_all is_petition new \<and> int (length new) \<le> 2 - mPetitionRetryCount c
    \<and> (IsValid c' \<longrightarrow> int (length (filter rejects rs)) \<le> int (length new))"
  using assms
proof (induction rs arbitrary: c)
  case Nil
  then show ?case by auto
next
  case (Cons r rs)
  show ?case
  proof (cases "IsValid c")
    case False
    with Cons.prems show ?thesis by auto
  next
    case True
    from Cons.prems(1) obtain c0 where c0:
      "comm_Input sha jl env (InResponse (fst r) (tlvs_bytes (snd r))) c = Ok (next_action c0)"
      "mCommissionState c0 = answered_state (snd r) (mCommissionState c)" "mRequests c0 = mRequests c"
      "mPetitionRetryCount c0 = mPetitionRetryCount c"
      using response_handled [of r] by fastforce
    then obtain new where new: "mRequests (next_action c0) = mRequests c @ new" "list_all is_petition new"
      "IsValid (next_action c0) \<longrightarrow> mPetitionRetryCount (next_action c0) = mPetitionRetryCount c + int (length new)"
      "int (length new) \<le> 2 - mPetitionRetryCount c"
      "mCommissionState c0 \<in> {kCommConnected, kCommRejected} \<and> IsValid (next_action c0) \<longrightarrow> length new = 1"
      using next_action_counts [of c0] Cons.prems(2) by auto
    show ?thesis
    proof (cases "IsValid (next_action c0)")
      case False
      then have "handle_responses sha jl env rs (next_action c0) = Ok (next_action c0)" by (cases rs) simp_all
      with False True c0(1) new show ?thesis by auto
    next
      case valid: True
      with new Cons.prems(2) have "mPetitionRetryCount (next_action c0) \<in> {0..2}" by simp
      with Cons.IH [of "next_action c0"] Cons.prems(1) obtain c' new' where IH:
        "handle_responses sha jl env rs (next_action c0) = Ok c'" "mRequests c' = mRequests (next_action c0) @ new'"
        "list_all is_petition new'" "int (length new') \<le> 2 - mPetitionRetryCount (next_action c0)"
        "IsValid c' \<longrightarrow> int (length (filter rejects rs)) \<le> int (length new')" by auto
      have "rejects r \<Longrightarrow> length new = 1"
        using new(5) valid c0(2)
        by (cases "last_tlv kState (snd r)"; cases "mCommissionState c")
          (auto simp: rejects_def answered_state_def next_action_def IsValid_def split: if_splits)
      with IH new c0(1) True valid show ?thesis by (intro exI [of _ c'] exI [of _ "new @ new'"]) auto
    qed
  qed
qed

section \<open>Requests as their receiver reads them\<close>

lemma collected:
  assumes "list_all wire_ok ts" and "length (tlvs_bytes ts) < 65536"
  shows "tlv_walk collect_step (tlvs_bytes ts) 0 [] = Ok (map (\<lambda>t. (w_type t, w_value t)) ts)"
  using collect.walk_payload [OF assms(1) TrueI assms(2), of "[]"] by (simp add: run_collect)

text \<open>A request that was sent: its handler, path and type, and the TLVs of its payload.\<close>

definition carries ::
  "coap_type \<Rightarrow> string \<Rightarrow> response_handler option \<Rightarrow> (byte \<times> byte list) list
     \<Rightarrow> coap_message \<times> response_handler option \<Rightarrow> bool" where
  "carries ty path h tlvs m \<longleftrightarrow> cm_type (fst m) = ty \<and> cm_code (fst m) = kCodePost \<and> cm_path (fst m) = path \<and> snd m = h
     \<and> tlv_walk collect_step (cm_payload (fst m)) 0 [] = Ok tlvs"

lemma send_request_carries:
  assumes "list_all wire_ok ts" and "length (tlvs_bytes ts) < 65536"
  shows "\<exists>m. mRequests (send_request ty tok path h (tlvs_bytes ts) c) = mRequests c @ [m]
    \<and> carries ty path h (map (\<lambda>t. (w_type t, w_value t)) ts) m"
  using collected [OF assms]
  by (simp add: send_request_def carries_def NewMessage_def msg_SetPath_def msg_SetPayload_def msg_SetToken_def
      msg_SetCode_def msg_SetType_def)

lemma send_request_fields [simp]:
  "mCommissionState (send_request ty tok path h pl c) = mCommissionState c"
  "mLastKeepAliveTime (send_request ty tok path h pl c) = mLastKeepAliveTime c"
  "mKeepAliveTxCount (send_request ty tok path h pl c) = mKeepAliveTxCount c"
  "mJoinerSession (send_request ty tok path h pl c) = mJoinerSession c"
  "mCoapToken (send_request ty tok path h pl c) = mCoapToken c"
  by (simp_all add: send_request_def)

section \<open>Properties of the requests and responses\<close>


definition sample_commissioner :: commissioner where
  "sample_commissioner = \<lparr>mSslFd = 3, mJoinerSessionClientFd = 4, mDtlsInitDone = True,
     mCommissionState = kCommConnected, mCoapToken = 7, mMessageId = 0, mRequests = [],
     mPskcBin = replicate 16 0, mPetitionRetryCount = 0, mCommissionerSessionId = Some 0x1234,
     mJoinerSession = Some idle_system, mJoinerUdpPort = Some 1000, mJoinerIid = Some (replicate 8 9),
     mJoinerRouterLocator = Some 0x4400, mRelayed = [], mKeepAliveRate = 15,
     mLastKeepAliveTime = Some 100, mKeepAliveTxCount = 0, mKeepAliveRxCount = 0\<rparr>"

definition sample_env :: comm_env where
  "sample_env = \<lparr>ce_lib = null_lib, ce_rets = [SslOk], ce_dtls = idle_env, ce_input = None,
     ce_datagram = None, ce_sent = (\<lambda>bs. int (length bs)), ce_now = 120\<rparr>"

definition empty_list :: "unit joiner_list" where
  "empty_list = \<lparr>jl_array = [], jl_vector = [], jl_steering = blank_steering, jl_updated = False\<rparr>"


text \<open>
  What a petition response does, TLV by TLV: the last State TLV decides the state (1 accepted,
  -1 rejected, anything else invalid), the last session id is kept, the keep-alive timer restarts,
  and then the commissioner petitions again, gives up or stays as it is.
\<close>

theorem petition_response:
  assumes "list_all response_ok ts" and "length (tlvs_bytes ts) < 65536"
  shows "HandleCommissionerPetition now (tlvs_bytes ts) c = Ok (next_action
    (c\<lparr>mCommissionState := answered_state ts (mCommissionState c),
       mCommissionerSessionId := answered_session ts (mCommissionerSessionId c), mLastKeepAliveTime := Some now\<rparr>))"
  by (rule petition_handled [OF assms])

theorem petition_response_witness:
  "\<exists>c'. HandleCommissionerPetition 5
      (tlvs_bytes [WTlv kState False [1], WTlv kCommissionerSessionId False [0xab, 0xcd]]) sample_commissioner = Ok c'
    \<and> IsCommissionerAccepted c' \<and> mCommissionerSessionId c' = Some 0xabcd \<and> mRequests c' = []"
proof -
  let ?ts = "[WTlv kState False [1], WTlv kCommissionerSessionId False [0xab, 0xcd]]"
  have ok: "list_all response_ok ?ts" "length (tlvs_bytes ?ts) < 65536"
    by (simp_all add: response_ok_def wire_ok_def tlv_bytes_def length_field_length kState_def kCommissionerSessionId_def)
  have ans: "answered_state ?ts kCommConnected = kCommAccepted"
    "answered_session ?ts (Some 0x1234) = Some 0xabcd"
    by (simp_all add: answered_state_def answered_session_def last_tlv_def meshcop_state_def meshcop_states
        kState_def kCommissionerSessionId_def tlv_u16_def)
  show ?thesis
    by (intro exI conjI, rule petition_response [OF ok])
      (simp_all add: ans next_action_def sample_commissioner_def IsCommissionerAccepted_def)
qed

text \<open>
  A pass of the main loop sends a keep-alive exactly when the commissioner is accepted, the
  rate is positive and more than that many seconds have passed since the last one; what it sends
  is one confirmable request whose TLVs are the accepted state and the session id, and the timer
  restarts.  Otherwise nothing changes.
\<close>

theorem keep_alive_due:
  assumes "mLastKeepAliveTime c = Some t0" and "mCommissionerSessionId c = Some session_id"
  shows "\<exists>c'. comm_keep_alive now c = Ok c' \<and>
    (if IsCommissionerAccepted c \<and> mKeepAliveRate c > 0 \<and> now - t0 > mKeepAliveRate c
     then (\<exists>m. mRequests c' = mRequests c @ [m]
       \<and> carries kTypeConfirmable OT_URI_PATH_COMMISSIONER_KEEP_ALIVE (Some OnCommissionerKeepAlive)
           [(kState, [1]), (kCommissionerSessionId, u16_bytes session_id)] m)
       \<and> mLastKeepAliveTime c' = Some now \<and> mKeepAliveTxCount c' = mKeepAliveTxCount c + 1
       \<and> IsCommissionerAccepted c'
     else c' = c)"
proof (cases "IsCommissionerAccepted c \<and> mKeepAliveRate c > 0 \<and> now - t0 > mKeepAliveRate c")
  case True
  have "list_all wire_ok (keepalive_request session_id)" "length (tlvs_bytes (keepalive_request session_id)) < 65536"
    by (simp_all add: keepalive_request_def tlv_bytes_def length_field_length wire_ok_def)
  from send_request_carries [OF this, of kTypeConfirmable "host_token32 (mCoapToken c + 1)"
      OT_URI_PATH_COMMISSIONER_KEEP_ALIVE "Some OnCommissionerKeepAlive"
      "c\<lparr>mCoapToken := mCoapToken c + 1, mLastKeepAliveTime := Some now, mKeepAliveTxCount := mKeepAliveTxCount c + 1\<rparr>"]
  show ?thesis
    using True assms CommissionerKeepAlive_ok [OF assms(2), of now]
    by (auto simp: comm_keep_alive_def initialized_def IsCommissionerAccepted_def keepalive_request_def kStateAccepted_def)
next
  case False
  with assms(1) show ?thesis
    by (auto simp: comm_keep_alive_def initialized_def IsCommissionerAccepted_def)
qed

theorem keep_alive_due_witness:
  "\<exists>c' m. comm_keep_alive 116 (sample_commissioner\<lparr>mCommissionState := kCommAccepted\<rparr>) = Ok c'
      \<and> mRequests c' = [m] \<and> carries kTypeConfirmable OT_URI_PATH_COMMISSIONER_KEEP_ALIVE
          (Some OnCommissionerKeepAlive) [(kState, [1]), (kCommissionerSessionId, [0x12, 0x34])] m
    \<and> comm_keep_alive 115 (sample_commissioner\<lparr>mCommissionState := kCommAccepted\<rparr>)
        = Ok (sample_commissioner\<lparr>mCommissionState := kCommAccepted\<rparr>)"
proof -
  let ?c = "sample_commissioner\<lparr>mCommissionState := kCommAccepted\<rparr>"
  have f: "mLastKeepAliveTime ?c = Some 100" "mCommissionerSessionId ?c = Some 0x1234" "IsCommissionerAccepted ?c"
    "mKeepAliveRate ?c = 15" "mRequests ?c = []" "u16_bytes 0x1234 = [0x12, 0x34]"
    by (simp_all add: sample_commissioner_def IsCommissionerAccepted_def u16_bytes_def)
  show ?thesis
    using keep_alive_due [OF f(1,2), of 116] keep_alive_due [OF f(1,2), of 115] f(3-6) by auto
qed

text \<open>
  C30: announcing the steering data sends one confirmable request whose TLVs are the session id
  and exactly the bytes of the Bloom filter in use; its response is handled by
  \<open>HandleCommissionerSet\<close>.
\<close>

theorem commissioner_set_announces:
  assumes "mCommissionerSessionId c = Some session_id" and "sd_inv sd"
  shows "\<exists>c' m. CommissionerSet sd c = Ok c' \<and> mRequests c' = mRequests c @ [m]
    \<and> carries kTypeConfirmable OT_URI_PATH_COMMISSIONER_SET (Some OnCommissionerSet)
        [(kCommissionerSessionId, u16_bytes session_id), (kSteeringData, take (mLength sd) (mBloomFilter sd))] m"
proof -
  have "mLength sd \<le> 16" "length (mBloomFilter sd) = 16"
    using assms(2) by (simp_all add: sd_inv_def kMaxSizeOfBloomFilter_def)
  then have "list_all wire_ok (set_request session_id sd)" "length (tlvs_bytes (set_request session_id sd)) < 65536"
    by (simp_all add: set_request_def tlv_bytes_def length_field_length wire_ok_def)
  from send_request_carries [OF this, of kTypeConfirmable "network_token (mCoapToken c + 1)"
      OT_URI_PATH_COMMISSIONER_SET "Some OnCommissionerSet" "c\<lparr>mCoapToken := mCoapToken c + 1\<rparr>"]
  show ?thesis
    by (simp add: CommissionerSet_ok [OF assms] set_request_def)
qed

theorem commissioner_set_announces_witness:
  "\<exists>c' m. CommissionerSet blank_steering sample_commissioner = Ok c' \<and> mRequests c' = [m]
    \<and> carries kTypeConfirmable OT_URI_PATH_COMMISSIONER_SET (Some OnCommissionerSet)
        [(kCommissionerSessionId, [0x12, 0x34]), (kSteeringData, replicate 15 0)] m"
proof -
  have f: "mCommissionerSessionId sample_commissioner = Some 0x1234" "mRequests sample_commissioner = []"
    "u16_bytes 0x1234 = [0x12, 0x34]" "take (mLength blank_steering) (mBloomFilter blank_steering) = replicate 15 0"
    by (simp_all add: sample_commissioner_def u16_bytes_def blank_steering_def kMaxSizeOfBloomFilter_def
        kSteeringDefaultLength_def)
  show ?thesis
    using commissioner_set_announces [OF f(1) blank_steering_inv(1)] f(2-4) by auto
qed

text \<open>
  The session id is never initialised by the constructor, and announcing the steering data
  before a response carried one reads it uninitialised.  Being connected is not enough: the DTLS
  handshake connects a fresh commissioner without a session id.
\<close>

theorem commissioner_set_before_session:
  assumes "new_Commissioner u rand fd pskc rate = Ok c0"
  shows "mCommissionState (TryDtlsHandshake SslOk c0) = kCommConnected \<and> IsValid (TryDtlsHandshake SslOk c0)
    \<and> CommissionerSet sd (TryDtlsHandshake SslOk c0) = Fault Uninitialized"
  using assms
  by (auto simp: new_Commissioner_def map_res_eq_Ok TryDtlsHandshake_def IsValid_def CommissionerSet_def
      initialized_def Let_def)

theorem commissioner_set_before_session_witness:
  "\<exists>c0. new_Commissioner 0 1 4 (replicate 16 0) 15 = Ok c0
    \<and> CommissionerSet blank_steering (TryDtlsHandshake SslOk c0) = Fault Uninitialized"
proof -
  obtain c0 where "new_Commissioner 0 1 4 (replicate 16 0) 15 = Ok c0"
    by (simp add: new_Commissioner_def read_bytes_def OT_PSKC_LENGTH_def)
  with commissioner_set_before_session [OF this] show ?thesis by blast
qed

text \<open>
  The response handlers read the first value byte of every TLV before they look at its type,
  so a response that ends with an empty TLV, of whatever type, makes each of them read past the
  payload, however well the TLVs before it are formed.
\<close>

theorem response_empty_tlv:
  assumes "list_all response_ok ts" and "length (tlvs_bytes ts) < 65534"
  shows "HandleCommissionerPetition now (tlvs_bytes ts @ [ty, 0]) c = Fault OutOfBounds
    \<and> HandleCommissionerSet (tlvs_bytes ts @ [ty, 0]) c = Fault OutOfBounds
    \<and> HandleCommissionerKeepAlive now (tlvs_bytes ts @ [ty, 0]) c = Fault OutOfBounds"
proof -
  let ?buf = "tlvs_bytes ts @ [ty, 0]"
  have size: "length ([] @ ?buf) < 65536" using assms(2) by simp
  have value8: "tlv_GetValueUInt8 ?buf (length (tlvs_bytes ts)) = Fault OutOfBounds"
    by (simp add: tlv_GetValueUInt8_def tlv_GetValue_def read_byte_def kLengthEscape_def)
  have lt: "LengthOf 0 (length (tlvs_bytes ts)) < length ?buf mod 65536"
    using assms(2) by (simp add: LengthOf_def)
  have "tlv_walk petition_step ?buf 0 s = Fault OutOfBounds" for s
    using petition.walk_through [OF assms(1) TrueI _ size, of s] value8 lt
    by (simp add: petition_act_def) (subst tlv_walk.simps, simp add: petition_step_def)
  moreover have "tlv_walk keepalive_step ?buf 0 s = Fault OutOfBounds" for s
    using keepalive.walk_through [OF assms(1) TrueI _ size, of s] value8 lt
    by (simp add: keepalive_act_def) (subst tlv_walk.simps, simp add: keepalive_step_def)
  ultimately show ?thesis
    by (simp add: HandleCommissionerPetition_def HandleCommissionerSet_def HandleCommissionerKeepAlive_def)
qed

theorem response_empty_tlv_witness:
  "HandleCommissionerPetition 5 (tlv_bytes (WTlv kState False [1]) @ [9, 0]) sample_commissioner = Fault OutOfBounds"
  using response_empty_tlv [of "[WTlv kState False [1]]" 5 9 sample_commissioner]
  by (simp add: response_ok_def wire_ok_def tlv_bytes_def length_field_length kState_def kCommissionerSessionId_def)

end
