(* ===== verification/Relay.thy ===== *)
theory Relay
  imports CommProps
begin

text \<open>
  The relay between the mesh and the joiner session: what \<open>SendRelayTransmit\<close> puts into its
  request and when its buffer overflows, and what \<open>HandleRelayReceive\<close> does with the TLVs of a
  relayed record, the choice of the joiner's credential included.
\<close>

section \<open>Overflow of a request buffer\<close>

lemma tlv_GetValue_header:
  assumes "n < 65536"
  shows "tlv_GetValue (pre @ ty # length_field n f @ post) (length pre)
    = Ok (length pre + 1 + length (length_field n f))"
  using length_field_cases [OF assms, of f] by (auto simp: tlv_GetValue_def word_of_nat_not_escape)

lemma tlv_put_overflow:
  assumes t: "wire_ok (WTlv ty f val)" and no_fit: "length rest < length (tlv_bytes (WTlv ty f val))"
  shows "tlv_put ty (tlv_SetValueBytes val f) (pre @ rest, length pre) = Fault Overflow"
proof (cases rest)
  case Nil
  then show ?thesis
    using write_bytes_overflow [of pre "length pre" "[]" "[ty]"] by (simp add: tlv_put_def tlv_SetType_def)
next
  case (Cons x tail)
  let ?lf = "length_field (length val) f"
  have s1: "tlv_SetType ty (pre @ rest) (length pre) = Ok (pre @ ty # tail)"
    using Cons write_bytes_at [of pre "length pre" "[ty]" rest] by (simp add: tlv_SetType_def)
  show ?thesis
  proof (cases "length tail < length ?lf")
    case True
    then have "tlv_SetLength (length val) f (pre @ ty # tail) (length pre) = Fault Overflow"
      using write_bytes_overflow [of "pre @ [ty]" "length pre + 1" tail ?lf] by (simp add: tlv_SetLength_def)
    with s1 show ?thesis by (simp add: tlv_put_def tlv_SetValueBytes_def)
  next
    case False
    let ?rest = "drop (length ?lf) tail"
    have s2: "tlv_SetLength (length val) f (pre @ ty # tail) (length pre) = Ok (pre @ ty # ?lf @ ?rest)"
      using False write_bytes_at [of "pre @ [ty]" "length pre + 1" ?lf tail] by (simp add: tlv_SetLength_def)
    have s3: "tlv_GetValue (pre @ ty # ?lf @ ?rest) (length pre) = Ok (length (pre @ ty # ?lf))"
      using tlv_GetValue_header [of "length val" pre ty f ?rest] t by (simp add: wire_ok_def)
    have "write_bytes ((pre @ ty # ?lf) @ ?rest) (length (pre @ ty # ?lf)) val = Fault Overflow"
      using no_fit Cons False by (intro write_bytes_overflow) (auto simp: tlv_bytes_def)
    with s1 s2 s3 show ?thesis by (simp add: tlv_put_def tlv_SetValueBytes_def)
  qed
qed

lemma tlv_put_all_overflow:
  "list_all wire_ok ts \<Longrightarrow> length rest < length (tlvs_bytes ts) \<Longrightarrow>
     tlv_put_all ts (pre @ rest, length pre) = Fault Overflow"
proof (induction ts arbitrary: pre rest)
  case Nil
  then show ?case by simp
next
  case (Cons t ts)
  from Cons.prems have t: "wire_ok (WTlv (w_type t) (w_force t) (w_value t))" by simp
  show ?case
  proof (cases "length rest < length (tlv_bytes t)")
    case True
    with tlv_put_overflow [OF t] show ?thesis by (simp add: tlv_put_all_def)
  next
    case False
    with Cons.IH [of "drop (length (tlv_bytes t)) rest" "pre @ tlv_bytes t"] Cons.prems
    have "tlv_put_all ts (pre @ tlv_bytes t @ drop (length (tlv_bytes t)) rest, length (pre @ tlv_bytes t)) = Fault Overflow"
      by simp
    with tlv_put_ok [OF t, of rest pre] False show ?thesis by (simp add: tlv_put_all_def)
  qed
qed

section \<open>From the joiner session to the mesh\<close>

lemma relay_wire_ok:
  assumes "length iid = 8" and "\<And>k. kek = Some k \<Longrightarrow> length k = 32" and "length bs \<le> 1500"
  shows "list_all wire_ok (relay_request bs port iid rloc kek)"
  using assms by (auto simp: relay_request_def wire_ok_def split: option.split)

text \<open>The room a record needs beside its own bytes.\<close>

definition relay_overhead :: "byte list \<Rightarrow> joiner_session \<Rightarrow> nat" where
  "relay_overhead bs js = 18 + (if length bs \<ge> 255 then 4 else 2) + (if mNeedAppendKek js then 34 else 0)"

lemma relay_size:
  assumes "relay_ready c port iid rloc srv js"
  shows "length (tlvs_bytes (relay_request bs port iid rloc (pending_kek js))) = length bs + relay_overhead bs js"
  using assms by (auto simp: relay_request_length relay_overhead_def relay_ready_def pending_kek_def)

lemma relay_transmitted:
  assumes ready: "relay_ready c port iid rloc srv js" and fit: "length bs + relay_overhead bs js \<le> 1500"
  shows "\<exists>c' m. SendRelayTransmit bs c = Ok c' \<and> mRequests c' = mRequests c @ [m]
    \<and> carries kTypeNonConfirmable OT_URI_PATH_RELAY_TX None
        ([(kJoinerDtlsEncapsulation, bs), (kJoinerUdpPort, u16_bytes port), (kJoinerIid, iid),
          (kJoinerRouterLocator, u16_bytes rloc)] @ (case pending_kek js of None \<Rightarrow> [] | Some k \<Rightarrow> [(kJoinerRouterKek, k)])) m
    \<and> mJoinerSession c' = Some (srv, js\<lparr>mNeedAppendKek := False\<rparr>)"
proof -
  let ?ts = "relay_request bs port iid rloc (pending_kek js)"
  have small: "length (tlvs_bytes ?ts) \<le> 1500" using fit relay_size [OF ready, of bs] by simp
  have ok: "list_all wire_ok ?ts"
    using ready fit by (intro relay_wire_ok) (auto simp: relay_ready_def pending_kek_def split: if_splits)
  have eq: "SendRelayTransmit bs c = Ok (send_request kTypeNonConfirmable (host_token16 (mCoapToken c + 1))
    OT_URI_PATH_RELAY_TX None (tlvs_bytes ?ts)
    (c\<lparr>mJoinerSession := Some (srv, js\<lparr>mNeedAppendKek := False\<rparr>), mCoapToken := mCoapToken c + 1\<rparr>))"
    using SendRelayTransmit_ok [OF ready] fit small by (simp add: kSizeMaxPacket_def)
  have "map (\<lambda>t. (w_type t, w_value t)) ?ts
    = [(kJoinerDtlsEncapsulation, bs), (kJoinerUdpPort, u16_bytes port), (kJoinerIid, iid),
        (kJoinerRouterLocator, u16_bytes rloc)] @ (case pending_kek js of None \<Rightarrow> [] | Some k \<Rightarrow> [(kJoinerRouterKek, k)])"
    by (simp add: relay_request_def split: option.split)
  with send_request_carries [OF ok, of kTypeNonConfirmable "host_token16 (mCoapToken c + 1)" OT_URI_PATH_RELAY_TX None
      "c\<lparr>mJoinerSession := Some (srv, js\<lparr>mNeedAppendKek := False\<rparr>), mCoapToken := mCoapToken c + 1\<rparr>"] small eq
  show ?thesis by auto
qed


text \<open>
  A datagram that is too long for the 1500 bytes of the buffer together with the other TLVs
  overflows it.  The socket is read into a buffer of 1500 bytes, so datagrams of 1479 bytes and
  more do that, and of 1445 and more while the key is to be sent.
\<close>

theorem relay_transmit_overflow:
  assumes ready: "relay_ready c port iid rloc srv js"
    and long: "length bs \<le> 1500" "1500 < length bs + relay_overhead bs js"
  shows "SendRelayTransmit bs c = Fault Overflow"
proof -
  let ?ts = "relay_request bs port iid rloc (pending_kek js)"
  have "list_all wire_ok ?ts"
    using ready long(1) by (intro relay_wire_ok) (auto simp: relay_ready_def pending_kek_def split: if_splits)
  from tlv_put_all_overflow [OF this, of "replicate kSizeMaxPacket 0" "[]"] show ?thesis
    using long(2) relay_size [OF ready, of bs]
    by (simp add: SendRelayTransmit_eq [OF ready] packet_def kSizeMaxPacket_def map_res_rbind)
qed

definition keyed :: joiner_session where
  "keyed = \<lparr>js_mKek = Some (replicate 32 0xee), mDtlsSession = None, mNeedAppendKek = True\<rparr>"

definition keyed_commissioner :: commissioner where
  "keyed_commissioner = sample_commissioner\<lparr>mJoinerSession := Some (fst idle_system, keyed)\<rparr>"

lemma keyed_ready: "relay_ready keyed_commissioner 1000 (replicate 8 9) 0x4400 (fst idle_system) keyed"
  by (simp add: relay_ready_def keyed_commissioner_def sample_commissioner_def keyed_def)


theorem relay_transmit_overflow_witness:
  "SendRelayTransmit (replicate 1445 1) keyed_commissioner = Fault Overflow"
  by (rule relay_transmit_overflow [OF keyed_ready]) (simp_all add: relay_overhead_def keyed_def)

section \<open>From the mesh to the joiner session\<close>

text \<open>The joiner an interface identifier names, and the credential it makes the session use.\<close>

definition listed_joiner :: "(byte list \<Rightarrow> byte list) \<Rightarrow> 'j joiner_list \<Rightarrow> byte list \<Rightarrow> joiner_instance option" where
  "listed_joiner sha jl iid = find (\<lambda>v. joiner_iid sha (mJoinerEui64Bin v) = iid) (jl_vector jl)"

definition use_credential :: "joiner_instance option \<Rightarrow> commissioner \<Rightarrow> commissioner" where
  "use_credential v c =
     (case v of None \<Rightarrow> c
      | Some v \<Rightarrow> c\<lparr>mJoinerSession := map_option (\<lambda>(srv, js).
          (srv\<lparr>mPSK := bytes_of_string (mJoinerPSKdAscii v)\<rparr>, js)) (mJoinerSession c)\<rparr>)"

definition relay_list_ok :: "'j joiner_list \<Rightarrow> bool" where
  "relay_list_ok jl \<longleftrightarrow> jl_vector jl \<noteq> [] \<and> length (jl_vector jl) < 2 ^ 32
     \<and> list_all (\<lambda>v. mJoinerPSKdAscii v \<noteq> [] \<and> length (mJoinerPSKdAscii v) \<le> 32) (jl_vector jl)"

lemma credential_set:
  assumes "mJoinerPSKdAscii v \<noteq> []" and "length (mJoinerPSKdAscii v) \<le> 32"
  shows "joiner_SetPSK (mJoinerPSKdAscii v) sys = Ok ((fst sys)\<lparr>mPSK := bytes_of_string (mJoinerPSKdAscii v)\<rparr>, snd sys)"
  using assms by (simp add: SetPSK_eq Let_def bytes_of_string_def)

lemma find_eui_loop_ok:
  assumes "relay_list_ok jl" and "unat num \<le> length (jl_vector jl)" and "length (jl_vector jl) - unat num < fuel"
  shows "find_eui_loop sha jl iid fuel num (Some sys) =
    Ok (case find (\<lambda>v. joiner_iid sha (mJoinerEui64Bin v) = iid) (drop (unat num) (jl_vector jl)) of
          None \<Rightarrow> Some sys
        | Some v \<Rightarrow> Some ((fst sys)\<lparr>mPSK := bytes_of_string (mJoinerPSKdAscii v)\<rparr>, snd sys))"
  using assms(2,3)
proof (induction fuel arbitrary: num)
  case 0
  then show ?case by simp
next
  case (Suc fuel)
  have vs: "jl_vector jl \<noteq> []" "length (jl_vector jl) < 2 ^ 32"
    using assms(1) by (simp_all add: relay_list_ok_def)
  show ?case
  proof (cases "unat num < length (jl_vector jl)")
    case False
    then show ?thesis using vs Suc.prems by (simp add: jl_GetJoinerInstance_eq)
  next
    case True
    let ?v = "jl_vector jl ! unat num"
    have "mJoinerPSKdAscii ?v \<noteq> [] \<and> length (mJoinerPSKdAscii ?v) \<le> 32"
      using assms(1) True by (auto simp: relay_list_ok_def list_all_length)
    then have psk: "joiner_SetPSK (mJoinerPSKdAscii ?v) sys
      = Ok ((fst sys)\<lparr>mPSK := bytes_of_string (mJoinerPSKdAscii ?v)\<rparr>, snd sys)"
      by (intro credential_set) simp_all
    have suc: "unat (num + 1) = Suc (unat num)"
      using True vs(2) by (simp add: unat_word_ariths)
    have d: "drop (unat num) (jl_vector jl) = ?v # drop (Suc (unat num)) (jl_vector jl)"
      using True by (simp add: Cons_nth_drop_Suc)
    show ?thesis
      using True vs psk Suc.IH [of "num + 1"] Suc.prems
      by (simp add: jl_GetJoinerInstance_eq d suc)
  qed
qed

lemma find_eui_loop_null:
  assumes "length (jl_vector jl) < 2 ^ 32"
    and "find (\<lambda>v. joiner_iid sha (mJoinerEui64Bin v) = iid) (drop (unat num) (jl_vector jl)) \<noteq> None"
    and "length (jl_vector jl) - unat num < fuel"
  shows "find_eui_loop sha jl iid fuel num None = Fault NullDeref"
  using assms(2,3)
proof (induction fuel arbitrary: num)
  case 0
  then show ?case by simp
next
  case (Suc fuel)
  have lt: "unat num < length (jl_vector jl)"
    using Suc.prems(1) by (rule contrapos_np) simp
  have suc: "unat (num + 1) = Suc (unat num)"
    using lt assms(1) by (simp add: unat_word_ariths)
  have d: "drop (unat num) (jl_vector jl) = jl_vector jl ! unat num # drop (Suc (unat num)) (jl_vector jl)"
    using lt by (simp add: Cons_nth_drop_Suc)
  have ne: "jl_vector jl \<noteq> []" using lt by auto
  show ?case
    using lt ne assms(1) Suc.IH [of "num + 1"] Suc.prems by (auto simp: jl_GetJoinerInstance_eq d suc)
qed

lemma FindEui_ok:
  assumes "relay_list_ok jl" and "mJoinerSession c \<noteq> None"
  shows "FindEui sha jl iid c = Ok (use_credential (listed_joiner sha jl iid) c)"
proof -
  obtain sys where sys: "mJoinerSession c = Some sys" using assms(2) by blast
  have same: "c\<lparr>mJoinerSession := Some sys\<rparr> = c" using sys by (cases c) simp
  show ?thesis
    using find_eui_loop_ok [OF assms(1), of 0 "Suc (length (jl_vector jl))" sha iid sys] sys
    by (simp add: FindEui_def use_credential_def listed_joiner_def same split_beta split: option.split)
qed

text \<open>What one TLV of a relayed record does.\<close>

definition relay_act ::
  "(byte list \<Rightarrow> byte list) \<Rightarrow> 'j joiner_list \<Rightarrow> (byte list \<Rightarrow> int) \<Rightarrow> wire_tlv \<Rightarrow> commissioner \<Rightarrow> bool \<times> commissioner" where
  "relay_act sha jl sent t c =
     (if w_type t = kJoinerDtlsEncapsulation
      then (if sent (w_value t) = -1 then (False, c) else (True, c\<lparr>mRelayed := mRelayed c @ [w_value t]\<rparr>))
      else (True,
        if w_type t = kJoinerUdpPort then c\<lparr>mJoinerUdpPort := Some (tlv_u16 t)\<rparr>
        else if w_type t = kJoinerIid
        then use_credential (listed_joiner sha jl (take 8 (w_value t))) (c\<lparr>mJoinerIid := Some (take 8 (w_value t))\<rparr>)
        else if w_type t = kJoinerRouterLocator then c\<lparr>mJoinerRouterLocator := Some (tlv_u16 t)\<rparr>
        else c))"

definition relay_ok :: "wire_tlv \<Rightarrow> bool" where
  "relay_ok t \<longleftrightarrow> wire_ok t
     \<and> (w_type t \<in> {kJoinerUdpPort, kJoinerRouterLocator} \<longrightarrow> 2 \<le> length (w_value t))
     \<and> (w_type t = kJoinerIid \<longrightarrow> 8 \<le> length (w_value t))"

definition relay_inv :: "'j joiner_list \<Rightarrow> commissioner \<Rightarrow> bool" where
  "relay_inv jl c \<longleftrightarrow> relay_list_ok jl \<and> mJoinerSession c \<noteq> None"

lemma relay_step_act:
  assumes t: "relay_ok t" and c: "relay_inv jl c"
  shows "relay_step sha jl sent (pre @ tlv_bytes t @ post) (length pre) c = Ok (relay_act sha jl sent t c)"
proof -
  have w: "wire_ok t" using t by (simp add: relay_ok_def)
  have find: "FindEui sha jl iid (c\<lparr>mJoinerIid := i\<rparr>)
    = Ok (use_credential (listed_joiner sha jl iid) (c\<lparr>mJoinerIid := i\<rparr>))" for iid i
    using c by (intro FindEui_ok) (simp_all add: relay_inv_def)
  obtain v where v: "tlv_GetValue (pre @ tlv_bytes t @ post) (length pre) = Ok v"
    "read_bytes (pre @ tlv_bytes t @ post) v (length (w_value t)) = Ok (w_value t)"
    using tlv_GetValue_bytes [OF w, of "length (w_value t)"] by fastforce
  have v8: "read_bytes (pre @ tlv_bytes t @ post) v 8 = Ok (take 8 (w_value t))" if "8 \<le> length (w_value t)"
    using tlv_GetValue_bytes [OF w that, of pre post] v(1) by simp
  have len: "tlv_GetLength (pre @ tlv_bytes t @ post) (length pre) = Ok (length (w_value t))"
    by (rule tlv_GetLength_wire [OF w])
  note u16 = tlv_GetValueUInt16_u16 [OF w, of pre post]
  show ?thesis
    using t v v8 u16 len by (simp add: relay_step_def relay_act_def tlv_GetType_wire relay_ok_def find)
qed

interpretation relay: tlv_handler "relay_step sha jl sent" "relay_act sha jl sent" relay_ok "relay_inv jl"
  for sha jl sent
proof
  fix t c
  assume "relay_ok t" "relay_inv jl c"
  then show "relay_inv jl (snd (relay_act sha jl sent t c))"
    by (auto simp: relay_inv_def relay_act_def use_credential_def split: option.split)
qed (simp_all add: relay_ok_def relay_step_act)

text \<open>The whole record: the joiner it names, and the values it leaves in the commissioner.\<close>

fun relay_credential :: "(byte list \<Rightarrow> byte list) \<Rightarrow> 'j joiner_list \<Rightarrow> wire_tlv list \<Rightarrow> joiner_instance option" where
  "relay_credential sha jl [] = None"
| "relay_credential sha jl (t # ts) =
     (case relay_credential sha jl ts of
        Some v \<Rightarrow> Some v
      | None \<Rightarrow> if w_type t = kJoinerIid then listed_joiner sha jl (take 8 (w_value t)) else None)"

definition last_value :: "byte \<Rightarrow> (wire_tlv \<Rightarrow> 'a) \<Rightarrow> wire_tlv list \<Rightarrow> 'a option \<Rightarrow> 'a option" where
  "last_value ty f ts x = (case last_tlv ty ts of None \<Rightarrow> x | Some t \<Rightarrow> Some (f t))"

definition relay_result :: "(byte list \<Rightarrow> byte list) \<Rightarrow> 'j joiner_list \<Rightarrow> wire_tlv list \<Rightarrow> commissioner \<Rightarrow> commissioner" where
  "relay_result sha jl ts c =
     (use_credential (relay_credential sha jl ts) c)
       \<lparr>mJoinerUdpPort := last_value kJoinerUdpPort tlv_u16 ts (mJoinerUdpPort c),
        mJoinerIid := last_value kJoinerIid (\<lambda>t. take 8 (w_value t)) ts (mJoinerIid c),
        mJoinerRouterLocator := last_value kJoinerRouterLocator tlv_u16 ts (mJoinerRouterLocator c),
        mRelayed := mRelayed c @ map w_value (filter (\<lambda>t. w_type t = kJoinerDtlsEncapsulation) ts)\<rparr>"

lemma last_value_simps:
  "last_value ty f [] x = x"
  "last_value ty f (t # ts) x = last_value ty f ts (if w_type t = ty then Some (f t) else x)"
  by (simp_all add: last_value_def last_tlv_Cons last_tlv_def [of _ "[]"] split: option.split)

lemma relay_types_distinct:
  "kJoinerDtlsEncapsulation \<noteq> kJoinerUdpPort" "kJoinerDtlsEncapsulation \<noteq> kJoinerIid"
  "kJoinerDtlsEncapsulation \<noteq> kJoinerRouterLocator" "kJoinerUdpPort \<noteq> kJoinerIid"
  "kJoinerUdpPort \<noteq> kJoinerRouterLocator" "kJoinerIid \<noteq> kJoinerRouterLocator"
  by (simp_all add: meshcop_types)

lemma use_credential_fields [simp]:
  "mJoinerUdpPort (use_credential v c) = mJoinerUdpPort c" "mJoinerIid (use_credential v c) = mJoinerIid c"
  "mJoinerRouterLocator (use_credential v c) = mJoinerRouterLocator c" "mRelayed (use_credential v c) = mRelayed c"
  by (simp_all add: use_credential_def split: option.split)

lemma use_credential_last:
  "use_credential w (use_credential v c) = use_credential (case w of None \<Rightarrow> v | Some u \<Rightarrow> Some u) c"
  by (cases "mJoinerSession c") (auto simp: use_credential_def split_beta split: option.split)

lemma use_credential_update:
  "use_credential v (c\<lparr>mJoinerUdpPort := p\<rparr>) = (use_credential v c)\<lparr>mJoinerUdpPort := p\<rparr>"
  "use_credential v (c\<lparr>mJoinerIid := i\<rparr>) = (use_credential v c)\<lparr>mJoinerIid := i\<rparr>"
  "use_credential v (c\<lparr>mJoinerRouterLocator := r\<rparr>) = (use_credential v c)\<lparr>mJoinerRouterLocator := r\<rparr>"
  "use_credential v (c\<lparr>mRelayed := m\<rparr>) = (use_credential v c)\<lparr>mRelayed := m\<rparr>"
  by (simp_all add: use_credential_def split: option.split)

lemma run_relay:
  "\<forall>t\<in>set ts. w_type t = kJoinerDtlsEncapsulation \<longrightarrow> sent (w_value t) \<noteq> -1 \<Longrightarrow>
     run_tlvs (relay_act sha jl sent) ts c = relay_result sha jl ts c"
proof (induction ts arbitrary: c)
  case Nil
  show ?case by (cases c) (simp add: relay_result_def use_credential_def last_value_simps)
next
  case (Cons t ts)
  then have "run_tlvs (relay_act sha jl sent) ts c' = relay_result sha jl ts c'" for c' by simp
  moreover have "fst (relay_act sha jl sent t c)"
    using Cons.prems by (simp add: relay_act_def)
  ultimately have "run_tlvs (relay_act sha jl sent) (t # ts) c = relay_result sha jl ts (snd (relay_act sha jl sent t c))"
    by (simp add: Let_def)
  also have "\<dots> = relay_result sha jl (t # ts) c"
    using Cons.prems relay_types_distinct
    by (auto simp: relay_act_def relay_result_def last_value_simps use_credential_update use_credential_last
        split: option.split)
  finally show ?case .
qed

lemma relay_received:
  assumes "relay_inv jl c" and "list_all relay_ok ts" and "length (tlvs_bytes ts) < 65536"
    and "\<forall>t\<in>set ts. w_type t = kJoinerDtlsEncapsulation \<longrightarrow> sent (w_value t) \<noteq> -1"
  shows "HandleRelayReceive sha jl sent (tlvs_bytes ts) c = Ok (relay_result sha jl ts c)"
  using relay.walk_payload [OF assms(2,1,3), of sha sent] run_relay [OF assms(4), of sha jl]
  by (simp add: HandleRelayReceive_def)

lemma last_tlv_mem: "last_tlv ty ts = Some t \<Longrightarrow> t \<in> set ts \<and> w_type t = ty"
  by (induction ts) (auto simp: last_tlv_Cons last_tlv_def [of _ "[]"] split: option.splits if_splits)

lemma u16_bytes_tlv_u16: "2 \<le> length (w_value t) \<Longrightarrow> u16_bytes (tlv_u16 t) = take 2 (w_value t)"
proof -
  assume "2 \<le> length (w_value t)"
  then obtain a b cs where v: "w_value t = a # b # cs"
    by (cases "w_value t" rule: list.exhaust; cases "tl (w_value t)") auto
  have "ucast (drop_bit 8 (push_bit 8 (ucast a) OR ucast b :: u16)) = a"
    by (rule bit_word_eqI) (auto simp: bit_simps dest: bit_imp_le_length)
  moreover have "ucast ((push_bit 8 (ucast a) OR ucast b :: u16) AND 0xff) = b"
    unfolding ff_mask by (rule bit_word_eqI) (auto simp: bit_simps dest: bit_imp_le_length)
  ultimately show ?thesis unfolding v tlv_u16_def u16_bytes_def by (simp only: nth_Cons_0 nth_Cons_Suc One_nat_def) simp
qed


definition sample_joiner :: joiner_instance where
  "sample_joiner = new_JoinerInstance\<lparr>mJoinerPSKdAscii := ''J01NME'', mJoinerEui64Bin := [1, 2, 3, 4, 5, 6, 7, 8]\<rparr>"

definition sample_list :: "unit joiner_list" where
  "sample_list = empty_list\<lparr>jl_vector := [sample_joiner]\<rparr>"

definition sample_record :: "wire_tlv list" where
  "sample_record = [WTlv kJoinerDtlsEncapsulation False [22, 254, 253], WTlv kJoinerUdpPort False [0x03, 0xe8],
     WTlv kJoinerIid False [1, 2, 3, 4, 5, 6, 7, 8], WTlv kJoinerRouterLocator False [0x44, 0x00]]"

lemma sample_record_facts:
  "list_all relay_ok sample_record" "length (tlvs_bytes sample_record) < 65536"
  "last_tlv kJoinerUdpPort sample_record = Some (WTlv kJoinerUdpPort False [0x03, 0xe8])"
  "last_tlv kJoinerIid sample_record = Some (WTlv kJoinerIid False [1, 2, 3, 4, 5, 6, 7, 8])"
  "last_tlv kJoinerRouterLocator sample_record = Some (WTlv kJoinerRouterLocator False [0x44, 0x00])"
  "relay_inv sample_list keyed_commissioner"
  "relay_credential id sample_list sample_record = Some sample_joiner"
  by (simp_all add: sample_record_def relay_ok_def wire_ok_def meshcop_types tlv_bytes_def length_field_length
      last_tlv_def relay_inv_def relay_list_ok_def sample_list_def sample_joiner_def empty_list_def
      keyed_commissioner_def listed_joiner_def joiner_iid_def kEui64Len_def)


text \<open>
  C32: a record whose first TLV names an interface identifier faults when no joiner list entry or
  no joiner session is there to handle it: with an empty list the search reads past the vector's
  end, and a listed identifier dereferences a null session when \<open>SetJoiner\<close> has not been called on
  this commissioner.
\<close>

theorem relay_receive_faults:
  assumes t: "wire_ok t" "w_type t = kJoinerIid" "8 \<le> length (w_value t)"
    and size: "length (tlv_bytes t @ rest) < 65536" "length (jl_vector jl) < 2 ^ 32"
  shows "(jl_vector jl = [] \<longrightarrow> HandleRelayReceive sha jl sent (tlv_bytes t @ rest) c = Fault OutOfBounds)
    \<and> (listed_joiner sha jl (take 8 (w_value t)) \<noteq> None \<and> mJoinerSession c = None
        \<longrightarrow> HandleRelayReceive sha jl sent (tlv_bytes t @ rest) c = Fault NullDeref)"
proof -
  obtain v where v: "tlv_GetValue ([] @ tlv_bytes t @ rest) (length ([] :: byte list)) = Ok v"
    "read_bytes ([] @ tlv_bytes t @ rest) v 8 = Ok (take 8 (w_value t))"
    using tlv_GetValue_bytes [OF t(1,3)] by blast
  have "0 < length (tlv_bytes t @ rest) mod 65536"
    using size(1) tlv_bytes_length_ge [of t] by simp
  then have "HandleRelayReceive sha jl sent (tlv_bytes t @ rest) c = Fault e"
    if "FindEui sha jl (take 8 (w_value t)) (c\<lparr>mJoinerIid := Some (take 8 (w_value t))\<rparr>) = Fault e" for e
    using that v t(2) relay_types_distinct tlv_GetType_wire [of "[]" t rest]
    by (simp add: HandleRelayReceive_def tlv_walk.simps [of _ _ 0] LengthOf_def relay_step_def map_res_rbind)
  moreover have "FindEui sha jl iid (c\<lparr>mJoinerIid := i\<rparr>) = Fault OutOfBounds" if "jl_vector jl = []" for iid i
    using that size(2) by (simp add: FindEui_def jl_GetJoinerInstance_eq map_res_rbind)
  moreover have "FindEui sha jl iid (c\<lparr>mJoinerIid := i\<rparr>) = Fault NullDeref"
    if "listed_joiner sha jl iid \<noteq> None" "mJoinerSession c = None" for iid i
    using that find_eui_loop_null [where jl = jl and num = 0 and fuel = "Suc (length (jl_vector jl))" and sha = sha and iid = iid] size(2)
    by (simp add: FindEui_def listed_joiner_def map_res_rbind)
  ultimately show ?thesis by blast
qed

theorem relay_receive_faults_witness:
  "HandleRelayReceive id sample_list (\<lambda>bs. 0) (tlv_bytes (WTlv kJoinerIid False [1, 2, 3, 4, 5, 6, 7, 8]) @ [])
      (sample_commissioner\<lparr>mJoinerSession := None\<rparr>) = Fault NullDeref
   \<and> HandleRelayReceive id empty_list (\<lambda>bs. 0) (tlv_bytes (WTlv kJoinerIid False [1, 2, 3, 4, 5, 6, 7, 8]) @ [])
      sample_commissioner = Fault OutOfBounds"
proof -
  let ?t = "WTlv kJoinerIid False [1, 2, 3, 4, 5, 6, 7, 8]"
  have t: "wire_ok ?t" "w_type ?t = kJoinerIid" "8 \<le> length (w_value ?t)" "length (tlv_bytes ?t @ []) < 65536"
    by (simp_all add: wire_ok_def tlv_bytes_def length_field_length)
  have l: "length (jl_vector sample_list) < 2 ^ 32" "length (jl_vector empty_list) < 2 ^ 32" "jl_vector empty_list = []"
    "listed_joiner id sample_list (take 8 (w_value ?t)) \<noteq> None"
    by (simp_all add: sample_list_def empty_list_def listed_joiner_def joiner_iid_def kEui64Len_def sample_joiner_def)
  show ?thesis
    using relay_receive_faults [OF t l(1), where sha = id and sent = "\<lambda>bs. 0"
          and c = "sample_commissioner\<lparr>mJoinerSession := None\<rparr>"]
      relay_receive_faults [OF t l(2), where sha = id and sent = "\<lambda>bs. 0" and c = sample_commissioner] l(3,4) by simp
qed

end
