(* ===== verification/Params.thy ===== *)
theory Params
  imports JoinerList PskcGen
begin

text \<open>
  \<open>inc/args_api.hpp\<close>: the parameters of the commissioner, set from a JSON document by the REST
  interface, and \<open>ComputePskc\<close> of \<open>commissioner/device_hash.cpp\<close>.

  The character arrays hold \<open>None\<close> until something is copied into them.  The constructor sets the
  JSON object only, so \<open>mParametersChanged\<close> is \<open>None\<close> as well, and the bytes of \<open>mXpanidBin\<close> are
  whatever the memory held.
\<close>

section \<open>State\<close>

lemmas param_sizes = kXpanidLength_def kNetworkNameLenMax_def kBorderRouterPassPhraseLen_def
  kPortNameBufSize_def kIPAddrNameBufSize_def

record 'j comm_args =
  json_obj :: 'j
  mAgentPort_ascii :: "string option"
  mAgentAddress_ascii :: "string option"
  mSendCommKATxRate :: "int option"
  mXpanidAscii :: "string option"
  mXpanidBin :: "byte list"
  mNetworkName :: "string option"
  mPassPhrase :: "string option"
  mPSKcBin :: "byte list option"
  mParametersChanged :: "bool option"

definition new_CommissionerArgs :: "'j jansson \<Rightarrow> byte list \<Rightarrow> 'j comm_args" where
  "new_CommissionerArgs api memory =
     \<lparr>json_obj = json_object_new api, mAgentPort_ascii = None, mAgentAddress_ascii = None,
      mSendCommKATxRate = None, mXpanidAscii = None, mXpanidBin = take kXpanidLength memory,
      mNetworkName = None, mPassPhrase = None, mPSKcBin = None, mParametersChanged = None\<rparr>"

definition args_Clear :: "'j jansson \<Rightarrow> 'j comm_args \<Rightarrow> 'j comm_args" where
  "args_Clear api a = a\<lparr>json_obj := json_object_new api\<rparr>"

definition args_Read :: "'j jansson \<Rightarrow> 'j comm_args \<Rightarrow> string" where
  "args_Read api a = json_dumps api (json_obj a)"

section \<open>Changing the parameters\<close>

text \<open>
  \<open>CopyString\<close>: an integer is printed with \<open>%llu\<close>, a string copied, anything else sets the error
  flag and leaves the array.  The state is the array and the flag.
\<close>

definition CopyString ::
  "'j jansson \<Rightarrow> nat \<Rightarrow> 'j option \<Rightarrow> string option \<Rightarrow> bool \<Rightarrow> (string option \<times> bool) res" where
  "CopyString api cap obj to error =
     (case Option.bind obj (json_integer_value api) of
        Some n \<Rightarrow> map_res (\<lambda>s. (Some s, error)) (strcpy_to cap (dec_string (nat (n mod 2 ^ 64))))
      | None \<Rightarrow>
          (case Option.bind obj (json_string_value api) of
             None \<Rightarrow> Ok (to, True)
           | Some s \<Rightarrow> map_res (\<lambda>s'. (Some s', error)) (strcpy_to cap s)))"

definition args_ComputePskc ::
  "(byte list \<Rightarrow> byte list \<Rightarrow> byte list) \<Rightarrow> byte list \<Rightarrow> string \<Rightarrow> string \<Rightarrow> byte list res" where
  "args_ComputePskc prf aExtPanIdBin aNetworkName aPassphrase =
     rbind (ComputePskc prf aExtPanIdBin aNetworkName aPassphrase fresh_Pskc)
       (\<lambda>pskcBin. read_bytes pskcBin 0 OT_PSKC_LENGTH)"

definition copy_fields :: "'j jansson \<Rightarrow> 'j \<Rightarrow> 'j comm_args \<Rightarrow> ('j comm_args \<times> bool) res" where
  "copy_fields api parsed a =
     (let get = json_object_get api parsed in
      rbind (CopyString api (kNetworkNameLenMax + 1) (get ''network_name'') (mNetworkName a) False) (\<lambda>(ntw, e1).
      rbind (CopyString api (kXpanidLength * 2 + 1) (get ''xpanid'') (mXpanidAscii a) e1) (\<lambda>(xpa, e2).
      rbind (CopyString api (kBorderRouterPassPhraseLen + 1) (get ''agent_pass'') (mPassPhrase a) e2) (\<lambda>(pas, e3).
      rbind (CopyString api kIPAddrNameBufSize (get ''agent_addr'') (mAgentAddress_ascii a) e3) (\<lambda>(adr, e4).
      rbind (CopyString api kPortNameBufSize (get ''agent_port'') (mAgentPort_ascii a) e4) (\<lambda>(prt, e5).
        Ok (a\<lparr>mAgentPort_ascii := prt, mAgentAddress_ascii := adr, mXpanidAscii := xpa,
              mNetworkName := ntw, mPassPhrase := pas\<rparr>, e5)))))))"

definition has_parameter :: "'j jansson \<Rightarrow> 'j \<Rightarrow> bool" where
  "has_parameter api parsed \<longleftrightarrow>
     json_object_get api parsed ''network_name'' \<noteq> None \<or> json_object_get api parsed ''xpanid'' \<noteq> None
     \<or> json_object_get api parsed ''agent_pass'' \<noteq> None \<or> json_object_get api parsed ''agent_addr'' \<noteq> None
     \<or> json_object_get api parsed ''agent_port'' \<noteq> None"

definition ParametersChange ::
  "'j jansson \<Rightarrow> (byte list \<Rightarrow> byte list \<Rightarrow> byte list) \<Rightarrow> string \<Rightarrow> 'j comm_args
     \<Rightarrow> (status_code \<times> 'j comm_args) res" where
  "ParametersChange api prf text a =
     (case json_loads api text of
        None \<Rightarrow> Ok (client_error, a)
      | Some json_parsed \<Rightarrow>
          if \<not> has_parameter api json_parsed then Ok (client_error, a)
          else rbind (copy_fields api json_parsed a) (\<lambda>(a1, error).
            if error then Ok (client_error, a1)
            else case (mXpanidAscii a1, mNetworkName a1, mPassPhrase a1) of
              (Some xpa, Some ntw, Some pas) \<Rightarrow>
                let xbin = snd (Hex2Bytes xpa (mXpanidBin a1) kXpanidLength) in
                rbind (args_ComputePskc prf xbin ntw pas) (\<lambda>pskc.
                  Ok (success_ok, a1\<lparr>mXpanidBin := xbin, mSendCommKATxRate := Some 15, mPSKcBin := Some pskc,
                    mParametersChanged := Some True, json_obj := json_object_update api (json_obj a1) json_parsed\<rparr>))
            | _ \<Rightarrow> Fault Uninitialized))"

section \<open>Library\<close>

text \<open>The text of a field of the document, as \<open>CopyString\<close> takes it.\<close>

definition field_text :: "'j jansson \<Rightarrow> 'j \<Rightarrow> string \<Rightarrow> string option" where
  "field_text api parsed key =
     (case json_object_get api parsed key of
        None \<Rightarrow> None
      | Some obj \<Rightarrow> (case json_integer_value api obj of
            Some n \<Rightarrow> Some (dec_string (nat (n mod 2 ^ 64)))
          | None \<Rightarrow> json_string_value api obj))"

lemma CopyString_text:
  "CopyString api cap (json_object_get api parsed key) to error =
     (case field_text api parsed key of
        None \<Rightarrow> Ok (to, True)
      | Some s \<Rightarrow> if length s < cap then Ok (Some s, error) else Fault Overflow)"
  by (cases "json_object_get api parsed key"; simp add: CopyString_def field_text_def strcpy_to_def map_res_rbind
      split: option.split)

lemma has_parameter_text: "field_text api parsed key = Some s \<Longrightarrow>
    key \<in> {''network_name'', ''xpanid'', ''agent_pass'', ''agent_addr'', ''agent_port''} \<Longrightarrow> has_parameter api parsed"
  by (auto simp: has_parameter_def field_text_def split: option.splits)

text \<open>The five texts with the room for each; a text fits when it is shorter than its array.\<close>

definition parameter_fields :: "(string \<times> nat) list" where
  "parameter_fields = [(''network_name'', 17), (''xpanid'', 17), (''agent_pass'', 65), (''agent_addr'', 46), (''agent_port'', 6)]"

definition fields_fit :: "'j jansson \<Rightarrow> 'j \<Rightarrow> bool" where
  "fields_fit api parsed \<longleftrightarrow>
     (\<forall>(key, cap)\<in>set parameter_fields. \<forall>s. field_text api parsed key = Some s \<longrightarrow> length s < cap)"

definition or_kept :: "string option \<Rightarrow> string option \<Rightarrow> string option" where
  "or_kept x old = (case x of None \<Rightarrow> old | Some s \<Rightarrow> Some s)"

lemma copy_fields_text:
  assumes "fields_fit api parsed"
  shows "copy_fields api parsed a =
    Ok (a\<lparr>mAgentPort_ascii := or_kept (field_text api parsed ''agent_port'') (mAgentPort_ascii a),
          mAgentAddress_ascii := or_kept (field_text api parsed ''agent_addr'') (mAgentAddress_ascii a),
          mXpanidAscii := or_kept (field_text api parsed ''xpanid'') (mXpanidAscii a),
          mNetworkName := or_kept (field_text api parsed ''network_name'') (mNetworkName a),
          mPassPhrase := or_kept (field_text api parsed ''agent_pass'') (mPassPhrase a)\<rparr>,
        \<not> (\<forall>(key, cap)\<in>set parameter_fields. field_text api parsed key \<noteq> None))"
  using assms
  by (simp add: copy_fields_def CopyString_text fields_fit_def parameter_fields_def param_sizes or_kept_def Let_def
      split: option.split)

lemma copy_fields_overflow:
  assumes "\<not> fields_fit api parsed"
  shows "copy_fields api parsed a = Fault Overflow"
  using assms
  by (auto simp: copy_fields_def CopyString_text fields_fit_def parameter_fields_def param_sizes Let_def
      split: option.splits)

lemma fields_fit_refused: "\<not> fields_fit api parsed \<Longrightarrow> has_parameter api parsed"
  by (auto simp: fields_fit_def parameter_fields_def dest: has_parameter_text)

lemma args_ComputePskc_ok:
  assumes "prf_ok prf" and "length xpan = 8" and "name \<noteq> []" and "length name \<le> 16"
  shows "args_ComputePskc prf xpan name pass = Ok (pbkdf2_F prf (bytes_of_string pass)
    (saltPrefix @ xpan @ bytes_of_string name) OT_ITERATION_COUNTS 1)"
  using ComputePskc_key [OF assms, of pass fresh_Pskc]
  by (auto simp: args_ComputePskc_def read_bytes_def)

lemma ParametersChange_ok:
  assumes "json_loads api text = Some doc" and "fields_fit api doc"
    and fields: "field_text api doc ''network_name'' = Some ntw" "field_text api doc ''xpanid'' = Some xpa"
      "field_text api doc ''agent_pass'' = Some pas" "field_text api doc ''agent_addr'' = Some adr"
      "field_text api doc ''agent_port'' = Some prt"
    and "ntw \<noteq> []" and "length (mXpanidBin a) = 8" and "prf_ok prf"
  shows "\<exists>a'. ParametersChange api prf text a = Ok (success_ok, a')
    \<and> mNetworkName a' = Some ntw \<and> mXpanidAscii a' = Some xpa \<and> mPassPhrase a' = Some pas
    \<and> mAgentAddress_ascii a' = Some adr \<and> mAgentPort_ascii a' = Some prt
    \<and> mXpanidBin a' = snd (Hex2Bytes xpa (mXpanidBin a) 8) \<and> mSendCommKATxRate a' = Some 15
    \<and> mPSKcBin a' = Some (pbkdf2_F prf (bytes_of_string pas)
        (saltPrefix @ mXpanidBin a' @ bytes_of_string ntw) OT_ITERATION_COUNTS 1)
    \<and> mParametersChanged a' = Some True \<and> json_obj a' = json_object_update api (json_obj a) doc"
proof -
  have "length ntw \<le> 16"
    using assms(2) fields(1) by (auto simp: fields_fit_def parameter_fields_def)
  moreover have "has_parameter api doc" using has_parameter_text [OF fields(1)] by simp
  ultimately show ?thesis
    using assms args_ComputePskc_ok [of "prf" "snd (Hex2Bytes xpa (mXpanidBin a) 8)" ntw pas]
    by (simp add: ParametersChange_def copy_fields_text parameter_fields_def or_kept_def kXpanidLength_def Let_def)
qed

section \<open>Properties\<close>

text \<open>
  C21: a document with all five parameters, as strings or integers that fit their arrays and with
  a network name that is not empty, is accepted: the arrays hold the texts, the extended PAN id
  the bytes its text decodes to, the PSKc is the PBKDF2 key of name, extended PAN id and pass
  phrase, the keep-alive rate is 15 and the change is flagged for the manager.
\<close>

theorem parameters_change:
  assumes "json_loads api text = Some doc" and "fields_fit api doc"
    and fields: "field_text api doc ''network_name'' = Some ntw" "field_text api doc ''xpanid'' = Some xpa"
      "field_text api doc ''agent_pass'' = Some pas" "field_text api doc ''agent_addr'' = Some adr"
      "field_text api doc ''agent_port'' = Some prt"
    and "ntw \<noteq> []" and "length (mXpanidBin a) = 8" and "prf_ok prf"
  shows "\<exists>a'. ParametersChange api prf text a = Ok (success_ok, a')
    \<and> mNetworkName a' = Some ntw \<and> mXpanidAscii a' = Some xpa \<and> mPassPhrase a' = Some pas
    \<and> mAgentAddress_ascii a' = Some adr \<and> mAgentPort_ascii a' = Some prt
    \<and> mXpanidBin a' = snd (Hex2Bytes xpa (mXpanidBin a) 8) \<and> mSendCommKATxRate a' = Some 15
    \<and> mPSKcBin a' = Some (pbkdf2_F prf (bytes_of_string pas)
        (saltPrefix @ mXpanidBin a' @ bytes_of_string ntw) OT_ITERATION_COUNTS 1)
    \<and> mParametersChanged a' = Some True \<and> json_obj a' = json_object_update api (json_obj a) doc"
  by (rule ParametersChange_ok [OF assms])

definition sample_document :: jdoc where
  "sample_document = JObj [(''network_name'', JStr ''OpenThread''), (''xpanid'', JStr ''DEAD1111DEAD2222''),
     (''agent_pass'', JStr ''test''), (''agent_addr'', JStr ''127.0.0.1''), (''agent_port'', JInt 49191)]"

lemma sample_document_texts:
  "field_text (jdoc_api d) sample_document ''network_name'' = Some ''OpenThread''"
  "field_text (jdoc_api d) sample_document ''xpanid'' = Some ''DEAD1111DEAD2222''"
  "field_text (jdoc_api d) sample_document ''agent_pass'' = Some ''test''"
  "field_text (jdoc_api d) sample_document ''agent_addr'' = Some ''127.0.0.1''"
  "field_text (jdoc_api d) sample_document ''agent_port'' = Some ''49191''"
  by (simp_all add: field_text_def sample_document_def jdoc_api_def dec_string_def base_string.simps)

lemma sample_document_loads:
  "fields_fit (jdoc_api (Some sample_document)) sample_document"
  "json_loads (jdoc_api (Some sample_document)) text = Some sample_document"
  "prf_ok (\<lambda>k m. replicate 16 (last m))"
  by (simp_all add: fields_fit_def parameter_fields_def sample_document_texts prf_ok_def) (simp add: jdoc_api_def)

theorem parameters_change_witness:
  "\<exists>a'. ParametersChange (jdoc_api (Some sample_document)) (\<lambda>k m. replicate 16 (last m)) ''text''
      (new_CommissionerArgs (jdoc_api None) (replicate 8 0)) = Ok (success_ok, a')
    \<and> mXpanidBin a' = [0xde, 0xad, 0x11, 0x11, 0xde, 0xad, 0x22, 0x22] \<and> mAgentPort_ascii a' = Some ''49191''
    \<and> mParametersChanged a' = Some True"
proof -
  have args: "mXpanidBin (new_CommissionerArgs (jdoc_api None) (replicate 8 0)) = replicate 8 0"
    by (simp add: new_CommissionerArgs_def kXpanidLength_def)
  have hex: "snd (Hex2Bytes ''DEAD1111DEAD2222'' (replicate 8 0) 8) = [0xde, 0xad, 0x11, 0x11, 0xde, 0xad, 0x22, 0x22]"
    by code_simp
  show ?thesis
    using parameters_change [OF sample_document_loads(2,1) sample_document_texts,
        of "new_CommissionerArgs (jdoc_api None) (replicate 8 0)" "\<lambda>k m. replicate 16 (last m)"] sample_document_loads(3)
    by (auto simp: args hex)
qed

text \<open>
  C37: a document that lacks a parameter (but not all five) is refused with a client error, and yet
  the parameters it has replace the old ones: the address and port are those the next
  connection uses, while the PSKc, the flag and the document shown by \<open>Read\<close> stay as they were.
\<close>

theorem parameters_refused_partially:
  assumes "json_loads api text = Some doc" and "fields_fit api doc" and "has_parameter api doc"
    and "\<exists>(key, cap)\<in>set parameter_fields. field_text api doc key = None"
  shows "\<exists>a'. ParametersChange api prf text a = Ok (client_error, a')
    \<and> mNetworkName a' = or_kept (field_text api doc ''network_name'') (mNetworkName a)
    \<and> mXpanidAscii a' = or_kept (field_text api doc ''xpanid'') (mXpanidAscii a)
    \<and> mPassPhrase a' = or_kept (field_text api doc ''agent_pass'') (mPassPhrase a)
    \<and> mAgentAddress_ascii a' = or_kept (field_text api doc ''agent_addr'') (mAgentAddress_ascii a)
    \<and> mAgentPort_ascii a' = or_kept (field_text api doc ''agent_port'') (mAgentPort_ascii a)
    \<and> mPSKcBin a' = mPSKcBin a \<and> mParametersChanged a' = mParametersChanged a \<and> json_obj a' = json_obj a"
  using assms by (auto simp: ParametersChange_def copy_fields_text)

theorem parameters_refused_partially_witness:
  "\<exists>a'. ParametersChange (jdoc_api (Some (JObj [(''agent_port'', JInt 7)]))) (\<lambda>k m. []) ''text''
      ((new_CommissionerArgs (jdoc_api None) [])\<lparr>mAgentPort_ascii := Some ''49191''\<rparr>) = Ok (client_error, a')
    \<and> mAgentPort_ascii a' = Some ''7''"
proof -
  let ?doc = "JObj [(''agent_port'', JInt 7)]"
  have texts: "field_text (jdoc_api (Some ?doc)) ?doc ''network_name'' = None"
    "field_text (jdoc_api (Some ?doc)) ?doc ''xpanid'' = None" "field_text (jdoc_api (Some ?doc)) ?doc ''agent_pass'' = None"
    "field_text (jdoc_api (Some ?doc)) ?doc ''agent_addr'' = None"
    "field_text (jdoc_api (Some ?doc)) ?doc ''agent_port'' = Some ''7''"
    by (simp_all add: field_text_def jdoc_api_def dec_string_def base_string.simps)
  have "json_loads (jdoc_api (Some ?doc)) ''text'' = Some ?doc" by (simp add: jdoc_api_def)
  moreover have "fields_fit (jdoc_api (Some ?doc)) ?doc" by (simp add: fields_fit_def parameter_fields_def texts)
  moreover have "has_parameter (jdoc_api (Some ?doc)) ?doc" using has_parameter_text [OF texts(5)] by simp
  moreover have "\<exists>(key, cap)\<in>set parameter_fields. field_text (jdoc_api (Some ?doc)) ?doc key = None"
    by (simp add: parameter_fields_def texts)
  ultimately obtain a' where
    "ParametersChange (jdoc_api (Some ?doc)) (\<lambda>k m. []) ''text''
      ((new_CommissionerArgs (jdoc_api None) [])\<lparr>mAgentPort_ascii := Some ''49191''\<rparr>) = Ok (client_error, a')"
    "mAgentPort_ascii a' = or_kept (field_text (jdoc_api (Some ?doc)) ?doc ''agent_port'') (Some ''49191'')"
    using parameters_refused_partially [of "jdoc_api (Some ?doc)" "''text''" ?doc "\<lambda>k m. []"
        "(new_CommissionerArgs (jdoc_api None) [])\<lparr>mAgentPort_ascii := Some ''49191''\<rparr>"] by auto
  then show ?thesis by (simp add: texts or_kept_def)
qed

text \<open>
  A parameter too long for its array (17 bytes for the name and the extended PAN id, 65 for
  the pass phrase, 46 for the address, 6 for the port) overflows it, in whatever field it is and
  whatever the other fields are; an empty network name makes the key derivation read an
  uninitialised length.
\<close>

theorem parameters_overflow:
  assumes "json_loads api text = Some doc"
  shows "(\<not> fields_fit api doc \<longrightarrow> ParametersChange api prf text a = Fault Overflow)
    \<and> (fields_fit api doc \<and> (\<forall>(key, cap)\<in>set parameter_fields. field_text api doc key \<noteq> None)
        \<and> field_text api doc ''network_name'' = Some [] \<and> length (mXpanidBin a) = 8
        \<longrightarrow> ParametersChange api prf text a = Fault Uninitialized)"
proof (intro conjI impI)
  assume "\<not> fields_fit api doc"
  with assms copy_fields_overflow [of api doc a] fields_fit_refused [of api doc]
  show "ParametersChange api prf text a = Fault Overflow" by (simp add: ParametersChange_def)
next
  assume H: "fields_fit api doc \<and> (\<forall>(key, cap)\<in>set parameter_fields. field_text api doc key \<noteq> None)
    \<and> field_text api doc ''network_name'' = Some [] \<and> length (mXpanidBin a) = 8"
  then obtain xpa pas where "field_text api doc ''xpanid'' = Some xpa" "field_text api doc ''agent_pass'' = Some pas"
    by (auto simp: parameter_fields_def)
  moreover have "has_parameter api doc" using H has_parameter_text [of api doc "''network_name''"] by simp
  moreover have "args_ComputePskc prf xbin [] pas = Fault Uninitialized" if "length xbin = 8" for xbin pas
    using ComputePskc_empty [OF that, of "prf" pas] by (simp add: args_ComputePskc_def)
  ultimately show "ParametersChange api prf text a = Fault Uninitialized"
    using assms H by (auto simp: ParametersChange_def copy_fields_text or_kept_def Let_def kXpanidLength_def)
qed

theorem parameters_overflow_witness:
  "ParametersChange (jdoc_api (Some (JObj [(''agent_port'', JInt 491910)]))) (\<lambda>k m. []) ''text''
     (new_CommissionerArgs (jdoc_api None) []) = Fault Overflow"
proof -
  let ?doc = "JObj [(''agent_port'', JInt 491910)]"
  have "field_text (jdoc_api (Some ?doc)) ?doc ''agent_port'' = Some ''491910''"
    by (simp add: field_text_def jdoc_api_def dec_string_def base_string.simps)
  then have "\<not> fields_fit (jdoc_api (Some ?doc)) ?doc" by (simp add: fields_fit_def parameter_fields_def)
  with parameters_overflow [of "jdoc_api (Some ?doc)" "''text''" ?doc] show ?thesis by (simp add: jdoc_api_def)
qed

end
