(* ===== verification/RestApi.thy ===== *)
theory RestApi
  imports Params
begin

text \<open>
  \<open>inc/comm_rest_api.hpp\<close> and \<open>src/comm_rest_api.cpp\<close>: the handlers of the REST interface, and
  the one-place status channel \<open>ReturnStatus\<close> between the worker threads and \<open>GET /network\<close>.

  A request is its body and its path; of a response the handlers set body, code and header.
  \<open>ReturnStatus\<close> is modelled twice: step by step, each step one access to shared memory or one
  operation of the mutex, for any number of threads; and as the two operations \<open>rs_Get\<close> and
  \<open>rs_Set\<close>, which is what the steps amount to when a call is not interrupted.  A step that has to
  wait is the fault \<open>Blocked\<close>.
\<close>

section \<open>The status channel\<close>

text \<open>
  The future: a null pointer while \<open>Reset\<close> replaces it, without a state once \<open>get\<close> has taken the
  value, waiting for its promise, or holding a value.
\<close>

datatype 'a rs_future = NoFuture | Taken | Pending | Ready 'a

record 'a return_status =
  rs_future :: "'a rs_future"
  old_status :: 'a
  rs_owner :: "nat option"

definition new_ReturnStatus :: "'a \<Rightarrow> 'a return_status" where
  "new_ReturnStatus d = \<lparr>rs_future = Pending, old_status = d, rs_owner = None\<rparr>"

text \<open>Where a call is: the calls of \<open>Get\<close> and of \<open>Set\<close>, up to the value returned.\<close>

datatype 'a rs_pc =
  GetIsReady | GetOld | GetLock | GetTake | GetReset 'a | GetRenew 'a | GetUnlock 'a |
  SetLock 'a | SetReset 'a | SetRenew 'a | SetValue 'a | SetOld 'a | SetUnlock |
  Returned "'a option"

fun rs_call :: "nat \<Rightarrow> 'a rs_pc \<Rightarrow> 'a return_status \<Rightarrow> ('a return_status \<times> 'a rs_pc) res" where
  "rs_call t GetIsReady st =
     (case rs_future st of
        NoFuture \<Rightarrow> Fault NullDeref
      | Taken \<Rightarrow> Fault Aborted
      | Pending \<Rightarrow> Ok (st, GetOld)
      | Ready _ \<Rightarrow> Ok (st, GetLock))"
| "rs_call t GetOld st = Ok (st, Returned (Some (old_status st)))"
| "rs_call t GetLock st =
     (if rs_owner st = None then Ok (st\<lparr>rs_owner := Some t\<rparr>, GetTake) else Fault Blocked)"
| "rs_call t GetTake st =
     (case rs_future st of
        NoFuture \<Rightarrow> Fault NullDeref
      | Taken \<Rightarrow> Fault Aborted
      | Pending \<Rightarrow> Fault Blocked
      | Ready v \<Rightarrow> Ok (st\<lparr>rs_future := Taken\<rparr>, GetReset v))"
| "rs_call t (GetReset v) st = Ok (st\<lparr>rs_future := NoFuture\<rparr>, GetRenew v)"
| "rs_call t (GetRenew v) st = Ok (st\<lparr>rs_future := Pending\<rparr>, GetUnlock v)"
| "rs_call t (GetUnlock v) st = Ok (st\<lparr>rs_owner := None\<rparr>, Returned (Some v))"
| "rs_call t (SetLock v) st =
     (if rs_owner st = None then Ok (st\<lparr>rs_owner := Some t\<rparr>, SetReset v) else Fault Blocked)"
| "rs_call t (SetReset v) st = Ok (st\<lparr>rs_future := NoFuture\<rparr>, SetRenew v)"
| "rs_call t (SetRenew v) st = Ok (st\<lparr>rs_future := Pending\<rparr>, SetValue v)"
| "rs_call t (SetValue v) st = Ok (st\<lparr>rs_future := Ready v\<rparr>, SetOld v)"
| "rs_call t (SetOld v) st = Ok (st\<lparr>old_status := v\<rparr>, SetUnlock)"
| "rs_call t SetUnlock st = Ok (st\<lparr>rs_owner := None\<rparr>, Returned None)"
| "rs_call t (Returned r) st = Fault Blocked"

text \<open>One thread's turn, a whole schedule, and a call that runs alone.\<close>

definition rs_turn :: "nat \<Rightarrow> 'a return_status \<times> 'a rs_pc list \<Rightarrow> ('a return_status \<times> 'a rs_pc list) res" where
  "rs_turn t sys =
     (if t < length (snd sys)
      then (case rs_call t (snd sys ! t) (fst sys) of
              Ok (st, pc) \<Rightarrow> Ok (st, (snd sys)[t := pc])
            | Fault e \<Rightarrow> if e = Blocked then Ok sys else Fault e)
      else Ok sys)"

definition rs_run :: "nat list \<Rightarrow> 'a return_status \<times> 'a rs_pc list \<Rightarrow> ('a return_status \<times> 'a rs_pc list) res" where
  "rs_run sched sys = fold_res rs_turn sched sys"

definition rs_Get :: "'a return_status \<Rightarrow> 'a \<times> 'a return_status" where
  "rs_Get st = (case rs_future st of Ready v \<Rightarrow> (v, st\<lparr>rs_future := Pending\<rparr>) | _ \<Rightarrow> (old_status st, st))"

definition rs_Set :: "'a \<Rightarrow> 'a return_status \<Rightarrow> 'a return_status" where
  "rs_Set v st = st\<lparr>rs_future := Ready v, old_status := v\<rparr>"

section \<open>The handlers\<close>

record request =
  getBody :: "byte list"
  getPath :: string

record response =
  rp_body :: "byte list"
  rp_code :: "status_code option"
  rp_header :: "(string \<times> string) list"

text \<open>\<open>str.c_str()\<close> ends at the first NUL; \<open>+ 9\<close> skips \<open>"/joiners/"\<close>.\<close>

definition string_of_body :: "byte list \<Rightarrow> string" where
  "string_of_body body = takeWhile (\<lambda>c. c \<noteq> CHR 0x00) (map (\<lambda>b. char_of (unat b)) body)"

definition path_eui :: "string \<Rightarrow> string res" where
  "path_eui path =
     (if length path < 9 then Fault OutOfBounds else Ok (takeWhile (\<lambda>c. c \<noteq> CHR 0x00) (drop 9 path)))"

definition JoinersWrite ::
  "'j jansson \<Rightarrow> (byte list \<Rightarrow> byte list) \<Rightarrow> request \<Rightarrow> 'j joiner_list \<Rightarrow> (status_code \<times> 'j joiner_list) res" where
  "JoinersWrite api sha req jl =
     (if getBody req = [] then Ok (client_error, jl) else jl_Write api sha (string_of_body (getBody req)) jl)"

definition JoinersEdit ::
  "'j jansson \<Rightarrow> (byte list \<Rightarrow> byte list) \<Rightarrow> request \<Rightarrow> 'j joiner_list \<Rightarrow> (status_code \<times> 'j joiner_list) res" where
  "JoinersEdit api sha req jl =
     (if getBody req = [] then Ok (client_error, jl)
      else rbind (path_eui (getPath req)) (\<lambda>eui. jl_Edit api sha (string_of_body (getBody req)) eui jl))"

definition JoinersRead ::
  "'j jansson \<Rightarrow> response \<Rightarrow> 'j joiner_list \<Rightarrow> (status_code \<times> response) res" where
  "JoinersRead api rp jl =
     map_res (\<lambda>string. (success_ok, rp\<lparr>rp_body := bytes_of_string string, rp_code := Some success_ok,
         rp_header := rp_header rp @ [(''200'', ''OK'')]\<rparr>)) (jl_Read api jl)"

definition JoinersClear :: "'j joiner_list \<Rightarrow> (status_code \<times> 'j joiner_list) res" where
  "JoinersClear jl = map_res (Pair success_ok) (jl_Clear jl)"

definition JoinersRemove ::
  "'j jansson \<Rightarrow> (byte list \<Rightarrow> byte list) \<Rightarrow> request \<Rightarrow> 'j joiner_list \<Rightarrow> (status_code \<times> 'j joiner_list) res" where
  "JoinersRemove api sha req jl =
     rbind (path_eui (getPath req)) (\<lambda>eui. map_res (\<lambda>r. (success_ok, snd r)) (jl_Remove api sha eui jl))"

definition NetworkWrite ::
  "'j jansson \<Rightarrow> (byte list \<Rightarrow> byte list \<Rightarrow> byte list) \<Rightarrow> request \<Rightarrow> 'j comm_args \<Rightarrow> (status_code \<times> 'j comm_args) res" where
  "NetworkWrite api hmac req a =
     (if getBody req = [] then Ok (client_error, a) else ParametersChange api hmac (string_of_body (getBody req)) a)"

definition NetworkRead ::
  "'j jansson \<Rightarrow> response \<Rightarrow> 'j comm_args \<Rightarrow> string return_status \<Rightarrow> status_code \<times> response \<times> string return_status" where
  "NetworkRead api rp a status =
     (case rs_Get status of (status_string, status') \<Rightarrow>
        (success_ok,
         rp\<lparr>rp_body := bytes_of_string (''Parameters: '' @ args_Read api a @ '', Commissioner status: '' @ status_string),
            rp_code := Some success_ok, rp_header := rp_header rp @ [(''200'', ''OK'')]\<rparr>,
         status'))"

section \<open>Properties of the status channel\<close>

text \<open>Calls made one after the other: \<open>Some v\<close> for \<open>Set(v)\<close> and \<open>None\<close> for \<open>Get()\<close>, each run to its end.\<close>

fun rs_calls :: "'a option list \<Rightarrow> 'a return_status \<Rightarrow> ('a option list \<times> 'a return_status) res" where
  "rs_calls [] st = Ok ([], st)"
| "rs_calls (call # calls) st =
     rbind (rs_run (replicate 6 0) (st, [case call of None \<Rightarrow> GetIsReady | Some v \<Rightarrow> SetLock v])) (\<lambda>sys.
       case snd sys of
         [Returned r] \<Rightarrow> map_res (\<lambda>out. (r # fst out, snd out)) (rs_calls calls (fst sys))
       | _ \<Rightarrow> Fault Blocked)"

fun register_calls :: "'a option list \<Rightarrow> 'a \<Rightarrow> 'a option list" where
  "register_calls [] v = []"
| "register_calls (None # calls) v = Some v # register_calls calls v"
| "register_calls (Some w # calls) v = None # register_calls calls w"

definition rs_idle :: "'a return_status \<Rightarrow> bool" where
  "rs_idle st \<longleftrightarrow> rs_owner st = None \<and> rs_future st \<in> {Pending, Ready (old_status st)}"

lemma rs_run_Cons: "rs_run (t # ts) sys = rbind (rs_turn t sys) (rs_run ts)"
  by (simp add: rs_run_def [abs_def])

lemma rs_run_Nil: "rs_run [] sys = Ok sys"
  by (simp add: rs_run_def)

lemma six: "replicate 6 (0 :: nat) = [0, 0, 0, 0, 0, 0]"
  by (simp add: eval_nat_numeral)

lemma rs_Get_alone:
  assumes "rs_idle st"
  shows "rs_run (replicate 6 0) (st, [GetIsReady]) = Ok (snd (rs_Get st), [Returned (Some (fst (rs_Get st)))])"
  using assms
  by (cases st) (auto simp: rs_idle_def six rs_run_Cons rs_run_Nil rs_turn_def rs_Get_def)

lemma rs_Set_alone:
  assumes "rs_idle st"
  shows "rs_run (replicate 6 0) (st, [SetLock v]) = Ok (rs_Set v st, [Returned None])"
  using assms
  by (cases st) (auto simp: rs_idle_def six rs_run_Cons rs_run_Nil rs_turn_def rs_Set_def)

lemma rs_idle_Get: "rs_idle st \<Longrightarrow> rs_idle (snd (rs_Get st)) \<and> fst (rs_Get st) = old_status st
    \<and> old_status (snd (rs_Get st)) = old_status st"
  by (auto simp: rs_idle_def rs_Get_def)

lemma rs_idle_Set: "rs_idle st \<Longrightarrow> rs_idle (rs_Set v st) \<and> old_status (rs_Set v st) = v"
  by (simp add: rs_idle_def rs_Set_def)

lemma rs_calls_register:
  "rs_idle st \<Longrightarrow> \<exists>st'. rs_calls calls st = Ok (register_calls calls (old_status st), st') \<and> rs_idle st'"
proof (induction calls arbitrary: st)
  case Nil
  then show ?case by simp
next
  case (Cons call calls)
  show ?case
  proof (cases call)
    case None
    with Cons.IH [of "snd (rs_Get st)"] rs_idle_Get [OF Cons.prems] rs_Get_alone [OF Cons.prems]
    show ?thesis by auto
  next
    case (Some v)
    with Cons.IH [of "rs_Set v st"] rs_idle_Set [OF Cons.prems] rs_Set_alone [OF Cons.prems]
    show ?thesis by auto
  qed
qed

text \<open>
  C20: as long as its calls do not overlap, the status channel is a register: every \<open>Get\<close> returns
  the value of the last \<open>Set\<close>, or the default before the first one, however often it is read,
  and no call waits or faults.
\<close>

theorem status_register:
  "\<exists>st. rs_calls calls (new_ReturnStatus d) = Ok (register_calls calls d, st)"
  using rs_calls_register [of "new_ReturnStatus d" calls] by (auto simp: new_ReturnStatus_def rs_idle_def)

text \<open>
  The state two readers can reach: one of them waits, inside the mutex, for a value that has
  already been taken.
\<close>

definition rs_outside :: "'a rs_pc \<Rightarrow> bool" where
  "rs_outside pc \<longleftrightarrow>
     (case pc of GetIsReady \<Rightarrow> True | GetOld \<Rightarrow> True | GetLock \<Rightarrow> True | SetLock _ \<Rightarrow> True | Returned _ \<Rightarrow> True | _ \<Rightarrow> False)"

definition rs_waiting :: "'a return_status \<times> 'a rs_pc list \<Rightarrow> bool" where
  "rs_waiting sys \<longleftrightarrow> rs_owner (fst sys) = Some 1 \<and> rs_future (fst sys) = Pending \<and> 1 < length (snd sys)
     \<and> snd sys ! 1 = GetTake \<and> (\<forall>t < length (snd sys). t \<noteq> 1 \<longrightarrow> rs_outside (snd sys ! t))"

definition rs_setters :: "'a return_status \<times> 'a rs_pc list \<Rightarrow> (nat \<times> 'a) set" where
  "rs_setters sys = {(t, v). t < length (snd sys) \<and> snd sys ! t = SetLock v}"

lemma rs_waiting_turn:
  assumes "rs_waiting sys"
  shows "\<exists>sys'. rs_turn t sys = Ok sys' \<and> rs_waiting sys' \<and> rs_setters sys' = rs_setters sys"
proof (cases "t < length (snd sys) \<and> t \<noteq> 1")
  case False
  with assms have "rs_turn t sys = Ok sys" by (auto simp: rs_turn_def rs_waiting_def)
  with assms show ?thesis by blast
next
  case True
  with assms have "rs_outside (snd sys ! t)" by (simp add: rs_waiting_def)
  with True assms show ?thesis
    by (cases "snd sys ! t")
      (auto simp: rs_turn_def rs_waiting_def rs_setters_def nth_list_update rs_outside_def split: if_splits)
qed

lemma rs_waiting_run:
  "rs_waiting sys \<Longrightarrow> \<exists>sys'. rs_run sched sys = Ok sys' \<and> rs_waiting sys' \<and> rs_setters sys' = rs_setters sys"
proof (induction sched arbitrary: sys)
  case Nil
  then show ?case by (simp add: rs_run_Nil)
next
  case (Cons t ts)
  then show ?case using rs_waiting_turn [OF Cons.prems, of t] by (fastforce simp: rs_run_Cons)
qed



section \<open>Properties of the handlers\<close>

text \<open>
  C37: \<open>DELETE /joiners/<eui64>\<close> answers with success whether the joiner was listed or not: the
  \<open>client_error_not_found\<close> that \<open>Remove\<close> gives for an unknown one is dropped.
\<close>

theorem joiners_remove_unknown:
  assumes "path_eui (getPath req) = Ok eui" and "find_eui api eui (jl_array jl) = Ok None"
  shows "jl_Remove api sha eui jl = Ok (client_error_not_found, jl) \<and> JoinersRemove api sha req jl = Ok (success_ok, jl)"
  using assms by (simp add: JoinersRemove_def jl_Remove_def)

theorem joiners_remove_unknown_witness:
  "JoinersRemove (jdoc_api None) id \<lparr>getBody = [], getPath = ''/joiners/18b4300000000002''\<rparr>
      \<lparr>jl_array = [], jl_vector = [], jl_steering = blank_steering, jl_updated = False\<rparr>
    = Ok (success_ok, \<lparr>jl_array = [], jl_vector = [], jl_steering = blank_steering, jl_updated = False\<rparr>)"
  using joiners_remove_unknown [of "\<lparr>getBody = [], getPath = ''/joiners/18b4300000000002''\<rparr>" "''18b4300000000002''"
      "jdoc_api None" "\<lparr>jl_array = [], jl_vector = [], jl_steering = blank_steering, jl_updated = False\<rparr>" id]
  by (simp add: path_eui_def)

end
