(* ===== verification/Admission.thy ===== *)
theory Admission
  imports RestApi Relay
begin

text \<open>
  How the REST interface, the joiner list, the steering data and the relay work together: what a
  request to add a joiner means for the device it names.
\<close>

lemma char_byte: "char_of (unat (byte_of_char c)) = (c :: char)"
  by (simp add: unat_byte_of_char)

lemma string_of_body_text: "CHR 0x00 \<notin> set s \<Longrightarrow> string_of_body (bytes_of_string s) = s"
  using c_str_id [of s] by (simp add: string_of_body_def bytes_of_string_def c_str_def char_byte comp_def)

lemma path_eui_joiner: "CHR 0x00 \<notin> set eui \<Longrightarrow> path_eui (''/joiners/'' @ eui) = Ok eui"
  using c_str_id [of eui] by (simp add: path_eui_def c_str_def)

lemma entry_of_instance:
  "jl_inv api sha jl \<Longrightarrow> v \<in> set (jl_vector jl)
     \<Longrightarrow> (mJoinerEui64Ascii v, mJoinerPSKdAscii v) \<in> set (jl_entries jl) \<and> mJoinerEui64Bin v = eui_bin (mJoinerEui64Ascii v)"
  by (auto simp: jl_entries_def joiner_entry_def jl_inv_def list_all_iff instance_ok_def)

lemma listed_joiner_entry:
  assumes "jl_inv api sha jl" and "(eui, psk) \<in> set (jl_entries jl)"
    and "\<And>e p. (e, p) \<in> set (jl_entries jl) \<Longrightarrow> joiner_iid sha (eui_bin e) = joiner_iid sha (eui_bin eui) \<Longrightarrow> p = psk"
  shows "\<exists>v. listed_joiner sha jl (joiner_iid sha (eui_bin eui)) = Some v \<and> mJoinerPSKdAscii v = psk"
proof (cases "listed_joiner sha jl (joiner_iid sha (eui_bin eui))")
  case None
  obtain v where "v \<in> set (jl_vector jl)" "mJoinerEui64Ascii v = eui"
    using assms(2) by (auto simp: jl_entries_def joiner_entry_def)
  with None entry_of_instance [OF assms(1), of v] show ?thesis
    by (auto simp: listed_joiner_def find_None_iff)
next
  case (Some v)
  then have "v \<in> set (jl_vector jl)" "joiner_iid sha (mJoinerEui64Bin v) = joiner_iid sha (eui_bin eui)"
    by (auto simp: listed_joiner_def find_Some_iff)
  with entry_of_instance [OF assms(1)] assms(3) Some show ?thesis by metis
qed

lemma remove_first_subset: "x \<in> set (remove_first P xs) \<Longrightarrow> x \<in> set xs"
  using set_remove_first_subset [of P xs] by blast

lemma length_remove_first: "length (remove_first P xs) \<le> length xs"
  by (induction xs) auto



end
