(* ===== verification/Plugin.thy ===== *)
theory Plugin
  imports RestApi Relay
begin

text \<open>
  \<open>src/comm.cpp\<close>, \<open>inc/comm.hpp\<close> and \<open>inc/thread_api.hpp\<close>: the plugin, whose manager thread
  creates a commissioner and a thread to run it whenever the parameters have changed, while the
  REST interface changes the parameters and the joiner list from other threads.

  A thread is a program counter; the steps of the threads and the REST requests interleave freely.
  Every step is one statement of the code (a call of another component is one step).  A step that
  has to wait for another thread is the fault \<open>Blocked\<close>, using a mutex against its rules is
  \<open>LockMisuse\<close>.  Commissioners live at addresses in a heap, so that \<open>commissioner\<close>, a raw pointer
  shared by all threads, can dangle.  \<open>ResetCommissioner\<close> starts a new manager before it stops the
  old one, so there can be several; the last one is the plugin's \<open>Mngr\<close>.
\<close>

section \<open>State\<close>

datatype thread_pc =
  CtInit | CtHandshake | CtPetition | CtNotify | CtSetActive | CtLoop | CtSelect | CtProcess |
  CtWasUpdated | CtAnnounce | CtSetJoiner | CtListFinished | CtStopCheck | CtExit | CtDone

record comm_thread =
  ct_pc :: thread_pc
  ct_stop :: bool

datatype manager_pc =
  MgrLoop | MgrStopOld | MgrJoinOld | MgrCreate | MgrStart | MgrSetPetitioning | MgrWait | MgrWaiting |
  MgrUnlock bool | MgrStopTimeout | MgrJoinTimeout | MgrSetTimeout | MgrClearFlag | MgrCont |
  MgrSetDisabled | MgrStopLast | MgrJoinLast | MgrFree | MgrReturn | MgrDone

text \<open>
  \<open>mg_locked\<close> is the state of \<open>cv_m\<close>, which \<open>lk\<close> believes to own throughout; \<open>mg_stop\<close> and
  \<open>ct_stop\<close> tell whether the promise of the \<open>Thread\<close> object has been set.
\<close>

record manager =
  mg_pc :: manager_pc
  mg_locked :: bool
  mg_notified :: bool
  mg_comm :: "nat option"
  mg_thread :: "comm_thread option"
  mg_stop :: bool

record 'j plugin =
  pl_list :: "'j joiner_list"
  pl_args :: "'j comm_args"
  pl_status :: "string return_status"
  pl_heap :: "(nat \<times> commissioner) list"
  pl_fresh :: nat
  pl_commissioner :: "nat option"
  pl_managers :: "manager list"

definition new_manager :: manager where
  "new_manager = \<lparr>mg_pc = MgrLoop, mg_locked = True, mg_notified = False, mg_comm = None, mg_thread = None, mg_stop = False\<rparr>"

definition new_CommissionerPlugin :: "'j joiner_list \<Rightarrow> 'j comm_args \<Rightarrow> 'j plugin" where
  "new_CommissionerPlugin jl args =
     \<lparr>pl_list = jl, pl_args = args, pl_status = rs_Set ''Disabled'' (new_ReturnStatus []), pl_heap = [],
      pl_fresh = 0, pl_commissioner = None, pl_managers = [new_manager]\<rparr>"

text \<open>What the code around the plugin is, and what a step of a thread finds.\<close>

record 'j plugin_lib =
  lib_json :: "'j jansson"
  lib_sha :: "byte list \<Rightarrow> byte list"
  lib_prf :: "byte list \<Rightarrow> byte list \<Rightarrow> byte list"

record thread_env =
  te_memory :: u32
  te_rand :: u32
  te_client_fd :: int
  te_connected :: "int option"
  te_handshake :: ssl_ret
  te_select_ok :: bool
  te_comm :: comm_env
  te_logger :: logger
  te_mbedtls_ok :: bool
  te_fd :: int
  te_bind_ok :: bool
  te_timed_out :: bool

section \<open>Access to the shared state\<close>

definition set_manager :: "nat \<Rightarrow> manager \<Rightarrow> 'j plugin \<Rightarrow> 'j plugin" where
  "set_manager i m p = p\<lparr>pl_managers := (pl_managers p)[i := m]\<rparr>"

definition set_status :: "string \<Rightarrow> 'j plugin \<Rightarrow> 'j plugin" where
  "set_status v p = p\<lparr>pl_status := rs_Set v (pl_status p)\<rparr>"

definition heap_at :: "nat \<Rightarrow> 'j plugin \<Rightarrow> commissioner option" where
  "heap_at a p = map_of (pl_heap p) a"

definition heap_put :: "nat \<Rightarrow> commissioner \<Rightarrow> 'j plugin \<Rightarrow> 'j plugin" where
  "heap_put a c p = p\<lparr>pl_heap := map (\<lambda>(b, d). (b, if b = a then c else d)) (pl_heap p)\<rparr>"

definition heap_free :: "nat option \<Rightarrow> 'j plugin \<Rightarrow> 'j plugin" where
  "heap_free a p = (case a of None \<Rightarrow> p | Some b \<Rightarrow> p\<lparr>pl_heap := filter (\<lambda>e. fst e \<noteq> b) (pl_heap p)\<rparr>)"

text \<open>\<open>commissioner->f()\<close> in a thread.\<close>

definition with_commissioner :: "(commissioner \<Rightarrow> 'a res) \<Rightarrow> 'j plugin \<Rightarrow> 'a res" where
  "with_commissioner f p =
     (case pl_commissioner p of
        None \<Rightarrow> Fault NullDeref
      | Some a \<Rightarrow> (case heap_at a p of None \<Rightarrow> Fault UseAfterFree | Some c \<Rightarrow> f c))"

definition update_commissioner :: "(commissioner \<Rightarrow> commissioner res) \<Rightarrow> 'j plugin \<Rightarrow> 'j plugin res" where
  "update_commissioner f p =
     with_commissioner (\<lambda>c. map_res (\<lambda>c'. heap_put (the (pl_commissioner p)) c' p) (f c)) p"

section \<open>The commissioner thread\<close>

definition valid_now :: "'j plugin \<Rightarrow> bool res" where
  "valid_now p = with_commissioner (\<lambda>c. Ok (IsValid c)) p"

definition goto :: "thread_pc \<Rightarrow> 'j plugin res \<Rightarrow> (thread_pc \<times> 'j plugin) res" where
  "goto pc r = map_res (Pair pc) r"

text \<open>One statement of \<open>CommissionerThread\<close>: the next program counter and the shared state.\<close>

definition thread_step ::
  "'j plugin_lib \<Rightarrow> thread_env \<Rightarrow> bool \<Rightarrow> thread_pc \<Rightarrow> 'j plugin \<Rightarrow> (thread_pc \<times> 'j plugin) res" where
  "thread_step lib env stop pc p =
     (case pc of
        CtInit \<Rightarrow>
          rbind (initialized (mAgentAddress_ascii (pl_args p))) (\<lambda>host.
          rbind (initialized (mAgentPort_ascii (pl_args p))) (\<lambda>port.
            goto CtHandshake (update_commissioner (InitDtls (te_connected env) host port) p)))
      | CtHandshake \<Rightarrow>
          if stop then Ok (CtExit, p)
          else goto (if is_want (te_handshake env) then CtHandshake else CtPetition)
                 (update_commissioner (\<lambda>c. Ok (TryDtlsHandshake (te_handshake env) c)) p)
      | CtPetition \<Rightarrow>
          rbind (valid_now p) (\<lambda>valid.
            if valid then goto CtNotify (update_commissioner CommissionerPetition p)
            else Ok (CtExit, set_status ''Petitioning error'' p))
      | CtNotify \<Rightarrow> Ok (CtSetActive, p)
      | CtSetActive \<Rightarrow> Ok (CtLoop, set_status ''Active'' p)
      | CtLoop \<Rightarrow> rbind (valid_now p) (\<lambda>valid. Ok (if valid then CtSelect else CtExit, p))
      | CtSelect \<Rightarrow>
          map_res (\<lambda>p1. if te_select_ok env then (CtProcess, p1) else (CtExit, set_status ''Receive error'' p1))
            (update_commissioner (\<lambda>c. map_res fst (comm_UpdateFdSet (ce_dtls (te_comm env)) {} (-1) (1, 0) c)) p)
      | CtProcess \<Rightarrow>
          goto CtWasUpdated (update_commissioner (comm_Process (lib_sha lib) (pl_list p) (te_comm env)) p)
      | CtWasUpdated \<Rightarrow> Ok (if jl_WasListUpdated (pl_list p) then CtAnnounce else CtStopCheck, p)
      | CtAnnounce \<Rightarrow> goto CtSetJoiner (update_commissioner (CommissionerSet (jl_GetSteering (pl_list p))) p)
      | CtSetJoiner \<Rightarrow>
          goto CtListFinished (update_commissioner
            (SetJoiner (te_logger env) (te_mbedtls_ok env) (te_fd env) (te_bind_ok env) ''DFLT'') p)
      | CtListFinished \<Rightarrow> Ok (CtStopCheck, p\<lparr>pl_list := jl_ListUpdateFinished (pl_list p)\<rparr>)
      | CtStopCheck \<Rightarrow> Ok (if stop then CtExit else CtLoop, p)
      | CtExit \<Rightarrow> Ok (CtDone, p)
      | CtDone \<Rightarrow> Fault Blocked)"

text \<open>The thread of manager \<open>i\<close> takes a step; \<open>notify_all\<close> reaches that manager.\<close>

definition run_thread :: "'j plugin_lib \<Rightarrow> thread_env \<Rightarrow> nat \<Rightarrow> 'j plugin \<Rightarrow> 'j plugin res" where
  "run_thread lib env i p =
     (if i < length (pl_managers p)
      then (case mg_thread (pl_managers p ! i) of
              None \<Rightarrow> Fault Blocked
            | Some th \<Rightarrow>
                map_res (\<lambda>(pc, p1).
                    let m = pl_managers p ! i in
                    set_manager i (m\<lparr>mg_notified := mg_notified m \<or> ct_pc th \<in> {CtNotify, CtExit},
                        mg_thread := Some (th\<lparr>ct_pc := pc\<rparr>)\<rparr>) p1)
                  (thread_step lib env (ct_stop th) (ct_pc th) p))
      else Fault Blocked)"

section \<open>The manager thread\<close>

text \<open>\<open>~Thread\<close>: the promise is set, then the thread joined.\<close>

definition stop_thread :: "manager \<Rightarrow> manager" where
  "stop_thread m = m\<lparr>mg_thread := map_option (\<lambda>th. th\<lparr>ct_stop := True\<rparr>) (mg_thread m)\<rparr>"

definition join_thread :: "manager \<Rightarrow> manager res" where
  "join_thread m =
     (case mg_thread m of
        None \<Rightarrow> Ok m
      | Some th \<Rightarrow> if ct_pc th = CtDone then Ok (m\<lparr>mg_thread := None\<rparr>) else Fault Blocked)"

definition create_commissioner :: "thread_env \<Rightarrow> nat \<Rightarrow> manager \<Rightarrow> 'j plugin \<Rightarrow> 'j plugin res" where
  "create_commissioner env i m p =
     rbind (initialized (mPSKcBin (pl_args p))) (\<lambda>pskc.
     rbind (initialized (mSendCommKATxRate (pl_args p))) (\<lambda>rate.
     rbind (new_Commissioner (te_memory env) (te_rand env) (te_client_fd env) pskc rate) (\<lambda>c.
       let a = pl_fresh p; p1 = heap_free (mg_comm m) p in
       Ok (set_manager i (m\<lparr>mg_comm := Some a, mg_pc := MgrStart\<rparr>)
             (p1\<lparr>pl_heap := pl_heap p1 @ [(a, c)], pl_fresh := Suc a, pl_commissioner := Some a\<rparr>)))))"

text \<open>
  One statement of \<open>ManagerThread\<close>.  \<open>wait_for\<close> may only be called with the mutex held; it
  returns \<open>timeout\<close> or not, and without a notification only by the timeout or spuriously.  The
  mutex is unlocked behind the back of \<open>lk\<close>, whose destructor unlocks it again.
\<close>

definition manager_step :: "'j plugin_lib \<Rightarrow> thread_env \<Rightarrow> nat \<Rightarrow> manager \<Rightarrow> 'j plugin \<Rightarrow> 'j plugin res" where
  "manager_step lib env i m p =
     (let next = (\<lambda>pc m' p'. Ok (set_manager i (m'\<lparr>mg_pc := pc\<rparr>) p')) in
      case mg_pc m of
        MgrLoop \<Rightarrow> rbind (initialized (mParametersChanged (pl_args p))) (\<lambda>changed.
            next (if changed then MgrStopOld else MgrCont) m p)
      | MgrStopOld \<Rightarrow> next MgrJoinOld (stop_thread m) p
      | MgrJoinOld \<Rightarrow> rbind (join_thread m) (\<lambda>m'. next MgrCreate m' p)
      | MgrCreate \<Rightarrow> create_commissioner env i m p
      | MgrStart \<Rightarrow> next MgrSetPetitioning (m\<lparr>mg_thread := Some \<lparr>ct_pc = CtInit, ct_stop = False\<rparr>\<rparr>) p
      | MgrSetPetitioning \<Rightarrow> next MgrWait m (set_status ''Petitioning'' p)
      | MgrWait \<Rightarrow> if mg_locked m then next MgrWaiting (m\<lparr>mg_notified := False\<rparr>) p else Fault LockMisuse
      | MgrWaiting \<Rightarrow> next (MgrUnlock (te_timed_out env)) m p
      | MgrUnlock timed_out \<Rightarrow>
          if mg_locked m then next (if timed_out then MgrStopTimeout else MgrClearFlag) (m\<lparr>mg_locked := False\<rparr>) p
          else Fault LockMisuse
      | MgrStopTimeout \<Rightarrow> next MgrJoinTimeout (stop_thread m) p
      | MgrJoinTimeout \<Rightarrow> rbind (join_thread m) (\<lambda>m'. next MgrSetTimeout m' p)
      | MgrSetTimeout \<Rightarrow> next MgrClearFlag m (set_status ''Timeout'' p)
      | MgrClearFlag \<Rightarrow> next MgrCont m (p\<lparr>pl_args := (pl_args p)\<lparr>mParametersChanged := Some False\<rparr>\<rparr>)
      | MgrCont \<Rightarrow> next (if mg_stop m then MgrSetDisabled else MgrLoop) m p
      | MgrSetDisabled \<Rightarrow> next MgrStopLast m (set_status ''Disabled'' p)
      | MgrStopLast \<Rightarrow> next MgrJoinLast (stop_thread m) p
      | MgrJoinLast \<Rightarrow> rbind (join_thread m) (\<lambda>m'. next MgrFree m' p)
      | MgrFree \<Rightarrow> next MgrReturn (m\<lparr>mg_comm := None\<rparr>) (heap_free (mg_comm m) p)
      | MgrReturn \<Rightarrow> if mg_locked m then next MgrDone (m\<lparr>mg_locked := False\<rparr>) p else Fault LockMisuse
      | MgrDone \<Rightarrow> Fault Blocked)"

definition run_manager :: "'j plugin_lib \<Rightarrow> thread_env \<Rightarrow> nat \<Rightarrow> 'j plugin \<Rightarrow> 'j plugin res" where
  "run_manager lib env i p =
     (if i < length (pl_managers p) then manager_step lib env i (pl_managers p ! i) p else Fault Blocked)"

section \<open>Requests\<close>

text \<open>
  The routes of \<open>CommCreate\<close>.  \<open>DELETE /network\<close> is \<open>ResetCommissioner\<close>: the new manager runs
  from then on, the old one is asked to stop.
\<close>

datatype rest_call =
  PostNetwork request | GetNetwork response | DeleteNetwork |
  PostJoiners request | PutJoiner request | DeleteJoiners | DeleteJoiner request | GetJoiners response

definition ResetCommissioner :: "'j plugin_lib \<Rightarrow> 'j plugin \<Rightarrow> 'j plugin res" where
  "ResetCommissioner lib p =
     rbind (jl_Clear (pl_list p)) (\<lambda>jl.
       Ok (p\<lparr>pl_args := args_Clear (lib_json lib) (pl_args p), pl_list := jl,
             pl_managers := (case rev (pl_managers p) of
                 [] \<Rightarrow> [new_manager]
               | m # ms \<Rightarrow> rev ms @ [m\<lparr>mg_stop := True\<rparr>, new_manager])\<rparr>))"

definition NetworkDelete :: "'j plugin_lib \<Rightarrow> 'j plugin \<Rightarrow> (status_code \<times> 'j plugin) res" where
  "NetworkDelete lib p = map_res (Pair success_ok) (ResetCommissioner lib p)"

declare NetworkDelete_def [simp]

definition run_request ::
  "'j plugin_lib \<Rightarrow> rest_call \<Rightarrow> 'j plugin \<Rightarrow> (status_code \<times> response option \<times> 'j plugin) res" where
  "run_request lib call p =
     (let on_list = map_res (\<lambda>(code, jl). (code, None, p\<lparr>pl_list := jl\<rparr>)) in
      case call of
        PostNetwork req \<Rightarrow>
          map_res (\<lambda>(code, a). (code, None, p\<lparr>pl_args := a\<rparr>)) (NetworkWrite (lib_json lib) (lib_prf lib) req (pl_args p))
      | GetNetwork rp \<Rightarrow>
          (case NetworkRead (lib_json lib) rp (pl_args p) (pl_status p) of
             (code, rp', status) \<Rightarrow> Ok (code, Some rp', p\<lparr>pl_status := status\<rparr>))
      | DeleteNetwork \<Rightarrow> map_res (\<lambda>(code, p'). (code, None, p')) (NetworkDelete lib p)
      | PostJoiners req \<Rightarrow> on_list (JoinersWrite (lib_json lib) (lib_sha lib) req (pl_list p))
      | PutJoiner req \<Rightarrow> on_list (JoinersEdit (lib_json lib) (lib_sha lib) req (pl_list p))
      | DeleteJoiners \<Rightarrow> on_list (JoinersClear (pl_list p))
      | DeleteJoiner req \<Rightarrow> on_list (JoinersRemove (lib_json lib) (lib_sha lib) req (pl_list p))
      | GetJoiners rp \<Rightarrow>
          map_res (\<lambda>(code, rp'). (code, Some rp', p)) (JoinersRead (lib_json lib) rp (pl_list p)))"

section \<open>Runs\<close>

datatype event = EvManager nat thread_env | EvThread nat thread_env | EvRequest rest_call

definition plugin_event :: "'j plugin_lib \<Rightarrow> event \<Rightarrow> 'j plugin \<Rightarrow> 'j plugin res" where
  "plugin_event lib ev p =
     (case ev of
        EvManager i env \<Rightarrow> run_manager lib env i p
      | EvThread i env \<Rightarrow> run_thread lib env i p
      | EvRequest call \<Rightarrow> map_res (\<lambda>r. snd (snd r)) (run_request lib call p))"

text \<open>A blocked step waits: the state is as before.\<close>

definition plugin_turn :: "'j plugin_lib \<Rightarrow> event \<Rightarrow> 'j plugin \<Rightarrow> 'j plugin res" where
  "plugin_turn lib ev p =
     (case plugin_event lib ev p of Ok p' \<Rightarrow> Ok p' | Fault e \<Rightarrow> if e = Blocked then Ok p else Fault e)"

definition plugin_run :: "'j plugin_lib \<Rightarrow> event list \<Rightarrow> 'j plugin \<Rightarrow> 'j plugin res" where
  "plugin_run lib evs p = fold_res (plugin_turn lib) evs p"

section \<open>The invariant of a plugin that is not reset\<close>

definition heap_keys :: "'j plugin \<Rightarrow> nat list" where
  "heap_keys p = map fst (pl_heap p)"

definition manager_inv :: "manager \<Rightarrow> 'j plugin \<Rightarrow> bool" where
  "manager_inv m p \<longleftrightarrow>
     (mg_thread m \<noteq> None \<longrightarrow> mg_comm m \<noteq> None)
     \<and> (mg_pc m \<in> {MgrCreate, MgrStart, MgrFree, MgrReturn, MgrDone} \<longrightarrow> mg_thread m = None)
     \<and> (mg_pc m = MgrStart \<longrightarrow> mg_comm m \<noteq> None)
     \<and> (mg_comm m \<noteq> None \<longrightarrow> pl_commissioner p = mg_comm m)
     \<and> heap_keys p = (case mg_comm m of None \<Rightarrow> [] | Some a \<Rightarrow> [a])"

definition plugin_inv :: "'j plugin \<Rightarrow> bool" where
  "plugin_inv p \<longleftrightarrow> (\<exists>m. pl_managers p = [m] \<and> manager_inv m p)"

lemma heap_at_key: "a \<in> set (heap_keys p) \<Longrightarrow> \<exists>c. heap_at a p = Some c"
  by (auto simp: heap_keys_def heap_at_def weak_map_of_SomeI)

lemma heap_keys_simps [simp]:
  "heap_keys (heap_put a c p) = heap_keys p" "heap_keys (set_manager i m p) = heap_keys p"
  "heap_keys (set_status v p) = heap_keys p" "heap_keys (p\<lparr>pl_args := args\<rparr>) = heap_keys p"
  "heap_keys (p\<lparr>pl_list := jl\<rparr>) = heap_keys p" "heap_keys (p\<lparr>pl_status := st\<rparr>) = heap_keys p"
  by (simp_all add: heap_keys_def heap_put_def set_manager_def set_status_def case_prod_unfold comp_def)

lemma manager_inv_state:
  assumes "pl_commissioner p' = pl_commissioner p" and "heap_keys p' = heap_keys p"
  shows "manager_inv m p' = manager_inv m p"
  using assms by (simp add: manager_inv_def)

lemma shared_fields [simp]:
  "pl_commissioner (heap_put a c p) = pl_commissioner p" "pl_managers (heap_put a c p) = pl_managers p"
  "pl_commissioner (set_status v p) = pl_commissioner p" "pl_managers (set_status v p) = pl_managers p"
  "pl_commissioner (set_manager i m p) = pl_commissioner p"
  "pl_managers (set_manager i m p) = (pl_managers p)[i := m]"
  by (simp_all add: heap_put_def set_status_def set_manager_def)

lemma update_commissioner_keeps:
  "update_commissioner f p = Ok p' \<Longrightarrow>
     pl_commissioner p' = pl_commissioner p \<and> heap_keys p' = heap_keys p \<and> pl_managers p' = pl_managers p"
  by (auto simp: update_commissioner_def with_commissioner_def map_res_eq_Ok split: option.splits)

lemma thread_step_keeps:
  "thread_step lib env stop pc p = Ok (pc', p') \<Longrightarrow>
     pl_commissioner p' = pl_commissioner p \<and> heap_keys p' = heap_keys p \<and> pl_managers p' = pl_managers p"
  by (cases pc)
    (auto simp: thread_step_def goto_def rbind_eq_Ok map_res_eq_Ok valid_now_def
      dest!: update_commissioner_keeps split: if_splits)

text \<open>The thread changes nothing of its manager but its own program counter and the notification.\<close>

definition same_but_thread :: "manager \<Rightarrow> manager \<Rightarrow> bool" where
  "same_but_thread m m' \<longleftrightarrow> mg_pc m' = mg_pc m \<and> mg_locked m' = mg_locked m \<and> mg_comm m' = mg_comm m \<and> mg_stop m' = mg_stop m
     \<and> (mg_thread m' = None \<longleftrightarrow> mg_thread m = None)"

lemma run_thread_eq:
  assumes "run_thread lib env i p = Ok p'"
  obtains m' p1 where "p' = set_manager i m' p1" "same_but_thread (pl_managers p ! i) m'" "i < length (pl_managers p)"
    "pl_commissioner p1 = pl_commissioner p" "heap_keys p1 = heap_keys p" "pl_managers p1 = pl_managers p"
proof -
  from assms obtain th pc p1 where i: "i < length (pl_managers p)" "mg_thread (pl_managers p ! i) = Some th"
    and st: "thread_step lib env (ct_stop th) (ct_pc th) p = Ok (pc, p1)"
    and p': "p' = set_manager i ((pl_managers p ! i)\<lparr>mg_notified := mg_notified (pl_managers p ! i) \<or> ct_pc th \<in> {CtNotify, CtExit},
        mg_thread := Some (th\<lparr>ct_pc := pc\<rparr>)\<rparr>) p1"
    by (auto simp: run_thread_def map_res_eq_Ok Let_def split: if_splits option.splits)
  show thesis
    using that [OF p'] i thread_step_keeps [OF st] by (simp add: same_but_thread_def)
qed

lemma plugin_inv_set: "pl_managers p = [m] \<Longrightarrow> plugin_inv (set_manager 0 m' p) \<longleftrightarrow> manager_inv m' p"
  by (simp add: plugin_inv_def manager_inv_def)

lemma run_thread_inv:
  assumes "run_thread lib env i p = Ok p'" and "plugin_inv p"
  shows "plugin_inv p'"
proof -
  from assms(2) obtain m where m: "pl_managers p = [m]" "manager_inv m p" by (auto simp: plugin_inv_def)
  from assms(1) obtain m' p1 where r: "p' = set_manager i m' p1" "same_but_thread (pl_managers p ! i) m'"
    "i < length (pl_managers p)" "pl_commissioner p1 = pl_commissioner p" "heap_keys p1 = heap_keys p"
    "pl_managers p1 = pl_managers p" by (rule run_thread_eq)
  from r m have "manager_inv m' p1" by (simp add: manager_inv_def same_but_thread_def)
  with r m show ?thesis by (simp add: plugin_inv_set)
qed

lemma new_Commissioner_key:
  "create_commissioner env i m p = Ok p' \<Longrightarrow> i < length (pl_managers p) \<Longrightarrow>
     pl_managers p' = (pl_managers p)[i := m\<lparr>mg_comm := Some (pl_fresh p), mg_pc := MgrStart\<rparr>]
     \<and> pl_commissioner p' = Some (pl_fresh p) \<and> heap_keys p' = heap_keys (heap_free (mg_comm m) p) @ [pl_fresh p]"
  by (auto simp: create_commissioner_def rbind_eq_Ok Let_def set_manager_def heap_keys_def heap_free_def split: option.splits)

lemma heap_free_facts [simp]:
  "pl_managers (heap_free a p) = pl_managers p" "pl_commissioner (heap_free a p) = pl_commissioner p"
  "heap_keys (heap_free a p) = (case a of None \<Rightarrow> heap_keys p | Some b \<Rightarrow> filter (\<lambda>c. c \<noteq> b) (heap_keys p))"
  by (simp_all add: heap_free_def heap_keys_def filter_map comp_def split: option.split)

lemma stop_thread_fields [simp]:
  "mg_pc (stop_thread m) = mg_pc m" "mg_comm (stop_thread m) = mg_comm m"
  "mg_thread (stop_thread m) = None \<longleftrightarrow> mg_thread m = None" "mg_locked (stop_thread m) = mg_locked m"
  by (simp_all add: stop_thread_def)

lemma join_thread_Ok:
  "join_thread m = Ok m' \<longleftrightarrow> m' = m\<lparr>mg_thread := None\<rparr> \<and> (\<forall>th. mg_thread m = Some th \<longrightarrow> ct_pc th = CtDone)"
  by (cases m) (auto simp: join_thread_def split: option.splits)

lemma join_thread_finished:
  "\<forall>th. mg_thread m = Some th \<longrightarrow> ct_pc th = CtDone \<Longrightarrow> join_thread m = Ok (m\<lparr>mg_thread := None\<rparr>)"
  by (simp add: join_thread_Ok)

lemma manager_step_inv:
  assumes "manager_step lib env 0 m p = Ok p'" and "pl_managers p = [m]" and "manager_inv m p"
  shows "plugin_inv p'"
proof (cases "mg_pc m = MgrCreate")
  case True
  with assms new_Commissioner_key [of env 0 m p p'] show ?thesis
    by (auto simp: manager_step_def plugin_inv_def manager_inv_def split: option.splits)
next
  case False
  note inv = assms(3) [unfolded manager_inv_def]
  show ?thesis
    using assms(1,2) False inv
    by (cases "mg_pc m"; simp add: manager_step_def rbind_eq_Ok join_thread_Ok Let_def split: if_split_asm)
      (auto simp: plugin_inv_set manager_inv_def split: option.splits)
qed

lemma run_request_keeps:
  assumes "run_request lib call p = Ok (code, rp, p')" and "call \<noteq> DeleteNetwork"
  shows "pl_commissioner p' = pl_commissioner p \<and> heap_keys p' = heap_keys p \<and> pl_managers p' = pl_managers p"
  using assms by (cases call) (auto simp: run_request_def map_res_eq_Ok Let_def split: prod.splits)

lemma plugin_event_inv:
  assumes "plugin_event lib ev p = Ok p'" and "ev \<noteq> EvRequest DeleteNetwork" and inv: "plugin_inv p"
  shows "plugin_inv p'"
proof (cases ev)
  case (EvManager i env)
  with assms show ?thesis
    by (auto simp: plugin_event_def run_manager_def plugin_inv_def split: if_splits intro: manager_step_inv [unfolded plugin_inv_def])
next
  case (EvThread i env)
  with assms run_thread_inv show ?thesis by (simp add: plugin_event_def)
next
  case (EvRequest call)
  with assms obtain code rp where "run_request lib call p = Ok (code, rp, p')" "call \<noteq> DeleteNetwork"
    by (auto simp: plugin_event_def map_res_eq_Ok)
  from run_request_keeps [OF this] inv show ?thesis by (auto simp: plugin_inv_def manager_inv_def)
qed

lemma plugin_turn_inv:
  "plugin_turn lib ev p = Ok p' \<Longrightarrow> ev \<noteq> EvRequest DeleteNetwork \<Longrightarrow> plugin_inv p \<Longrightarrow> plugin_inv p'"
  by (auto simp: plugin_turn_def split: res.splits if_splits intro: plugin_event_inv)

lemma plugin_run_inv:
  "plugin_run lib evs p = Ok p' \<Longrightarrow> EvRequest DeleteNetwork \<notin> set evs \<Longrightarrow> plugin_inv p \<Longrightarrow> plugin_inv p'"
  by (induction evs arbitrary: p) (auto simp: plugin_run_def rbind_eq_Ok intro: plugin_turn_inv)

section \<open>The mutex of the manager\<close>

lemma reset_managers:
  assumes "ms \<noteq> []" and "i < length ms"
  shows "\<exists>b. (case rev ms of [] \<Rightarrow> [new_manager] | m # rest \<Rightarrow> rev rest @ [m\<lparr>mg_stop := True\<rparr>, new_manager]) ! i
    = (ms ! i)\<lparr>mg_stop := b\<rparr>"
proof -
  obtain rest m where ms: "ms = rest @ [m]" using assms(1) by (cases ms rule: rev_cases) auto
  have "(rest ! i)\<lparr>mg_stop := mg_stop (rest ! i)\<rparr> = rest ! i" by (cases "rest ! i") simp
  with ms assms(2) show ?thesis
    by (cases "i < length rest") (auto simp: nth_append less_Suc_eq intro: exI [of _ "mg_stop (rest ! i)"])
qed

lemma manager_step_unlocked:
  assumes "manager_step lib env j (pl_managers p ! j) p = Ok p'" and "j < length (pl_managers p)"
    and "\<not> mg_locked (pl_managers p ! i)"
  shows "\<not> mg_locked (pl_managers p' ! i)"
proof (cases "mg_pc (pl_managers p ! j) = MgrCreate")
  case True
  with assms new_Commissioner_key [of env j "pl_managers p ! j" p p'] show ?thesis
    by (auto simp: manager_step_def nth_list_update split: if_splits)
next
  case False
  with assms show ?thesis
    by (cases "mg_pc (pl_managers p ! j)"; cases "i = j";
        simp add: manager_step_def rbind_eq_Ok join_thread_Ok Let_def split: if_split_asm)
      (auto split: option.splits)
qed

lemma event_keeps_unlocked:
  assumes "plugin_event lib ev p = Ok p'" and "i < length (pl_managers p)" and "\<not> mg_locked (pl_managers p ! i)"
  shows "\<not> mg_locked (pl_managers p' ! i)"
proof (cases ev)
  case (EvManager j env)
  with assms(1) have "j < length (pl_managers p)" "manager_step lib env j (pl_managers p ! j) p = Ok p'"
    by (simp_all add: plugin_event_def run_manager_def split: if_splits)
  with manager_step_unlocked assms(3) show ?thesis by blast
next
  case (EvThread j env)
  with assms(1) have "run_thread lib env j p = Ok p'" by (simp add: plugin_event_def)
  then obtain m' p1 where "p' = set_manager j m' p1" "same_but_thread (pl_managers p ! j) m'" "j < length (pl_managers p)"
    "pl_managers p1 = pl_managers p" by (rule run_thread_eq)
  with assms(3) show ?thesis by (cases "i = j") (simp_all add: same_but_thread_def)
next
  case (EvRequest call)
  with assms(1) obtain code rp where r: "run_request lib call p = Ok (code, rp, p')"
    by (auto simp: plugin_event_def map_res_eq_Ok)
  show ?thesis
  proof (cases "call = DeleteNetwork")
    case False
    with run_request_keeps [OF r] assms(3) show ?thesis by simp
  next
    case True
    with r have "pl_managers p' = (case rev (pl_managers p) of [] \<Rightarrow> [new_manager]
        | m # ms \<Rightarrow> rev ms @ [m\<lparr>mg_stop := True\<rparr>, new_manager])"
      by (auto simp: run_request_def ResetCommissioner_def map_res_eq_Ok rbind_eq_Ok Let_def)
    moreover have "pl_managers p \<noteq> []" using assms(2) by auto
    ultimately obtain b where "pl_managers p' ! i = (pl_managers p ! i)\<lparr>mg_stop := b\<rparr>"
      using reset_managers [of "pl_managers p" i] assms(2) by auto
    with assms(3) show ?thesis by simp
  qed
qed

section \<open>Properties\<close>


text \<open>Sample environments for the examples.\<close>

definition quiet_env :: thread_env where
  "quiet_env = \<lparr>te_memory = 0, te_rand = 1, te_client_fd = 4, te_connected = Some 3, te_handshake = SslOk,
     te_select_ok = True, te_comm = sample_env, te_logger = initial_logger, te_mbedtls_ok = True, te_fd = 5,
     te_bind_ok = True, te_timed_out = False\<rparr>"

definition jdoc_lib :: "jdoc option \<Rightarrow> jdoc plugin_lib" where
  "jdoc_lib d = \<lparr>lib_json = jdoc_api d, lib_sha = (\<lambda>_. replicate 32 0), lib_prf = (\<lambda>k m. replicate 16 (last m))\<rparr>"

definition doc_list :: "jdoc joiner_list" where
  "doc_list = \<lparr>jl_array = [], jl_vector = [], jl_steering = blank_steering, jl_updated = False\<rparr>"

definition ready_args :: "jdoc comm_args" where
  "ready_args = (new_CommissionerArgs (jdoc_api None) [])\<lparr>mParametersChanged := Some True,
     mPSKcBin := Some (replicate 16 7), mSendCommKATxRate := Some 15, mAgentAddress_ascii := Some ''127.0.0.1'',
     mAgentPort_ascii := Some ''49191''\<rparr>"

lemma plugin_run_steps:
  "plugin_run lib [] p = Ok p"
  "plugin_run lib (ev # evs) p = rbind (plugin_turn lib ev p) (plugin_run lib evs)"
  by (simp_all add: plugin_run_def [abs_def])

lemma plugin_run_append: "plugin_run lib (evs @ evs') p = rbind (plugin_run lib evs p) (plugin_run lib evs')"
  by (simp add: plugin_run_def [abs_def] fold_res_append)

lemma set_manager_again [simp]: "set_manager i m (set_manager i m' p) = set_manager i m p"
  by (simp add: set_manager_def)

lemma set_manager_args [simp]: "pl_args (set_manager i m p) = pl_args p"
  by (simp add: set_manager_def)

lemma manager_turn_eq:
  "i < length (pl_managers p) \<Longrightarrow> plugin_turn lib (EvManager i env) p =
     (case manager_step lib env i (pl_managers p ! i) p of Ok p' \<Rightarrow> Ok p' | Fault e \<Rightarrow> if e = Blocked then Ok p else Fault e)"
  by (simp add: plugin_turn_def plugin_event_def run_manager_def)

lemma manager_turn:
  "i < length (pl_managers p) \<Longrightarrow> manager_step lib env i (pl_managers p ! i) p = Ok p' \<Longrightarrow>
     plugin_turn lib (EvManager i env) p = Ok p'"
  by (simp add: plugin_turn_def plugin_event_def run_manager_def)



definition second_round :: "jdoc plugin" where
  "second_round = (new_CommissionerPlugin doc_list ready_args)\<lparr>pl_managers := [new_manager\<lparr>mg_locked := False\<rparr>]\<rparr>"



text \<open>
  A joiner added while the commissioner thread is between announcing the steering data and
  marking the list as announced is never announced: the thread clears the flag, and the filter it
  sent is the old one.
\<close>

theorem list_update_lost:
  assumes i: "i < length (pl_managers p)" "mg_thread (pl_managers p ! i) = Some th" "ct_pc th = CtListFinished"
    and put: "run_request lib (PutJoiner req) p = Ok (success_ok, rp, p1)"
  shows "\<exists>p'. plugin_run lib [EvRequest (PutJoiner req), EvThread i env] p = Ok p'
    \<and> pl_list p' = (pl_list p1)\<lparr>jl_updated := False\<rparr> \<and> pl_heap p' = pl_heap p
    \<and> mg_thread (pl_managers p' ! i) = Some (th\<lparr>ct_pc := CtStopCheck\<rparr>)"
proof -
  have p1: "pl_managers p1 = pl_managers p" "pl_heap p1 = pl_heap p"
    using put by (auto simp: run_request_def map_res_eq_Ok split_beta Let_def)
  have "plugin_turn lib (EvRequest (PutJoiner req)) p = Ok p1"
    using put by (simp add: plugin_turn_def plugin_event_def)
  with i p1 show ?thesis
    by (simp add: plugin_run_steps plugin_turn_def plugin_event_def run_thread_def thread_step_def Let_def
        jl_ListUpdateFinished_def set_manager_def)
qed

definition waiting_plugin :: "jdoc plugin" where
  "waiting_plugin = (new_CommissionerPlugin doc_list (ready_args\<lparr>mXpanidBin := replicate 8 0\<rparr>))
     \<lparr>pl_managers := [new_manager\<lparr>mg_pc := MgrWaiting\<rparr>]\<rparr>"


definition announced_plugin :: "jdoc plugin" where
  "announced_plugin = (new_CommissionerPlugin doc_list ready_args)
     \<lparr>pl_managers := [new_manager\<lparr>mg_thread := Some \<lparr>ct_pc = CtListFinished, ct_stop = False\<rparr>\<rparr>]\<rparr>"

theorem list_update_lost_witness:
  "\<exists>p'. plugin_run (jdoc_lib None)
      [EvRequest (PutJoiner \<lparr>getBody = bytes_of_string ''J01NU5'', getPath = ''/joiners/18b4300000000001''\<rparr>),
       EvThread 0 quiet_env] announced_plugin = Ok p'
    \<and> jl_entries (pl_list p') = [(''18b4300000000001'', ''J01NU5'')] \<and> \<not> jl_updated (pl_list p')"
proof -
  let ?req = "\<lparr>getBody = bytes_of_string ''J01NU5'', getPath = ''/joiners/18b4300000000001''\<rparr>"
  have sha: "sha_ok (lib_sha (jdoc_lib None))" by (simp add: sha_ok_def jdoc_lib_def)
  have inv: "jl_inv (jdoc_api None) (lib_sha (jdoc_lib None)) doc_list" by (simp add: jl_inv_def list_filter_def doc_list_def)
  obtain jl' where jl': "jl_Edit (jdoc_api None) (lib_sha (jdoc_lib None)) ''J01NU5'' ''18b4300000000001'' doc_list = Ok (success_ok, jl')"
    "jl_entries jl' = [(''18b4300000000001'', ''J01NU5'')]"
    using jl_Edit_step [OF jdoc_api_ok sha inv, of "''18b4300000000001''" "''J01NU5''"]
    by (auto simp: jdoc_api_def kEui64Len_def kPSKdLength_def jl_entries_def doc_list_def)
  have body: "string_of_body (bytes_of_string ''J01NU5'') = ''J01NU5''" by code_simp
  have nonempty: "bytes_of_string ''J01NU5'' \<noteq> []" by (simp add: bytes_of_string_def)
  have path: "path_eui ''/joiners/18b4300000000001'' = Ok ''18b4300000000001''" by code_simp
  have put: "run_request (jdoc_lib None) (PutJoiner ?req) announced_plugin
    = Ok (success_ok, None, announced_plugin\<lparr>pl_list := jl'\<rparr>)"
    using jl'(1) by (simp add: run_request_def JoinersEdit_def body path announced_plugin_def new_CommissionerPlugin_def
        jdoc_lib_def Let_def nonempty)
  have a: "0 < length (pl_managers announced_plugin)"
    "mg_thread (pl_managers announced_plugin ! 0) = Some \<lparr>ct_pc = CtListFinished, ct_stop = False\<rparr>"
    by (simp_all add: announced_plugin_def)
  from list_update_lost [OF a _ put, of quiet_env] jl'(2) show ?thesis
    by (auto simp: jl_entries_def)
qed

end
