(* ===== verification/Shutdown.thy ===== *)
theory Shutdown
  imports Plugin
begin

text \<open>
  The end of the plugin: \<open>CommDestroy\<close> of \<open>src/comm.cpp\<close>, which deletes it, and the destructor of \<open>Thread\<close>
  (\<open>inc/thread_api.hpp\<close>) that it waits for.

  Deleting the plugin stops its manager and joins it; then the memory is gone, while the routes
  stay registered.  Whether the join returns is a question of all threads together: \<open>stop_rank\<close>
  weighs the statements a stopped manager has left above those of the thread it waits for.
\<close>

section \<open>Deleting the plugin\<close>

text \<open>
  The plugin as its host has it: in use, being deleted while the manager of the number given is
  joined, or deleted, with what its threads were doing at that moment.
\<close>

datatype 'j plugin_host =
  HostRunning "'j plugin" | HostStopping nat "'j plugin" | HostDeleted "'j plugin"

datatype host_event = HostEvent event | HostDestroy | HostJoin

definition CommCreate :: "'j joiner_list \<Rightarrow> 'j comm_args \<Rightarrow> 'j plugin_host" where
  "CommCreate jl args = HostRunning (new_CommissionerPlugin jl args)"

text \<open>\<open>promise->set_value()\<close> for the manager \<open>Mngr\<close> points to, the last of the list.\<close>

definition stop_manager :: "'j plugin \<Rightarrow> nat \<times> 'j plugin" where
  "stop_manager p =
     (let i = length (pl_managers p) - 1 in (i, set_manager i ((pl_managers p ! i)\<lparr>mg_stop := True\<rparr>) p))"

text \<open>
  \<open>Mngr.reset(nullptr)\<close> forgets the manager, then deletes it.  A manager that a request made in the
  meantime is what the destructor of \<open>Mngr\<close> deletes next.
\<close>

definition host_join :: "nat \<Rightarrow> 'j plugin \<Rightarrow> 'j plugin_host res" where
  "host_join i p =
     (if i < length (pl_managers p) \<and> mg_pc (pl_managers p ! i) \<noteq> MgrDone then Fault Blocked
      else if Suc i < length (pl_managers p) then Ok (case stop_manager p of (j, p') \<Rightarrow> HostStopping j p')
      else Ok (HostDeleted p))"

text \<open>What is left of the plugin: a thread that has not ended goes on in freed memory, as does a route.\<close>

definition deleted_event :: "event \<Rightarrow> 'j plugin \<Rightarrow> 'j plugin_host res" where
  "deleted_event ev p =
     (case ev of
        EvManager i env \<Rightarrow>
          Fault (if i < length (pl_managers p) \<and> mg_pc (pl_managers p ! i) \<noteq> MgrDone then UseAfterFree else Blocked)
      | EvThread i env \<Rightarrow>
          Fault (if i < length (pl_managers p)
                   \<and> (case mg_thread (pl_managers p ! i) of None \<Rightarrow> False | Some th \<Rightarrow> ct_pc th \<noteq> CtDone)
                 then UseAfterFree else Blocked)
      | EvRequest call \<Rightarrow> Fault UseAfterFree)"

fun host_step :: "'j plugin_lib \<Rightarrow> host_event \<Rightarrow> 'j plugin_host \<Rightarrow> 'j plugin_host res" where
  "host_step lib (HostEvent ev) (HostRunning p) = map_res HostRunning (plugin_event lib ev p)"
| "host_step lib (HostEvent ev) (HostStopping i p) = map_res (HostStopping i) (plugin_event lib ev p)"
| "host_step lib (HostEvent ev) (HostDeleted p) = deleted_event ev p"
| "host_step lib HostDestroy (HostRunning p) = Ok (case stop_manager p of (i, p') \<Rightarrow> HostStopping i p')"
| "host_step lib HostJoin (HostStopping i p) = host_join i p"
| "host_step lib _ _ = Fault Blocked"

definition host_turn :: "'j plugin_lib \<Rightarrow> host_event \<Rightarrow> 'j plugin_host \<Rightarrow> 'j plugin_host res" where
  "host_turn lib ev h = (case host_step lib ev h of Ok h' \<Rightarrow> Ok h' | Fault e \<Rightarrow> if e = Blocked then Ok h else Fault e)"

definition host_run :: "'j plugin_lib \<Rightarrow> host_event list \<Rightarrow> 'j plugin_host \<Rightarrow> 'j plugin_host res" where
  "host_run lib evs h = fold_res (host_turn lib) evs h"

section \<open>How much a stopped manager has left\<close>

fun thread_rank :: "thread_pc \<Rightarrow> nat" where
  "thread_rank CtInit = 14" | "thread_rank CtHandshake = 13" | "thread_rank CtPetition = 12" | "thread_rank CtNotify = 11"
| "thread_rank CtSetActive = 10" | "thread_rank CtLoop = 9" | "thread_rank CtSelect = 8" | "thread_rank CtProcess = 7"
| "thread_rank CtWasUpdated = 6" | "thread_rank CtAnnounce = 5" | "thread_rank CtSetJoiner = 4"
| "thread_rank CtListFinished = 3" | "thread_rank CtStopCheck = 2" | "thread_rank CtExit = 1" | "thread_rank CtDone = 0"

fun manager_rank :: "manager_pc \<Rightarrow> nat" where
  "manager_rank MgrLoop = 19" | "manager_rank MgrStopOld = 18" | "manager_rank MgrJoinOld = 17" | "manager_rank MgrCreate = 16"
| "manager_rank MgrStart = 15" | "manager_rank MgrSetPetitioning = 14" | "manager_rank MgrWait = 13"
| "manager_rank MgrWaiting = 12" | "manager_rank (MgrUnlock b) = 11" | "manager_rank MgrStopTimeout = 10"
| "manager_rank MgrJoinTimeout = 9" | "manager_rank MgrSetTimeout = 8" | "manager_rank MgrClearFlag = 7"
| "manager_rank MgrCont = 6" | "manager_rank MgrSetDisabled = 5" | "manager_rank MgrStopLast = 4"
| "manager_rank MgrJoinLast = 3" | "manager_rank MgrFree = 2" | "manager_rank MgrReturn = 1" | "manager_rank MgrDone = 0"

text \<open>A thread counts once it has been told to stop.\<close>

definition stopped_rank :: "comm_thread option \<Rightarrow> nat" where
  "stopped_rank t = (case t of None \<Rightarrow> 0 | Some th \<Rightarrow> if ct_stop th then thread_rank (ct_pc th) else 0)"

definition stop_rank :: "manager \<Rightarrow> nat" where
  "stop_rank m = 15 * manager_rank (mg_pc m) + stopped_rank (mg_thread m)"

text \<open>The turns of manager \<open>i\<close>, and of its thread once that is stopped, that were not spent waiting.\<close>

definition own_turn :: "nat \<Rightarrow> event \<Rightarrow> 'j plugin \<Rightarrow> bool" where
  "own_turn i ev p =
     (case ev of
        EvManager j env \<Rightarrow> j = i
      | EvThread j env \<Rightarrow> j = i \<and> (case mg_thread (pl_managers p ! i) of None \<Rightarrow> False | Some th \<Rightarrow> ct_stop th)
      | EvRequest call \<Rightarrow> False)"

fun turns_taken :: "'j plugin_lib \<Rightarrow> nat \<Rightarrow> event list \<Rightarrow> 'j plugin \<Rightarrow> nat" where
  "turns_taken lib i [] p = 0"
| "turns_taken lib i (ev # evs) p =
     (case plugin_turn lib ev p of
        Fault e \<Rightarrow> 0
      | Ok p' \<Rightarrow> (if own_turn i ev p \<and> is_ok (plugin_event lib ev p) then 1 else 0) + turns_taken lib i evs p')"

section \<open>Each turn takes a stopped manager further\<close>

lemma thread_rank_bound: "thread_rank pc \<le> 14"
  by (cases pc) simp_all

lemma stopped_rank_bound: "stopped_rank t \<le> 14"
  using thread_rank_bound by (auto simp: stopped_rank_def split: option.split)

lemma manager_rank_bound: "manager_rank pc \<le> 19"
  by (cases pc) simp_all

lemma stop_rank_bound: "stop_rank m \<le> 299"
  using manager_rank_bound [of "mg_pc m"] stopped_rank_bound [of "mg_thread m"] by (simp add: stop_rank_def)

lemma stop_rank_less: "manager_rank (mg_pc m') < manager_rank (mg_pc m) \<Longrightarrow> stop_rank m' < stop_rank m"
  using stopped_rank_bound [of "mg_thread m'"] by (simp add: stop_rank_def)

lemma thread_step_rank:
  "thread_step lib env True pc p = Ok (pc', p') \<Longrightarrow> thread_rank pc' < thread_rank pc"
  by (cases pc) (auto simp: thread_step_def goto_def rbind_eq_Ok map_res_eq_Ok split: if_splits)

text \<open>A manager that joins its thread has told it to stop.\<close>

definition join_stopped :: "manager \<Rightarrow> bool" where
  "join_stopped m \<longleftrightarrow>
     (mg_pc m \<in> {MgrJoinOld, MgrJoinTimeout, MgrJoinLast} \<longrightarrow> (\<forall>th. mg_thread m = Some th \<longrightarrow> ct_stop th))"

lemma join_stopped_new [simp]: "join_stopped new_manager"
  by (simp add: join_stopped_def new_manager_def)

lemma join_stopped_stop [simp]: "join_stopped (m\<lparr>mg_stop := b\<rparr>) = join_stopped m"
  by (simp add: join_stopped_def)

lemma stop_thread_stop [simp]: "mg_stop (stop_thread m) = mg_stop m" "mg_thread (stop_thread m) = Some th \<Longrightarrow> ct_stop th"
  by (auto simp: stop_thread_def)

lemma manager_step_manager:
  assumes "manager_step lib env i m p = Ok p'" and "i < length (pl_managers p)"
  shows "\<exists>m'. pl_managers p' = (pl_managers p)[i := m'] \<and> mg_stop m' = mg_stop m \<and> join_stopped m'
    \<and> (mg_stop m \<longrightarrow> manager_rank (mg_pc m') < manager_rank (mg_pc m))"
proof (cases "mg_pc m = MgrCreate")
  case True
  with assms new_Commissioner_key [of env i m p p'] show ?thesis
    by (auto simp: manager_step_def join_stopped_def)
next
  case False
  show ?thesis
    using assms(1) False
    by (cases "mg_pc m"; simp add: manager_step_def rbind_eq_Ok join_thread_Ok Let_def split: if_split_asm)
      (auto simp: join_stopped_def)
qed

lemma run_thread_manager:
  assumes "run_thread lib env i p = Ok p'"
  shows "\<exists>m' th th'. i < length (pl_managers p) \<and> pl_managers p' = (pl_managers p)[i := m'] \<and> mg_pc m' = mg_pc (pl_managers p ! i)
    \<and> mg_stop m' = mg_stop (pl_managers p ! i) \<and> mg_thread (pl_managers p ! i) = Some th \<and> mg_thread m' = Some th'
    \<and> ct_stop th' = ct_stop th \<and> (ct_stop th \<longrightarrow> thread_rank (ct_pc th') < thread_rank (ct_pc th))"
proof -
  from assms obtain th pc p1 where i: "i < length (pl_managers p)" "mg_thread (pl_managers p ! i) = Some th"
    and st: "thread_step lib env (ct_stop th) (ct_pc th) p = Ok (pc, p1)"
    and p': "p' = set_manager i ((pl_managers p ! i)\<lparr>mg_notified := mg_notified (pl_managers p ! i) \<or> ct_pc th \<in> {CtNotify, CtExit},
        mg_thread := Some (th\<lparr>ct_pc := pc\<rparr>)\<rparr>) p1"
    by (auto simp: run_thread_def map_res_eq_Ok Let_def split: if_splits option.splits)
  have "ct_stop th \<longrightarrow> thread_rank pc < thread_rank (ct_pc th)" using st thread_step_rank by auto
  with i p' thread_step_keeps [OF st] show ?thesis by auto
qed

lemma request_managers:
  assumes "run_request lib call p = Ok (code, rp, p')"
  shows "pl_managers p' = pl_managers p
    \<or> pl_managers p' = (case rev (pl_managers p) of [] \<Rightarrow> [new_manager] | m # ms \<Rightarrow> rev ms @ [m\<lparr>mg_stop := True\<rparr>, new_manager])"
proof (cases "call = DeleteNetwork")
  case False
  with run_request_keeps [OF assms] show ?thesis by simp
next
  case True
  with assms show ?thesis by (auto simp: run_request_def ResetCommissioner_def map_res_eq_Ok rbind_eq_Ok Let_def)
qed

lemma reset_keeps_stopped:
  assumes "i < length ms" and "mg_stop (ms ! i)"
  shows "(case rev ms of [] \<Rightarrow> [new_manager] | m # rest \<Rightarrow> rev rest @ [m\<lparr>mg_stop := True\<rparr>, new_manager]) ! i = ms ! i"
proof -
  obtain rest m where ms: "ms = rest @ [m]" using assms(1) by (cases ms rule: rev_cases) auto
  have "m\<lparr>mg_stop := True\<rparr> = m" if "mg_stop m" using that by (cases m) simp
  with ms assms show ?thesis by (cases "i < length rest") (auto simp: nth_append less_Suc_eq)
qed

text \<open>What every event keeps, of all managers and of a stopped one.\<close>

lemma event_join_stopped:
  assumes "plugin_event lib ev p = Ok p'" and inv: "\<forall>m\<in>set (pl_managers p). join_stopped m"
  shows "\<forall>m\<in>set (pl_managers p'). join_stopped m"
proof (cases ev)
  case (EvManager j env)
  with assms(1) have "j < length (pl_managers p)" "manager_step lib env j (pl_managers p ! j) p = Ok p'"
    by (simp_all add: plugin_event_def run_manager_def split: if_splits)
  with manager_step_manager [of lib env j _ p p'] inv show ?thesis by (metis insertE set_update_subset_insert subsetD)
next
  case (EvThread j env)
  with assms(1) have "run_thread lib env j p = Ok p'" by (simp add: plugin_event_def)
  from run_thread_manager [OF this] obtain m' th th' where r: "j < length (pl_managers p)" "pl_managers p' = (pl_managers p)[j := m']"
    "mg_pc m' = mg_pc (pl_managers p ! j)" "mg_thread (pl_managers p ! j) = Some th" "mg_thread m' = Some th'" "ct_stop th' = ct_stop th"
    by blast
  with inv have "join_stopped m'" by (auto simp: join_stopped_def)
  with r(2) inv show ?thesis by (metis insertE set_update_subset_insert subsetD)
next
  case (EvRequest call)
  with assms(1) obtain code rp where "run_request lib call p = Ok (code, rp, p')"
    by (auto simp: plugin_event_def map_res_eq_Ok)
  from request_managers [OF this] show ?thesis
  proof
    assume "pl_managers p' = pl_managers p"
    with inv show ?thesis by simp
  next
    assume "pl_managers p' = (case rev (pl_managers p) of [] \<Rightarrow> [new_manager] | m # ms \<Rightarrow> rev ms @ [m\<lparr>mg_stop := True\<rparr>, new_manager])"
    with inv show ?thesis by (cases "pl_managers p" rule: rev_cases) auto
  qed
qed

lemma event_stop_rank:
  assumes ev: "plugin_event lib ev p = Ok p'" and i: "i < length (pl_managers p)" "mg_stop (pl_managers p ! i)"
  shows "i < length (pl_managers p') \<and> mg_stop (pl_managers p' ! i)
    \<and> stop_rank (pl_managers p' ! i) + (if own_turn i ev p then 1 else 0) \<le> stop_rank (pl_managers p ! i)"
proof (cases ev)
  case (EvManager j env)
  with ev have "j < length (pl_managers p)" "manager_step lib env j (pl_managers p ! j) p = Ok p'"
    by (simp_all add: plugin_event_def run_manager_def split: if_splits)
  from manager_step_manager [OF this(2,1)] obtain m' where m': "pl_managers p' = (pl_managers p)[j := m']"
    "mg_stop m' = mg_stop (pl_managers p ! j)"
    "mg_stop (pl_managers p ! j) \<longrightarrow> manager_rank (mg_pc m') < manager_rank (mg_pc (pl_managers p ! j))" by blast
  with i EvManager stop_rank_less [of m' "pl_managers p ! i"] show ?thesis by (cases "j = i") (auto simp: own_turn_def)
next
  case (EvThread j env)
  with ev have "run_thread lib env j p = Ok p'" by (simp add: plugin_event_def)
  from run_thread_manager [OF this] obtain m' th th' where r: "j < length (pl_managers p)" "pl_managers p' = (pl_managers p)[j := m']"
    "mg_pc m' = mg_pc (pl_managers p ! j)" "mg_stop m' = mg_stop (pl_managers p ! j)" "mg_thread (pl_managers p ! j) = Some th"
    "mg_thread m' = Some th'" "ct_stop th' = ct_stop th" "ct_stop th \<longrightarrow> thread_rank (ct_pc th') < thread_rank (ct_pc th)" by blast
  with i EvThread show ?thesis by (cases "j = i") (auto simp: own_turn_def stop_rank_def stopped_rank_def)
next
  case (EvRequest call)
  with ev obtain code rp where "run_request lib call p = Ok (code, rp, p')" by (auto simp: plugin_event_def map_res_eq_Ok)
  from request_managers [OF this] i have "pl_managers p' ! i = pl_managers p ! i" "i < length (pl_managers p')"
    using reset_keeps_stopped [OF i] by (auto split: list.splits)
  with i EvRequest show ?thesis by (simp add: own_turn_def)
qed

lemma turns_bounded:
  "i < length (pl_managers p) \<Longrightarrow> mg_stop (pl_managers p ! i) \<Longrightarrow> turns_taken lib i evs p \<le> stop_rank (pl_managers p ! i)"
proof (induction evs arbitrary: p)
  case Nil
  then show ?case by simp
next
  case (Cons ev evs)
  show ?case
  proof (cases "plugin_event lib ev p")
    case (Ok p')
    with event_stop_rank [OF Ok Cons.prems] Cons.IH [of p'] show ?thesis by (auto simp: plugin_turn_def)
  next
    case (Fault e)
    with Cons.IH [OF Cons.prems] show ?thesis by (simp add: plugin_turn_def)
  qed
qed

lemma run_join_stopped:
  "plugin_run lib evs p = Ok p' \<Longrightarrow> \<forall>m\<in>set (pl_managers p). join_stopped m \<Longrightarrow> \<forall>m\<in>set (pl_managers p'). join_stopped m"
proof (induction evs arbitrary: p)
  case Nil
  then show ?case by (simp add: plugin_run_steps)
next
  case (Cons ev evs)
  from Cons.prems(1) obtain p1 where "plugin_turn lib ev p = Ok p1" "plugin_run lib evs p1 = Ok p'"
    by (auto simp: plugin_run_steps rbind_eq_Ok)
  moreover from this(1) event_join_stopped [of lib ev p p1] Cons.prems(2) have "\<forall>m\<in>set (pl_managers p1). join_stopped m"
    by (auto simp: plugin_turn_def split: res.splits if_splits)
  ultimately show ?case using Cons.IH by blast
qed

lemma manager_waits:
  "manager_step lib env i m p = Fault Blocked \<longleftrightarrow>
     mg_pc m = MgrDone \<or> mg_pc m \<in> {MgrJoinOld, MgrJoinTimeout, MgrJoinLast} \<and> (\<exists>th. mg_thread m = Some th \<and> ct_pc th \<noteq> CtDone)"
  by (cases "mg_pc m")
    (auto simp: manager_step_def Let_def join_thread_def create_commissioner_def initialized_def new_Commissioner_def read_bytes_def
      res_simps split: option.splits if_splits)

section \<open>Who is left when the plugin is gone\<close>

definition freed :: "manager \<Rightarrow> bool" where
  "freed m \<longleftrightarrow> (mg_pc m \<in> {MgrReturn, MgrDone} \<longrightarrow> mg_comm m = None)"

lemma freed_fields [simp]: "freed new_manager" "freed (m\<lparr>mg_stop := b\<rparr>) = freed m"
  by (simp_all add: freed_def new_manager_def)

lemma manager_step_freed:
  assumes "manager_step lib env i m p = Ok p'" and "i < length (pl_managers p)" and "freed m"
  shows "freed (pl_managers p' ! i)"
proof (cases "mg_pc m = MgrCreate")
  case True
  with assms new_Commissioner_key [of env i m p p'] show ?thesis by (auto simp: manager_step_def freed_def)
next
  case False
  show ?thesis
    using assms False
    by (cases "mg_pc m"; simp add: manager_step_def rbind_eq_Ok join_thread_Ok Let_def split: if_split_asm) (auto simp: freed_def)
qed

definition lone_manager :: "'j plugin \<Rightarrow> bool" where
  "lone_manager p \<longleftrightarrow> plugin_inv p \<and> freed (pl_managers p ! 0)"

lemma lone_manager_length: "lone_manager p \<Longrightarrow> length (pl_managers p) = 1"
  by (auto simp: lone_manager_def plugin_inv_def)

lemma event_lone_manager:
  assumes "plugin_event lib ev p = Ok p'" and "ev \<noteq> EvRequest DeleteNetwork" and "lone_manager p"
  shows "lone_manager p'"
proof -
  have inv: "plugin_inv p'" using plugin_event_inv [OF assms(1,2)] assms(3) by (simp add: lone_manager_def)
  have one: "length (pl_managers p) = 1" "freed (pl_managers p ! 0)" using assms(3) by (auto simp: lone_manager_def plugin_inv_def)
  have "freed (pl_managers p' ! 0)"
  proof (cases ev)
    case (EvManager j env)
    with assms(1) one manager_step_freed [of lib env 0 "pl_managers p ! 0" p p'] show ?thesis
      by (simp add: plugin_event_def run_manager_def split: if_splits)
  next
    case (EvThread j env)
    with assms(1) have "run_thread lib env j p = Ok p'" by (simp add: plugin_event_def)
    then obtain m' p1 where "p' = set_manager j m' p1" "same_but_thread (pl_managers p ! j) m'" "j < length (pl_managers p)"
      "pl_managers p1 = pl_managers p" by (rule run_thread_eq)
    with one show ?thesis by (simp add: freed_def same_but_thread_def)
  next
    case (EvRequest call)
    with assms(1,2) obtain code rp where "run_request lib call p = Ok (code, rp, p')" "call \<noteq> DeleteNetwork"
      by (auto simp: plugin_event_def map_res_eq_Ok)
    from run_request_keeps [OF this] one show ?thesis by simp
  qed
  with inv show ?thesis by (simp add: lone_manager_def)
qed

lemma stop_lone_manager:
  assumes "lone_manager p" and "stop_manager p = (i, p')"
  shows "i = 0 \<and> lone_manager p'"
proof -
  from assms(1) obtain m where m: "pl_managers p = [m]" "manager_inv m p" "freed m"
    by (auto simp: lone_manager_def plugin_inv_def)
  with assms(2) have p': "i = 0" "p' = set_manager 0 (m\<lparr>mg_stop := True\<rparr>) p" by (auto simp: stop_manager_def Let_def)
  with m show ?thesis by (simp add: lone_manager_def plugin_inv_set manager_inv_def)
qed

fun host_inv :: "'j plugin_host \<Rightarrow> bool" where
  "host_inv (HostRunning p) = lone_manager p"
| "host_inv (HostStopping i p) = (i = 0 \<and> lone_manager p)"
| "host_inv (HostDeleted p) = (lone_manager p \<and> mg_pc (pl_managers p ! 0) = MgrDone)"

lemma host_step_inv:
  "host_step lib ev h = Ok h' \<Longrightarrow> ev \<noteq> HostEvent (EvRequest DeleteNetwork) \<Longrightarrow> host_inv h \<Longrightarrow> host_inv h'"
proof (induction lib ev h rule: host_step.induct)
  case (3 lib ev p)
  then show ?case by (simp add: deleted_event_def split: event.splits)
next
  case (4 lib p)
  then show ?case by (auto dest: stop_lone_manager split: prod.splits)
next
  case (5 lib i p)
  then show ?case using lone_manager_length [of p] by (auto simp: host_join_def split: if_splits)
qed (auto simp: map_res_eq_Ok intro: event_lone_manager)

lemma host_run_inv:
  "host_run lib evs h = Ok h' \<Longrightarrow> HostEvent (EvRequest DeleteNetwork) \<notin> set evs \<Longrightarrow> host_inv h \<Longrightarrow> host_inv h'"
proof (induction evs arbitrary: h)
  case Nil
  then show ?case by (simp add: host_run_def)
next
  case (Cons ev evs)
  from Cons.prems(1) obtain h1 where h1: "host_turn lib ev h = Ok h1" "host_run lib evs h1 = Ok h'"
    by (auto simp: host_run_def rbind_eq_Ok)
  then have "host_inv h1"
    using Cons.prems(2,3) host_step_inv [of lib ev h h1] by (auto simp: host_turn_def split: res.splits if_splits)
  with Cons.IH [OF h1(2)] Cons.prems(2) show ?case by simp
qed

lemma manager_step_not_done:
  assumes "manager_step lib env i m p = Ok p'" and "i < length (pl_managers p)" and "\<not> mg_locked m"
  shows "mg_pc (pl_managers p' ! i) \<noteq> MgrDone"
proof (cases "mg_pc m = MgrCreate")
  case True
  with assms new_Commissioner_key [of env i m p p'] show ?thesis by (auto simp: manager_step_def)
next
  case False
  show ?thesis
    using assms False
    by (cases "mg_pc m"; simp add: manager_step_def rbind_eq_Ok join_thread_Ok Let_def split: if_split_asm) auto
qed

lemma event_keeps_not_done:
  assumes ev: "plugin_event lib ev p = Ok p'" and i: "i < length (pl_managers p)"
    and "\<not> mg_locked (pl_managers p ! i)" "mg_pc (pl_managers p ! i) \<noteq> MgrDone"
  shows "i < length (pl_managers p') \<and> mg_pc (pl_managers p' ! i) \<noteq> MgrDone"
proof (cases ev)
  case (EvManager j env)
  with ev have st: "j < length (pl_managers p)" "manager_step lib env j (pl_managers p ! j) p = Ok p'"
    by (simp_all add: plugin_event_def run_manager_def split: if_splits)
  from manager_step_manager [OF st(2,1)] obtain m' where "pl_managers p' = (pl_managers p)[j := m']" by blast
  with st manager_step_not_done [OF st(2,1)] assms(2-4) show ?thesis by (cases "j = i") auto
next
  case (EvThread j env)
  with ev have "run_thread lib env j p = Ok p'" by (simp add: plugin_event_def)
  from run_thread_manager [OF this] assms(2-4) show ?thesis by (cases "j = i") auto
next
  case (EvRequest call)
  with ev obtain code rp where "run_request lib call p = Ok (code, rp, p')" by (auto simp: plugin_event_def map_res_eq_Ok)
  from request_managers [OF this] show ?thesis
  proof
    assume "pl_managers p' = pl_managers p"
    with assms(2-4) show ?thesis by simp
  next
    assume "pl_managers p' = (case rev (pl_managers p) of [] \<Rightarrow> [new_manager] | m # ms \<Rightarrow> rev ms @ [m\<lparr>mg_stop := True\<rparr>, new_manager])"
    moreover have "pl_managers p \<noteq> []" using i by auto
    ultimately show ?thesis using reset_managers [of "pl_managers p" i] assms(2-4) by (auto split: list.splits)
  qed
qed

section \<open>Properties\<close>




definition idle_args :: "jdoc comm_args" where
  "idle_args = (new_CommissionerArgs (jdoc_api None) [])\<lparr>mParametersChanged := Some False\<rparr>"


text \<open>
  A manager whose mutex was unlocked by hand, which every manager does after its first wait, never
  ends properly: its last statement is the destructor of \<open>lk\<close>, which unlocks it once more.
\<close>

theorem unlocked_manager_never_done:
  assumes "plugin_run lib evs p = Ok p'" and "i < length (pl_managers p)" and "\<not> mg_locked (pl_managers p ! i)"
    and "mg_pc (pl_managers p ! i) \<noteq> MgrDone"
  shows "mg_pc (pl_managers p' ! i) \<noteq> MgrDone"
  using assms
proof (induction evs arbitrary: p)
  case Nil
  then show ?case by (simp add: plugin_run_steps)
next
  case (Cons ev evs)
  from Cons.prems(1) obtain p1 where p1: "plugin_turn lib ev p = Ok p1" "plugin_run lib evs p1 = Ok p'"
    by (auto simp: plugin_run_steps rbind_eq_Ok)
  show ?case
  proof (cases "plugin_event lib ev p")
    case (Ok p2)
    with p1(1) have "p2 = p1" by (simp add: plugin_turn_def)
    with Ok event_keeps_not_done [OF Ok Cons.prems(2-4)] event_keeps_unlocked [OF Ok Cons.prems(2,3)] Cons.IH [OF p1(2)]
    show ?thesis by simp
  next
    case (Fault e)
    with p1 Cons.prems Cons.IH [OF p1(2)] show ?thesis by (simp add: plugin_turn_def split: if_splits)
  qed
qed

end
