(* ===== verification/Ncp.thy ===== *)
theory Ncp
  imports Emitter Logging
begin

text \<open>
  \<open>agent/ncp_wpantund.cpp\<close> and \<open>agent/ncp.hpp\<close>: the controller of the network co-processor, which
  talks to the daemon wpantund over D-Bus.

  libdbus is not part of the repository: what its calls answer is in a \<open>dbus_env\<close>, a message is
  what the code reads of it.  A value read at another type than its own gives no usable
  pointer.  The code runs on a little-endian host.  An operation that emits an event returns
  it; whoever composes it with the emitter delivers it at that point.  What is written to the
  log is left out.
\<close>

section \<open>Events and properties\<close>

datatype ncp_event =
  ExtPanIdEvent "byte list" | NetworkNameEvent string | PSKcEvent "byte list" | ThreadStateEvent bool |
  UdpProxyEvent "byte list" u16 "byte list" u16

definition kEventExtPanId :: int where "kEventExtPanId = 0"
definition kEventNetworkName :: int where "kEventNetworkName = 1"
definition kEventPSKc :: int where "kEventPSKc = 2"
definition kEventThreadState :: int where "kEventThreadState = 3"
definition kEventUdpProxyStream :: int where "kEventUdpProxyStream = 4"

lemmas ncp_event_ids = kEventExtPanId_def kEventNetworkName_def kEventPSKc_def kEventThreadState_def
  kEventUdpProxyStream_def

fun event_id :: "ncp_event \<Rightarrow> int" where
  "event_id (ExtPanIdEvent b) = kEventExtPanId"
| "event_id (NetworkNameEvent s) = kEventNetworkName"
| "event_id (PSKcEvent b) = kEventPSKc"
| "event_id (ThreadStateEvent b) = kEventThreadState"
| "event_id (UdpProxyEvent buf peer addr sock) = kEventUdpProxyStream"

definition kWPANTUNDProperty_NetworkPSKc :: string where "kWPANTUNDProperty_NetworkPSKc = ''Network:PSKc''"
definition kWPANTUNDProperty_UdpProxyStream :: string where "kWPANTUNDProperty_UdpProxyStream = ''UdpProxy:Stream''"
definition kWPANTUNDProperty_NCPState :: string where "kWPANTUNDProperty_NCPState = ''NCP:State''"
definition kWPANTUNDProperty_NetworkName :: string where "kWPANTUNDProperty_NetworkName = ''Network:Name''"
definition kWPANTUNDProperty_NetworkXPANID :: string where "kWPANTUNDProperty_NetworkXPANID = ''Network:XPANID''"

lemmas ncp_properties = kWPANTUNDProperty_NetworkPSKc_def kWPANTUNDProperty_UdpProxyStream_def
  kWPANTUNDProperty_NCPState_def kWPANTUNDProperty_NetworkName_def kWPANTUNDProperty_NetworkXPANID_def

section \<open>State\<close>

definition kSizePSKc :: nat where "kSizePSKc = 16"
definition IFNAMSIZ :: nat where "IFNAMSIZ = 16"
definition DBUS_MAXIMUM_NAME_LENGTH :: nat where "DBUS_MAXIMUM_NAME_LENGTH = 255"
definition WPANTUND_DBUS_PATH :: string where "WPANTUND_DBUS_PATH = ''/org/wpantund''"

text \<open>
  \<open>mInterfaceName\<close> is what \<open>strncpy\<close> put into the array: a name that fills it has no terminator.
  \<open>mWatches\<close> is the \<open>std::map\<close>, by rising addresses.  \<open>mSent\<close> lists the properties set over D-Bus.
\<close>

record ncp =
  mInterfaceDBusName :: string
  mInterfaceDBusPath :: "string option"
  mInterfaceName :: string
  mDBus :: bool
  mWatches :: "(nat \<times> bool) list"
  mSent :: "(string \<times> byte list) list"

definition new_ControllerWpantund :: "string \<Rightarrow> ncp" where
  "new_ControllerWpantund aInterfaceName =
     \<lparr>mInterfaceDBusName = [], mInterfaceDBusPath = None, mInterfaceName = take IFNAMSIZ aInterfaceName,
      mDBus = False, mWatches = [], mSent = []\<rparr>"

text \<open>\<open>mInterfaceName\<close> as a C string.\<close>

definition interface_name :: "ncp \<Rightarrow> string res" where
  "interface_name c = (if length (mInterfaceName c) < IFNAMSIZ then Ok (mInterfaceName c) else Fault OutOfBounds)"

text \<open>The daemon's answer to the lookup is the name of the interface, or none, which clears it.\<close>

definition UpdateInterfaceDBusPath :: "string option \<Rightarrow> ncp \<Rightarrow> (otbr_error \<times> ncp) res" where
  "UpdateInterfaceDBusPath found c =
     rbind (interface_name c) (\<lambda>name.
       case found of
         None \<Rightarrow> Ok (OTBR_ERROR_ERRNO, c\<lparr>mInterfaceDBusName := []\<rparr>)
       | Some dbus_name \<Rightarrow>
           Ok (OTBR_ERROR_NONE, c\<lparr>mInterfaceDBusName := dbus_name,
             mInterfaceDBusPath := Some (take DBUS_MAXIMUM_NAME_LENGTH (WPANTUND_DBUS_PATH @ ''/'' @ name))\<rparr>))"

section \<open>What comes from the daemon\<close>

datatype dbus_arg = ArgBytes "byte list" | ArgString string | ArgUint64 u64 | ArgUint32 u32

text \<open>The bytes of \<open>xpanid\<close> in memory, and the loop that swaps them.\<close>

definition memory_u64 :: "u64 \<Rightarrow> byte list" where
  "memory_u64 v = map (\<lambda>i. ucast (drop_bit (8 * i) v)) [0..<8]"

function swap_bytes :: "nat \<Rightarrow> nat \<Rightarrow> byte list \<Rightarrow> byte list" where
  "swap_bytes p q bs = (if p < q then swap_bytes (p + 1) (q - 1) (bs[p := bs ! q, q := bs ! p]) else bs)"
  by pat_completeness auto
termination
  by (relation "measure (\<lambda>(p, q, bs). q - p)") auto

declare swap_bytes.simps [simp del]

text \<open>
  The fields behind a datagram, read from its end.  \<open>len\<close> is a \<open>uint16_t\<close> that each read counts
  down before it indexes.
\<close>

definition parse_stream :: "byte list \<Rightarrow> ncp_event res" where
  "parse_stream buf =
     (let len0 = word_of_nat (length buf) :: u16; len1 = len0 - 1; len2 = len1 - 1 in
      rbind (read_byte buf (unat len1)) (\<lambda>s0.
      rbind (read_byte buf (unat len2)) (\<lambda>s1.
      let sockPort = ucast s0 OR push_bit 8 (ucast s1) :: u16; len3 = len2 - 16; len4 = len3 - 1; len5 = len4 - 1 in
      rbind (read_bytes buf (unat len3) 16) (\<lambda>peerAddr.
      rbind (read_byte buf (unat len4)) (\<lambda>p0.
      rbind (read_byte buf (unat len5)) (\<lambda>p1.
      let peerPort = ucast p0 OR push_bit 8 (ucast p1) :: u16 in
      rbind (read_bytes buf 0 (unat len5)) (\<lambda>packet.
        Ok (UdpProxyEvent packet peerPort peerAddr sockPort))))))))"

definition arg_string :: "dbus_arg \<Rightarrow> string res" where
  "arg_string a = (case a of ArgString s \<Rightarrow> Ok s | _ \<Rightarrow> Fault NullDeref)"

definition arg_bytes :: "dbus_arg \<Rightarrow> byte list res" where
  "arg_bytes a = (case a of ArgBytes bs \<Rightarrow> Ok bs | _ \<Rightarrow> Fault NullDeref)"

definition ParseEvent :: "string \<Rightarrow> dbus_arg \<Rightarrow> (otbr_error \<times> ncp_event option) res" where
  "ParseEvent aKey arg =
     (if aKey = kWPANTUNDProperty_NetworkPSKc then
        rbind (arg_bytes arg) (\<lambda>pskc.
          Ok (if length pskc = kSizePSKc then (OTBR_ERROR_NONE, Some (PSKcEvent pskc)) else (OTBR_ERROR_DBUS, None)))
      else if aKey = kWPANTUNDProperty_UdpProxyStream then
        rbind (arg_bytes arg) (\<lambda>buf. map_res (\<lambda>ev. (OTBR_ERROR_NONE, Some ev)) (parse_stream buf))
      else if aKey = kWPANTUNDProperty_NCPState then
        rbind (arg_string arg) (\<lambda>state. Ok (OTBR_ERROR_NONE, Some (ThreadStateEvent (state = ''associated''))))
      else if aKey = kWPANTUNDProperty_NetworkName then
        rbind (arg_string arg) (\<lambda>networkName. Ok (OTBR_ERROR_NONE, Some (NetworkNameEvent networkName)))
      else if aKey = kWPANTUNDProperty_NetworkXPANID then
        (case arg of
           ArgUint64 v \<Rightarrow> Ok (OTBR_ERROR_NONE, Some (ExtPanIdEvent (swap_bytes 0 7 (memory_u64 v))))
         | _ \<Rightarrow> Fault AssertFail)
      else Ok (OTBR_ERROR_NONE, None))"

text \<open>
  A message of the bus; \<open>msg_args\<close> is the first two arguments of a changed property.  \<open>strstr\<close>
  looks for the name of the interface in the path.
\<close>

record dbus_message =
  msg_sender :: "string option"
  msg_path :: "string option"
  msg_is_prop_changed :: bool
  msg_args :: "(string \<times> dbus_arg) option"

datatype dbus_result = DBUS_HANDLER_RESULT_HANDLED | DBUS_HANDLER_RESULT_NOT_YET_HANDLED

definition name_changed :: "dbus_message \<Rightarrow> ncp \<Rightarrow> bool res" where
  "name_changed m c =
     (case (msg_sender m, msg_path m) of
        (Some sender, Some path) \<Rightarrow>
          if sender \<noteq> mInterfaceDBusName c then map_res (contains path) (interface_name c) else Ok False
      | _ \<Rightarrow> Ok False)"

text \<open>
  \<open>SuccessOrExit\<close> leaves when its argument is not 0: the argument is the test
  \<open>OTBR_ERROR_NONE == ParseEvent(...)\<close>, which is 1 when the event was parsed.
\<close>

definition HandlePropertyChangedSignal ::
  "string option \<Rightarrow> dbus_message \<Rightarrow> ncp \<Rightarrow> (dbus_result \<times> ncp_event option \<times> ncp) res" where
  "HandlePropertyChangedSignal found m c =
     rbind (name_changed m c) (\<lambda>changed.
     rbind (if changed then UpdateInterfaceDBusPath found c else Ok (OTBR_ERROR_NONE, c)) (\<lambda>(err, c1).
       if err \<noteq> OTBR_ERROR_NONE \<or> \<not> msg_is_prop_changed m then Ok (DBUS_HANDLER_RESULT_NOT_YET_HANDLED, None, c1)
       else case msg_args m of
         None \<Rightarrow> Ok (DBUS_HANDLER_RESULT_NOT_YET_HANDLED, None, c1)
       | Some (key, arg) \<Rightarrow>
           map_res (\<lambda>(ret, ev).
             (if ret = OTBR_ERROR_NONE then DBUS_HANDLER_RESULT_NOT_YET_HANDLED else DBUS_HANDLER_RESULT_HANDLED, ev, c1))
             (ParseEvent key arg)))"

section \<open>What goes to the daemon\<close>

text \<open>Whether the calls that build and send a message succeed, and the reply to a request.\<close>

record dbus_env =
  de_message :: bool
  de_append :: bool
  de_send :: bool
  de_reply :: "(u32 \<times> dbus_arg) option option"

definition SPINEL_STATUS_OK :: u32 where "SPINEL_STATUS_OK = 0"

text \<open>The vector of \<open>UdpProxySend\<close>, filled field by field.\<close>

definition proxy_bytes :: "byte list \<Rightarrow> u16 \<Rightarrow> byte list \<Rightarrow> u16 \<Rightarrow> byte list" where
  "proxy_bytes aBuffer aPeerPort aPeerAddr aSockPort =
     aBuffer @ [ucast (drop_bit 8 aPeerPort), ucast (aPeerPort AND 0xff)] @ aPeerAddr
       @ [ucast (drop_bit 8 aSockPort), ucast (aSockPort AND 0xff)]"

definition UdpProxySend ::
  "dbus_env \<Rightarrow> byte list \<Rightarrow> u16 \<Rightarrow> byte list \<Rightarrow> u16 \<Rightarrow> ncp \<Rightarrow> otbr_error \<times> ncp" where
  "UdpProxySend env aBuffer aPeerPort aPeerAddr aSockPort c =
     (let data = proxy_bytes aBuffer aPeerPort aPeerAddr aSockPort in
      if \<not> (de_message env \<and> de_append env \<and> de_send env) then (OTBR_ERROR_ERRNO, c)
      else (OTBR_ERROR_NONE, c\<lparr>mSent := mSent c @ [(kWPANTUNDProperty_UdpProxyStream, data)]\<rparr>))"

definition event_key :: "int \<Rightarrow> string option" where
  "event_key aEvent =
     (if aEvent = kEventExtPanId then Some kWPANTUNDProperty_NetworkXPANID
      else if aEvent = kEventThreadState then Some kWPANTUNDProperty_NCPState
      else if aEvent = kEventNetworkName then Some kWPANTUNDProperty_NetworkName
      else if aEvent = kEventPSKc then Some kWPANTUNDProperty_NetworkPSKc
      else None)"

definition RequestEvent :: "dbus_env \<Rightarrow> int \<Rightarrow> (otbr_error \<times> ncp_event option) res" where
  "RequestEvent env aEvent =
     (case event_key aEvent of
        None \<Rightarrow> Ok (OTBR_ERROR_ERRNO, None)
      | Some key \<Rightarrow>
          if \<not> (de_message env \<and> de_append env) then Ok (OTBR_ERROR_ERRNO, None)
          else (case de_reply env of
                  None \<Rightarrow> Ok (OTBR_ERROR_DBUS, None)
                | Some None \<Rightarrow> Ok (OTBR_ERROR_ERRNO, None)
                | Some (Some (status, arg)) \<Rightarrow>
                    if status \<noteq> SPINEL_STATUS_OK then Ok (OTBR_ERROR_ERRNO, None) else ParseEvent key arg))"

text \<open>
  The steps of \<open>Init\<close> that can fail, as what libdbus answers; the name asked for is printed into
  an array of the maximum length.
\<close>

record dbus_setup =
  ds_bus :: bool
  ds_registered :: bool
  ds_primary_owner :: bool
  ds_watch_functions :: bool
  ds_match_added :: bool
  ds_filter_added :: bool

definition OTBR_AGENT_DBUS_NAME_PREFIX :: string where "OTBR_AGENT_DBUS_NAME_PREFIX = ''otbr.agent''"

definition ncp_Init :: "dbus_setup \<Rightarrow> string option \<Rightarrow> ncp \<Rightarrow> (otbr_error \<times> ncp) res" where
  "ncp_Init ds found c0 =
     (let c = c0\<lparr>mDBus := ds_bus ds\<rparr>; failed = Ok (OTBR_ERROR_DBUS, c\<lparr>mDBus := False\<rparr>) in
      if \<not> (ds_bus ds \<and> ds_registered ds) then failed
      else rbind (interface_name c) (\<lambda>name.
      rbind (strcpy_to DBUS_MAXIMUM_NAME_LENGTH (OTBR_AGENT_DBUS_NAME_PREFIX @ ''.'' @ name)) (\<lambda>dbusName.
      if \<not> (ds_primary_owner ds \<and> ds_watch_functions ds \<and> ds_match_added ds \<and> ds_filter_added ds) then failed
      else map_res (\<lambda>(ret, c1). (ret, if ret = OTBR_ERROR_NONE then c1 else c1\<lparr>mDBus := False\<rparr>))
        (UpdateInterfaceDBusPath found c))))"

definition ncp_destroy :: "ncp \<Rightarrow> ncp" where
  "ncp_destroy c = c\<lparr>mDBus := False\<rparr>"

section \<open>Watches\<close>

text \<open>\<open>mWatches[aWatch] = b\<close> and \<open>erase\<close> on the ordered map.\<close>

fun watch_put :: "nat \<Rightarrow> bool \<Rightarrow> (nat \<times> bool) list \<Rightarrow> (nat \<times> bool) list" where
  "watch_put k b [] = [(k, b)]"
| "watch_put k b ((k', b') # ws) =
     (if k < k' then (k, b) # (k', b') # ws
      else if k = k' then (k, b) # ws
      else (k', b') # watch_put k b ws)"

definition watch_erase :: "nat \<Rightarrow> (nat \<times> bool) list \<Rightarrow> (nat \<times> bool) list" where
  "watch_erase k ws = filter (\<lambda>w. fst w \<noteq> k) ws"

text \<open>The callbacks libdbus makes; a toggle tells whether the watch is enabled now.\<close>

datatype watch_call = AddDBusWatch nat | RemoveDBusWatch nat | ToggleDBusWatch nat bool

fun watch_callback :: "watch_call \<Rightarrow> (nat \<times> bool) list \<Rightarrow> (nat \<times> bool) list" where
  "watch_callback (AddDBusWatch w) ws = watch_put w True ws"
| "watch_callback (RemoveDBusWatch w) ws = watch_erase w ws"
| "watch_callback (ToggleDBusWatch w b) ws = watch_put w b ws"

text \<open>The descriptor of a watch and its flags: readable 1, writable 2, error 4.\<close>

record watch_info =
  wi_fd :: int
  wi_readable :: bool
  wi_writable :: bool

record fd_sets =
  fs_read :: "int set"
  fs_write :: "int set"
  fs_error :: "int set"
  fs_max :: int

definition ncp_watch_fds :: "(nat \<Rightarrow> watch_info) \<Rightarrow> bool \<Rightarrow> nat \<times> bool \<Rightarrow> fd_sets \<Rightarrow> fd_sets" where
  "ncp_watch_fds info to_send it fds =
     (let w = info (fst it); fd = wi_fd w in
      if \<not> snd it \<or> fd < 0 then fds
      else \<lparr>fs_read = (if wi_readable w then insert fd (fs_read fds) else fs_read fds),
            fs_write = (if wi_writable w \<and> to_send then insert fd (fs_write fds) else fs_write fds),
            fs_error = insert fd (fs_error fds), fs_max = max (fs_max fds) fd\<rparr>)"

definition ncp_UpdateFdSet :: "(nat \<Rightarrow> watch_info) \<Rightarrow> bool \<Rightarrow> fd_sets \<Rightarrow> ncp \<Rightarrow> fd_sets" where
  "ncp_UpdateFdSet info to_send fds c = fold (ncp_watch_fds info to_send) (mWatches c) fds"

text \<open>What \<open>dbus_watch_handle\<close> is told: readable, writable, error.\<close>

record watch_flags =
  wf_watch :: nat
  wf_readable :: bool
  wf_writable :: bool
  wf_error :: bool

definition ready_flags :: "(nat \<Rightarrow> watch_info) \<Rightarrow> fd_sets \<Rightarrow> nat \<Rightarrow> watch_flags" where
  "ready_flags info fds w =
     (let i = info w; fd = wi_fd i in
      \<lparr>wf_watch = w, wf_readable = (wi_readable i \<and> fd \<in> fs_read fds),
       wf_writable = (wi_writable i \<and> fd \<in> fs_write fds), wf_error = (fd \<in> fs_error fds)\<rparr>)"

text \<open>
  The loop over the map, from the iterator's key on.  \<open>calls\<close> gives, for every watch handled, the
  callbacks libdbus makes meanwhile; they change the map the iterator walks, and an iterator
  whose own entry has been erased cannot be advanced.
\<close>

fun next_watch :: "nat \<Rightarrow> (nat \<times> bool) list \<Rightarrow> (nat \<times> bool) option" where
  "next_watch k [] = None"
| "next_watch k ((k', b) # ws) = (if k \<le> k' then Some (k', b) else next_watch k ws)"

lemma next_watch_mem: "next_watch k ws = Some (k', b) \<Longrightarrow> k \<le> k' \<and> (k', b) \<in> set ws"
  by (induction k ws rule: next_watch.induct) (auto split: if_splits)

function process_watches ::
  "(nat \<Rightarrow> watch_info) \<Rightarrow> fd_sets \<Rightarrow> watch_call list list \<Rightarrow> nat \<Rightarrow> (nat \<times> bool) list
     \<Rightarrow> (watch_flags list \<times> (nat \<times> bool) list) res" where
  "process_watches info fds calls k ws =
     (case next_watch k ws of
        None \<Rightarrow> Ok ([], ws)
      | Some (w, enabled) \<Rightarrow>
          if \<not> enabled \<or> wi_fd (info w) < 0 then process_watches info fds calls (Suc w) ws
          else (case calls of
                  [] \<Rightarrow> Fault Blocked
                | cs # calls' \<Rightarrow>
                    let ws' = fold watch_callback cs ws in
                    if RemoveDBusWatch w \<in> set cs then Fault UseAfterFree
                    else map_res (\<lambda>(hs, ws''). (ready_flags info fds w # hs, ws''))
                           (process_watches info fds calls' (Suc w) ws')))"
  by pat_completeness auto
termination
proof (relation "measures [\<lambda>(info, fds, calls, k, ws). length calls,
    \<lambda>(info, fds, calls, k, ws). length (filter (\<lambda>w. k \<le> fst w) ws)]")
  fix info :: "nat \<Rightarrow> watch_info" and fds :: fd_sets and calls :: "watch_call list list" and k ws x w enabled
  assume "next_watch k ws = Some x" "(w, enabled) = x"
  then have w: "k \<le> w" "(w, enabled) \<in> set ws" using next_watch_mem by auto
  have "filter (\<lambda>v. Suc w \<le> fst v) ws = filter (\<lambda>v. Suc w \<le> fst v) (filter (\<lambda>v. k \<le> fst v) ws)"
    using w(1) by (auto intro: filter_cong)
  also have "length \<dots> < length (filter (\<lambda>v. k \<le> fst v) ws)"
    using w by (intro length_filter_less [of "(w, enabled)"]) auto
  finally show "((info, fds, calls, Suc w, ws), info, fds, calls, k, ws) \<in> measures [\<lambda>(info, fds, calls, k, ws). length calls,
    \<lambda>(info, fds, calls, k, ws). length (filter (\<lambda>w. k \<le> fst w) ws)]" by simp
qed simp_all

declare process_watches.simps [simp del]

text \<open>\<open>Process\<close> up to the dispatching of messages, which hands each to the signal filter.\<close>

definition ncp_Process ::
  "(nat \<Rightarrow> watch_info) \<Rightarrow> fd_sets \<Rightarrow> watch_call list list \<Rightarrow> ncp \<Rightarrow> (watch_flags list \<times> ncp) res" where
  "ncp_Process info fds calls c =
     map_res (\<lambda>(hs, ws). (hs, c\<lparr>mWatches := ws\<rparr>)) (process_watches info fds calls 0 (mWatches c))"

section \<open>Lemmas\<close>

lemma u16_join': "ucast (ucast (v AND 0xff) :: byte) OR push_bit 8 (ucast (ucast (drop_bit 8 v) :: byte)) = (v :: u16)"
  using u16_join [of v] by (simp add: or.commute)

lemma length_proxy_bytes: "length (proxy_bytes pkt peer addr sock) = length pkt + length addr + 4"
  by (simp add: proxy_bytes_def)

lemma u16_plus: "k + n < 65536 \<Longrightarrow> unat (word_of_nat k + word_of_nat n :: u16) = k + n"
proof -
  assume "k + n < 65536"
  then have "unat (word_of_nat (k + n) :: u16) = k + n" by (simp only: unat_of_nat) simp
  then show ?thesis by simp
qed

lemma parse_stream_fields:
  assumes "length buf = n + 20" and "n + 20 < 65536"
  shows "parse_stream buf = Ok (UdpProxyEvent (take n buf)
    (ucast (buf ! (n + 1)) OR push_bit 8 (ucast (buf ! n))) (take 16 (drop (n + 2) buf))
    (ucast (buf ! (n + 19)) OR push_bit 8 (ucast (buf ! (n + 18)))))"
proof -
  have "unat (word_of_nat n :: u16) = n" "unat (1 + word_of_nat n :: u16) = n + 1" "unat (2 + word_of_nat n :: u16) = n + 2"
    "unat (18 + word_of_nat n :: u16) = n + 18" "unat (19 + word_of_nat n :: u16) = n + 19"
    using assms(2) u16_plus [of 0 n] u16_plus [of 1 n] u16_plus [of 2 n] u16_plus [of 18 n] u16_plus [of 19 n]
    by simp_all
  then show ?thesis
    using assms(1) by (simp add: parse_stream_def Let_def read_byte_def read_bytes_def)
qed

lemma parse_stream_proxy_bytes:
  assumes "length addr = 16" and "length pkt + 20 < 65536"
  shows "parse_stream (proxy_bytes pkt peer addr sock) = Ok (UdpProxyEvent pkt peer addr sock)"
proof -
  let ?buf = "proxy_bytes pkt peer addr sock"
  have "?buf ! (length pkt + 1) = ucast (peer AND 0xff)" "?buf ! length pkt = ucast (drop_bit 8 peer)"
    "take 16 (drop (length pkt + 2) ?buf) = addr" "take (length pkt) ?buf = pkt"
    "?buf ! (length pkt + 19) = ucast (sock AND 0xff)" "?buf ! (length pkt + 18) = ucast (drop_bit 8 sock)"
    using assms(1) by (simp_all add: proxy_bytes_def nth_append)
  with parse_stream_fields [of ?buf "length pkt"] assms show ?thesis
    by (simp add: length_proxy_bytes u16_join')
qed

lemma parse_stream_short:
  assumes "length buf < 20"
  shows "parse_stream buf = Fault OutOfBounds"
proof -
  have "length buf \<in> set [0..<20]" using assms by simp
  then consider "length buf = 0" | "length buf = 1" | "length buf \<in> {2, 3, 4, 5, 6, 7, 8, 9, 10, 11, 12, 13, 14, 15, 16, 17}"
    | "length buf = 18" | "length buf = 19"
    by (auto simp: upt_rec)
  moreover have "unat (- 1 :: u16) = 65535" by (simp add: unsigned_minus_1_eq_mask mask_eq_exp_minus_1)
  ultimately show ?thesis
    by cases (auto simp: parse_stream_def Let_def read_byte_def read_bytes_def)
qed

lemma swap_bytes_rev: "length bs = 8 \<Longrightarrow> swap_bytes 0 7 bs = rev bs"
  by (auto simp: swap_bytes.simps numeral_eq_Suc length_Suc_conv)

text \<open>
  How wpantund tells of an event: the property and its value, the extended PAN id as the number
  its bytes are in network order.
\<close>

definition be_u64 :: "byte list \<Rightarrow> u64" where
  "be_u64 bs = fold (\<lambda>b v. push_bit 8 v OR ucast b) bs 0"

fun event_value :: "ncp_event \<Rightarrow> string \<times> dbus_arg" where
  "event_value (ExtPanIdEvent x) = (kWPANTUNDProperty_NetworkXPANID, ArgUint64 (be_u64 x))"
| "event_value (NetworkNameEvent s) = (kWPANTUNDProperty_NetworkName, ArgString s)"
| "event_value (PSKcEvent k) = (kWPANTUNDProperty_NetworkPSKc, ArgBytes k)"
| "event_value (ThreadStateEvent b) = (kWPANTUNDProperty_NCPState, ArgString (if b then ''associated'' else ''offline''))"
| "event_value (UdpProxyEvent buf peer addr sock) = (kWPANTUNDProperty_UdpProxyStream, ArgBytes (proxy_bytes buf peer addr sock))"

fun event_wf :: "ncp_event \<Rightarrow> bool" where
  "event_wf (ExtPanIdEvent x) = (length x = 8)"
| "event_wf (PSKcEvent k) = (length k = 16)"
| "event_wf (UdpProxyEvent buf peer addr sock) = (length addr = 16 \<and> length buf + 20 < 65536)"
| "event_wf _ = True"

lemma memory_be_u64: "length bs = 8 \<Longrightarrow> memory_u64 (be_u64 bs) = rev bs"
proof -
  have high: "bit (x :: byte) n = False" if "8 \<le> n" for x n
    using that bit_imp_le_length [of x n] by auto
  assume "length bs = 8"
  then obtain a b c d e f g h where bs: "bs = [a, b, c, d, e, f, g, h]"
    by (auto simp: numeral_eq_Suc length_Suc_conv)
  show ?thesis
    unfolding bs memory_u64_def
    by (simp add: upt_rec be_u64_def, intro conjI; intro bit_eqI; simp add: bit_simps high)
qed

lemma event_value_parse:
  assumes "event_wf ev"
  shows "ParseEvent (fst (event_value ev)) (snd (event_value ev)) = Ok (OTBR_ERROR_NONE, Some ev)"
proof (cases ev)
  case (ExtPanIdEvent x)
  then have "swap_bytes 0 7 (memory_u64 (be_u64 x)) = x"
    using assms swap_bytes_rev [of "memory_u64 (be_u64 x)"] by (simp add: memory_be_u64)
  with ExtPanIdEvent show ?thesis by (simp add: ParseEvent_def ncp_properties)
next
  case (UdpProxyEvent buf peer addr sock)
  with assms show ?thesis by (simp add: ParseEvent_def ncp_properties arg_bytes_def parse_stream_proxy_bytes)
qed (use assms in \<open>simp_all add: ParseEvent_def ncp_properties arg_bytes_def arg_string_def kSizePSKc_def\<close>)

text \<open>
  Every event survives the way from the daemon.  When wpantund announces a property with the
  value that stands for an event, the signal filter emits exactly that event: the extended PAN
  id in network byte order, the key, the name, the state, and all fields of a proxied datagram.
  The filter then tells libdbus that it has not handled the message: the test of the parse
  result is handed to a macro that leaves on anything but 0, so what is reported is inverted.
\<close>

theorem signal_emits_event:
  assumes "event_wf ev" and "event_value ev = (key, arg)"
    and "msg_is_prop_changed m" and "msg_args m = Some (key, arg)" and "name_changed m c = Ok False"
  shows "HandlePropertyChangedSignal found m c = Ok (DBUS_HANDLER_RESULT_NOT_YET_HANDLED, Some ev, c)"
  using assms(2-5) event_value_parse [OF assms(1)] by (simp add: HandlePropertyChangedSignal_def)

theorem signal_emits_event_witness:
  "HandlePropertyChangedSignal None \<lparr>msg_sender = Some '':1.7'', msg_path = Some ''/org/wpantund/wpan0'', msg_is_prop_changed = True,
      msg_args = Some (kWPANTUNDProperty_NetworkXPANID, ArgUint64 0x0102030405060708)\<rparr>
      ((new_ControllerWpantund ''wpan0'')\<lparr>mInterfaceDBusName := '':1.7''\<rparr>)
   = Ok (DBUS_HANDLER_RESULT_NOT_YET_HANDLED, Some (ExtPanIdEvent [1, 2, 3, 4, 5, 6, 7, 8]),
      (new_ControllerWpantund ''wpan0'')\<lparr>mInterfaceDBusName := '':1.7''\<rparr>)"
proof -
  have "be_u64 [1, 2, 3, 4, 5, 6, 7, 8] = 0x0102030405060708" by code_simp
  then have val: "event_value (ExtPanIdEvent [1, 2, 3, 4, 5, 6, 7, 8])
      = (kWPANTUNDProperty_NetworkXPANID, ArgUint64 0x0102030405060708)" by simp
  show ?thesis
    by (rule signal_emits_event [OF _ val]) (simp_all add: name_changed_def)
qed

text \<open>
  A stream property of fewer than 20 bytes, which the co-processor's radio side can cause, is
  read out of bounds: the length is counted down without a test and wraps, and the filter
  faults before any event is emitted.
\<close>

theorem signal_stream_short:
  assumes "length buf < 20" and "msg_is_prop_changed m" and "name_changed m c = Ok False"
    and "msg_args m = Some (kWPANTUNDProperty_UdpProxyStream, ArgBytes buf)"
  shows "HandlePropertyChangedSignal found m c = Fault OutOfBounds"
  using assms(2-4) parse_stream_short [OF assms(1)]
  by (simp add: HandlePropertyChangedSignal_def ParseEvent_def ncp_properties arg_bytes_def)

theorem signal_stream_short_witness:
  "HandlePropertyChangedSignal None \<lparr>msg_sender = None, msg_path = None, msg_is_prop_changed = True,
      msg_args = Some (kWPANTUNDProperty_UdpProxyStream, ArgBytes [0xab])\<rparr> (new_ControllerWpantund ''wpan0'') = Fault OutOfBounds"
  by (rule signal_stream_short [of "[0xab]"]) (simp_all add: name_changed_def)

end
