(* ===== verification/Mdns.thy ===== *)
theory Mdns
  imports Logging
begin

text \<open>
  \<open>agent/mdns_avahi.cpp\<close> and \<open>agent/mdns_avahi.hpp\<close>: the event loop Avahi runs on, and the publisher
  of the border agent's service.

  Avahi is not part of the repository.  A callback of Avahi is the list of what it does to the
  poller; what the entry group is told is recorded in \<open>mCalls\<close>, and whether a call succeeds is an
  argument.  The names of watches and timers stand for their addresses.  What is written to the
  log is left out.
\<close>

section \<open>The poller\<close>

definition AVAHI_WATCH_IN :: u32 where "AVAHI_WATCH_IN = 1"
definition AVAHI_WATCH_OUT :: u32 where "AVAHI_WATCH_OUT = 4"
definition AVAHI_WATCH_ERR :: u32 where "AVAHI_WATCH_ERR = 8"
definition AVAHI_WATCH_HUP :: u32 where "AVAHI_WATCH_HUP = 16"

lemmas watch_events = AVAHI_WATCH_IN_def AVAHI_WATCH_OUT_def AVAHI_WATCH_ERR_def AVAHI_WATCH_HUP_def

text \<open>\<open>mHappened\<close> is set by neither the constructor nor \<open>WatchNew\<close>.\<close>

record avahi_watch =
  aw_address :: nat
  aw_fd :: int
  aw_events :: u32
  aw_happened :: "u32 option"

record avahi_timeout =
  at_address :: nat
  at_timeout :: u64

record poller =
  mPollWatches :: "avahi_watch list"
  mTimers :: "avahi_timeout list"
  mPollFresh :: nat

definition new_Poller :: poller where
  "new_Poller = \<lparr>mPollWatches = [], mTimers = [], mPollFresh = 0\<rparr>"

definition WatchNew :: "int \<Rightarrow> u32 \<Rightarrow> bool \<Rightarrow> poller \<Rightarrow> (nat \<times> poller) res" where
  "WatchNew aFd aEvent aCallback p =
     rbind (guard (aEvent \<noteq> 0 \<and> aCallback \<and> aFd \<ge> 0) AssertFail) (\<lambda>_.
       Ok (mPollFresh p,
         p\<lparr>mPollWatches := mPollWatches p @ [\<lparr>aw_address = mPollFresh p, aw_fd = aFd, aw_events = aEvent, aw_happened = None\<rparr>],
           mPollFresh := Suc (mPollFresh p)\<rparr>))"

text \<open>Access through the pointer Avahi holds.\<close>

definition update_watch :: "nat \<Rightarrow> (avahi_watch \<Rightarrow> avahi_watch) \<Rightarrow> poller \<Rightarrow> poller res" where
  "update_watch a f p =
     (if a \<in> aw_address ` set (mPollWatches p)
      then Ok (p\<lparr>mPollWatches := map (\<lambda>w. if aw_address w = a then f w else w) (mPollWatches p)\<rparr>)
      else Fault UseAfterFree)"

definition WatchUpdate :: "nat \<Rightarrow> u32 \<Rightarrow> poller \<Rightarrow> poller res" where
  "WatchUpdate aWatch aEvent = update_watch aWatch (\<lambda>w. w\<lparr>aw_events := aEvent\<rparr>)"

definition WatchGetEvents :: "nat \<Rightarrow> poller \<Rightarrow> u32 res" where
  "WatchGetEvents aWatch p =
     (case find (\<lambda>w. aw_address w = aWatch) (mPollWatches p) of
        None \<Rightarrow> Fault UseAfterFree
      | Some w \<Rightarrow> initialized (aw_happened w))"

definition WatchFree :: "nat \<Rightarrow> poller \<Rightarrow> poller res" where
  "WatchFree aWatch p =
     (if aWatch \<in> aw_address ` set (mPollWatches p)
      then Ok (p\<lparr>mPollWatches := remove_first (\<lambda>w. aw_address w = aWatch) (mPollWatches p)\<rparr>)
      else Fault UseAfterFree)"

text \<open>The time a timer is set for; 0 turns it off.\<close>

definition timer_at :: "u64 \<Rightarrow> (nat \<times> nat) option \<Rightarrow> u64" where
  "timer_at now aTimeout = (case aTimeout of None \<Rightarrow> 0 | Some tv \<Rightarrow> now + GetTimestamp tv)"

definition TimeoutNew :: "u64 \<Rightarrow> (nat \<times> nat) option \<Rightarrow> bool \<Rightarrow> poller \<Rightarrow> (nat \<times> poller) res" where
  "TimeoutNew now aTimeout aCallback p =
     rbind (guard aCallback AssertFail) (\<lambda>_.
       Ok (mPollFresh p, p\<lparr>mTimers := mTimers p @ [\<lparr>at_address = mPollFresh p, at_timeout = timer_at now aTimeout\<rparr>],
           mPollFresh := Suc (mPollFresh p)\<rparr>))"

definition TimeoutUpdate :: "u64 \<Rightarrow> nat \<Rightarrow> (nat \<times> nat) option \<Rightarrow> poller \<Rightarrow> poller res" where
  "TimeoutUpdate now aTimer aTimeout p =
     (if aTimer \<in> at_address ` set (mTimers p)
      then Ok (p\<lparr>mTimers := map (\<lambda>t. if at_address t = aTimer then t\<lparr>at_timeout := timer_at now aTimeout\<rparr> else t) (mTimers p)\<rparr>)
      else Fault UseAfterFree)"

definition TimeoutFree :: "nat \<Rightarrow> poller \<Rightarrow> poller res" where
  "TimeoutFree aTimer p =
     (if aTimer \<in> at_address ` set (mTimers p)
      then Ok (p\<lparr>mTimers := remove_first (\<lambda>t. at_address t = aTimer) (mTimers p)\<rparr>)
      else Fault UseAfterFree)"

section \<open>One turn of the loop\<close>

record poll_sets =
  ps_read :: "int set"
  ps_write :: "int set"
  ps_error :: "int set"
  ps_max :: int

definition poll_watch_fds :: "avahi_watch \<Rightarrow> poll_sets \<Rightarrow> poll_sets" where
  "poll_watch_fds w s =
     (let fd = aw_fd w; on = (\<lambda>ev. aw_events w AND ev \<noteq> 0) in
      \<lparr>ps_read = (if on AVAHI_WATCH_IN then insert fd (ps_read s) else ps_read s),
       ps_write = (if on AVAHI_WATCH_OUT then insert fd (ps_write s) else ps_write s),
       ps_error = (if on AVAHI_WATCH_ERR then insert fd (ps_error s) else ps_error s),
       ps_max = max (ps_max s) fd\<rparr>)"

text \<open>\<open>static_cast<long>(timeout - now) <= 0\<close>, and an \<open>unsigned long\<close> stored in an \<open>int\<close>.\<close>

definition timer_due :: "u64 \<Rightarrow> u64 \<Rightarrow> bool" where
  "timer_due now timeout \<longleftrightarrow> sint (timeout - now) \<le> 0"

definition int_of_ulong :: "u64 \<Rightarrow> int" where
  "int_of_ulong v = sint (ucast v :: u32)"

fun timers_timeval :: "u64 \<Rightarrow> avahi_timeout list \<Rightarrow> int \<times> int \<Rightarrow> int \<times> int" where
  "timers_timeval now [] tv = tv"
| "timers_timeval now (t # ts) (tv_sec, tv_usec) =
     (if at_timeout t = 0 then timers_timeval now ts (tv_sec, tv_usec)
      else if timer_due now (at_timeout t) then (0, 0)
      else let timeout = at_timeout t - now;
               sec = int_of_ulong (timeout div 1000);
               usec = int_of_ulong ((timeout mod 1000) * 1000)
           in timers_timeval now ts
                (if sec < tv_sec then (sec, tv_usec)
                 else if sec = tv_sec \<and> usec < tv_usec then (tv_sec, usec)
                 else (tv_sec, tv_usec)))"

definition poller_UpdateFdSet :: "u64 \<Rightarrow> poll_sets \<Rightarrow> int \<times> int \<Rightarrow> poller \<Rightarrow> poll_sets \<times> (int \<times> int) \<times> poller" where
  "poller_UpdateFdSet now s tv p =
     (fold poll_watch_fds (mPollWatches p) s, timers_timeval now (mTimers p) tv,
      p\<lparr>mPollWatches := map (\<lambda>w. w\<lparr>aw_happened := Some 0\<rparr>) (mPollWatches p)\<rparr>)"

text \<open>
  What a callback does to the poller.  A new watch may move the vector, which is then told by the
  flag.
\<close>

datatype poll_op =
  OpWatchNew int u32 bool | OpWatchUpdate nat u32 | OpWatchFree nat |
  OpTimeoutNew "(nat \<times> nat) option" | OpTimeoutUpdate nat "(nat \<times> nat) option" | OpTimeoutFree nat

fun poll_op_run :: "u64 \<Rightarrow> poll_op \<Rightarrow> poller \<Rightarrow> poller res" where
  "poll_op_run now (OpWatchNew fd ev moved) p = map_res snd (WatchNew fd ev True p)"
| "poll_op_run now (OpWatchUpdate a ev) p = WatchUpdate a ev p"
| "poll_op_run now (OpWatchFree a) p = WatchFree a p"
| "poll_op_run now (OpTimeoutNew tv) p = map_res snd (TimeoutNew now tv True p)"
| "poll_op_run now (OpTimeoutUpdate a tv) p = TimeoutUpdate now a tv p"
| "poll_op_run now (OpTimeoutFree a) p = TimeoutFree a p"

text \<open>Operations after which an iterator over the watches may no longer be advanced.\<close>

fun moves_watches :: "poll_op \<Rightarrow> bool" where
  "moves_watches (OpWatchNew fd ev moved) = moved"
| "moves_watches (OpWatchFree a) = True"
| "moves_watches _ = False"

definition happened_events :: "poll_sets \<Rightarrow> avahi_watch \<Rightarrow> u32" where
  "happened_events s w =
     (let fd = aw_fd w; on = (\<lambda>ev fds. aw_events w AND ev \<noteq> 0 \<and> fd \<in> fds) in
      (if on AVAHI_WATCH_IN (ps_read s) then AVAHI_WATCH_IN else 0)
      OR (if on AVAHI_WATCH_OUT (ps_write s) then AVAHI_WATCH_OUT else 0)
      OR (if on AVAHI_WATCH_ERR (ps_error s) then AVAHI_WATCH_ERR else 0))"

text \<open>
  The two loops of \<open>Process\<close>: the watches by position, then the timers that were due when they
  were looked at.  \<open>calls\<close> gives what each callback does, in order.  A result lists the
  callbacks made: a watch with what happened, a timer.
\<close>

function poll_watches ::
  "u64 \<Rightarrow> poll_sets \<Rightarrow> poll_op list list \<Rightarrow> nat \<Rightarrow> poller
     \<Rightarrow> ((nat \<times> u32) list \<times> poll_op list list \<times> poller) res" where
  "poll_watches now s calls i p =
     (if i \<ge> length (mPollWatches p) then Ok ([], calls, p)
      else
        let w = mPollWatches p ! i; h = happened_events s w;
            p1 = p\<lparr>mPollWatches := (mPollWatches p)[i := w\<lparr>aw_happened := Some h\<rparr>]\<rparr>
        in if h = 0 then poll_watches now s calls (Suc i) p1
           else (case calls of
                   [] \<Rightarrow> Fault Blocked
                 | ops # calls' \<Rightarrow>
                     rbind (fold_res (poll_op_run now) ops p1) (\<lambda>p2.
                       if list_ex moves_watches ops then Fault UseAfterFree
                       else map_res (\<lambda>(run, r). ((aw_address w, h) # run, r)) (poll_watches now s calls' (Suc i) p2))))"
  by pat_completeness auto
termination
  by (relation "measures [\<lambda>(now, s, calls, i, p). length calls, \<lambda>(now, s, calls, i, p). length (mPollWatches p) - i]") auto

declare poll_watches.simps [simp del]

fun run_expired :: "u64 \<Rightarrow> poll_op list list \<Rightarrow> nat list \<Rightarrow> poller \<Rightarrow> (nat list \<times> poller) res" where
  "run_expired now calls [] p = Ok ([], p)"
| "run_expired now calls (a # as) p =
     (if a \<notin> at_address ` set (mTimers p) then Fault UseAfterFree
      else (case calls of
              [] \<Rightarrow> Fault Blocked
            | ops # calls' \<Rightarrow>
                rbind (fold_res (poll_op_run now) ops p) (\<lambda>p'.
                  map_res (\<lambda>(run, p''). (a # run, p'')) (run_expired now calls' as p'))))"

definition expired_timers :: "u64 \<Rightarrow> poller \<Rightarrow> nat list" where
  "expired_timers now p = map at_address (filter (\<lambda>t. at_timeout t \<noteq> 0 \<and> timer_due now (at_timeout t)) (mTimers p))"

definition poller_Process ::
  "u64 \<Rightarrow> poll_sets \<Rightarrow> poll_op list list \<Rightarrow> poller \<Rightarrow> ((nat \<times> u32) list \<times> nat list \<times> poller) res" where
  "poller_Process now s calls p =
     rbind (poll_watches now s calls 0 p) (\<lambda>(run, calls1, p1).
       map_res (\<lambda>(fired, p2). (run, fired, p2)) (run_expired now calls1 (expired_timers now p1) p1))"

section \<open>The publisher\<close>

datatype mdns_state = kStateIdle | kStateReady

datatype client_state =
  AVAHI_CLIENT_S_RUNNING | AVAHI_CLIENT_FAILURE | AVAHI_CLIENT_S_COLLISION | AVAHI_CLIENT_S_REGISTERING |
  AVAHI_CLIENT_CONNECTING

definition kMaxSizeOfTxtRecord :: nat where "kMaxSizeOfTxtRecord = 128"
definition kMaxSizeOfServiceName :: nat where "kMaxSizeOfServiceName = 64"
definition kMaxSizeOfServiceType :: nat where "kMaxSizeOfServiceType = 64"

record service =
  mName :: string
  mType :: string
  mPort :: u16

text \<open>What the entry group is told; a text record is its strings, in the order Avahi gets them.\<close>

datatype avahi_call =
  GroupReset | AddService string string u16 "string list" | UpdateTxt string string "string list" | GroupCommit | ClientFree

record publisher =
  mServices :: "service list"
  mClient :: bool
  mGroup :: bool
  mState :: mdns_state
  mCalls :: "avahi_call list"

definition new_PublisherAvahi :: publisher where
  "new_PublisherAvahi = \<lparr>mServices = [], mClient = False, mGroup = False, mState = kStateIdle, mCalls = []\<rparr>"

definition pub_IsStarted :: "publisher \<Rightarrow> bool" where
  "pub_IsStarted p = mClient p"

definition avahi_do :: "avahi_call \<Rightarrow> publisher \<Rightarrow> publisher" where
  "avahi_do call p = p\<lparr>mCalls := mCalls p @ [call]\<rparr>"

text \<open>
  The text record: the strings are laid out one after another in a buffer on the stack, each
  behind the two words of its list cell, the next cell aligned to a pointer.  The offsets are
  those of a 64-bit host: \<open>sizeof(AvahiStringList)\<close> is 24, its text starts at 16.
\<close>

definition sizeof_cell :: nat where "sizeof_cell = 24"
definition cell_text :: nat where "cell_text = 16"

definition txt_buffer_size :: nat where
  "txt_buffer_size = kMaxSizeOfTxtRecord div sizeof_cell * sizeof_cell"

definition OTBR_ALIGNED :: "nat \<Rightarrow> nat" where
  "OTBR_ALIGNED address = (address + 8 - 1) div 8 * 8"

text \<open>\<open>sprintf\<close> writes the text and its terminator at \<open>curr->text\<close>.\<close>

fun txt_loop :: "(string \<times> string) list \<Rightarrow> nat \<Rightarrow> string list \<Rightarrow> string list option res" where
  "txt_loop [] used out = Ok (Some out)"
| "txt_loop ((name, val) # kvs) used out =
     (let needed = sizeof_cell + length name + length val; txt = name @ ''='' @ val in
      if \<not> used + needed < txt_buffer_size then Ok None
      else if used + cell_text + length txt + 1 > txt_buffer_size then Fault Overflow
      else txt_loop kvs (OTBR_ALIGNED (used + cell_text + length txt)) (txt # out))"

text \<open>Whether the calls of Avahi succeed.\<close>

record avahi_env =
  ae_update :: bool
  ae_add :: bool
  ae_group :: bool

definition same_service :: "u16 \<Rightarrow> string \<Rightarrow> string \<Rightarrow> service \<Rightarrow> bool" where
  "same_service aPort aName aType s \<longleftrightarrow>
     take kMaxSizeOfServiceName (mName s) = take kMaxSizeOfServiceName aName
     \<and> take kMaxSizeOfServiceType (mType s) = take kMaxSizeOfServiceType aType \<and> mPort s = aPort"

definition pub_PublishService ::
  "avahi_env \<Rightarrow> u16 \<Rightarrow> string \<Rightarrow> string \<Rightarrow> (string \<times> string) list \<Rightarrow> publisher \<Rightarrow> (otbr_error \<times> publisher) res" where
  "pub_PublishService env aPort aName aType txts p =
     (if mState p \<noteq> kStateReady then Ok (OTBR_ERROR_ERRNO, p)
      else rbind (txt_loop txts 0 []) (\<lambda>last.
        case last of
          None \<Rightarrow> Ok (OTBR_ERROR_ERRNO, p)
        | Some txt \<Rightarrow>
            if \<not> mGroup p then Fault NullDeref
            else if list_ex (same_service aPort aName aType) (mServices p)
            then Ok (if ae_update env then OTBR_ERROR_NONE else OTBR_ERROR_MDNS, avahi_do (UpdateTxt aName aType txt) p)
            else let p1 = avahi_do (AddService aName aType aPort txt) p in
              if \<not> ae_add env then Ok (OTBR_ERROR_MDNS, p1)
              else Ok (OTBR_ERROR_NONE, p1\<lparr>mServices := mServices p1 @
                [\<lparr>mName = take kMaxSizeOfServiceName aName, mType = take kMaxSizeOfServiceType aType, mPort = aPort\<rparr>]\<rparr>)))"

text \<open>\<open>notify\<close> is \<open>mStateHandler(mContext, mState)\<close>, which acts on the publisher.\<close>

definition CreateGroup :: "avahi_env \<Rightarrow> publisher \<Rightarrow> publisher" where
  "CreateGroup env p = (if mGroup p then p else p\<lparr>mGroup := ae_group env\<rparr>)"

definition HandleClientState ::
  "(mdns_state \<Rightarrow> publisher \<Rightarrow> publisher res) \<Rightarrow> avahi_env \<Rightarrow> client_state \<Rightarrow> publisher \<Rightarrow> publisher res" where
  "HandleClientState notify env aState p =
     (case aState of
        AVAHI_CLIENT_S_RUNNING \<Rightarrow>
          rbind (notify kStateReady (CreateGroup env (p\<lparr>mState := kStateReady\<rparr>))) (\<lambda>p1.
            if mGroup p1 then Ok (avahi_do GroupCommit p1) else Fault NullDeref)
      | AVAHI_CLIENT_FAILURE \<Rightarrow> notify kStateIdle (p\<lparr>mState := kStateIdle\<rparr>)
      | AVAHI_CLIENT_S_COLLISION \<Rightarrow> Ok (if mGroup p then avahi_do GroupReset p else p)
      | AVAHI_CLIENT_S_REGISTERING \<Rightarrow> Ok (if mGroup p then avahi_do GroupReset p else p)
      | AVAHI_CLIENT_CONNECTING \<Rightarrow> Ok p)"

text \<open>The state of a group: a group that is not the publisher's trips the assertion.\<close>

definition HandleGroupState :: "bool \<Rightarrow> publisher \<Rightarrow> publisher res" where
  "HandleGroupState same p =
     rbind (guard (same \<or> \<not> mGroup p) AssertFail) (\<lambda>_. Ok (p\<lparr>mGroup := True\<rparr>))"

text \<open>
  \<open>avahi_client_new\<close> reports states before it returns the client, or none when it fails.
\<close>

definition pub_Start ::
  "(mdns_state \<Rightarrow> publisher \<Rightarrow> publisher res) \<Rightarrow> avahi_env \<Rightarrow> client_state list option \<Rightarrow> publisher
     \<Rightarrow> (otbr_error \<times> publisher) res" where
  "pub_Start notify env states p =
     (case states of
        None \<Rightarrow> Ok (OTBR_ERROR_MDNS, p\<lparr>mClient := False\<rparr>)
      | Some ss \<Rightarrow>
          map_res (\<lambda>p1. (OTBR_ERROR_NONE, p1\<lparr>mClient := True\<rparr>)) (fold_res (HandleClientState notify env) ss p))"

definition pub_Stop :: "(mdns_state \<Rightarrow> publisher \<Rightarrow> publisher res) \<Rightarrow> publisher \<Rightarrow> publisher res" where
  "pub_Stop notify p =
     (let p1 = p\<lparr>mServices := []\<rparr>; p2 = (if mGroup p1 then avahi_do GroupReset p1 else p1) in
      if mClient p2 then notify kStateIdle ((avahi_do ClientFree p2)\<lparr>mClient := False, mGroup := False, mState := kStateIdle\<rparr>)
      else Ok p2)"

section \<open>How long the loop sleeps\<close>

lemma int_of_ulong_small:
  assumes "unat v < 2147483648"
  shows "int_of_ulong v = int (unat v)"
proof -
  have "int (unat v) < 2147483648" using assms by linarith
  then have v: "uint v < 2147483648" by simp
  then have "uint (ucast v :: u32) = uint v" by (simp add: unsigned_ucast_eq take_bit_int_eq_self)
  moreover have "signed_take_bit 31 (uint v) = uint v"
    using v by (intro signed_take_bit_int_eq_self) (simp_all add: order_trans [OF _ uint_ge_0])
  ultimately show ?thesis by (simp add: int_of_ulong_def sint_uint)
qed

text \<open>The milliseconds a timer that is not due still has, and what the loop makes of them.\<close>

definition timer_left :: "u64 \<Rightarrow> avahi_timeout \<Rightarrow> nat" where
  "timer_left now t = (if timer_due now (at_timeout t) then 0 else unat (at_timeout t - now))"

definition timer_runs :: "avahi_timeout \<Rightarrow> bool" where
  "timer_runs t \<longleftrightarrow> at_timeout t \<noteq> 0"

definition timeval_us :: "int \<times> int \<Rightarrow> int" where
  "timeval_us tv = fst tv * 1000000 + snd tv"

definition timeval_wf :: "int \<times> int \<Rightarrow> bool" where
  "timeval_wf tv \<longleftrightarrow> 0 \<le> fst tv \<and> 0 \<le> snd tv \<and> snd tv < 1000000"

definition timers_step :: "nat \<Rightarrow> int \<times> int \<Rightarrow> int \<times> int" where
  "timers_step left tv =
     (let sec = int (left div 1000); usec = int (left mod 1000 * 1000) in
      if sec < fst tv then (sec, snd tv) else if sec = fst tv \<and> usec < snd tv then (fst tv, usec) else tv)"

lemma timers_timeval_Cons:
  assumes "timer_left now t < 2147483648"
  shows "timers_timeval now (t # ts) tv =
    (if \<not> timer_runs t then timers_timeval now ts tv
     else if timer_due now (at_timeout t) then (0, 0)
     else timers_timeval now ts (timers_step (timer_left now t) tv))"
proof (cases "timer_runs t \<and> \<not> timer_due now (at_timeout t)")
  case True
  let ?d = "at_timeout t - now"
  have left: "timer_left now t = unat ?d" "unat ?d < 2147483648" using True assms by (simp_all add: timer_left_def)
  have "unat (?d div 1000) = unat ?d div 1000" by (simp add: unat_div)
  moreover have "unat (?d mod 1000 * 1000) = unat ?d mod 1000 * 1000"
  proof -
    have "unat (?d mod 1000) = unat ?d mod 1000" by (simp add: unat_mod)
    moreover from this have "unat (?d mod 1000) * unat (1000 :: u64) < 2 ^ 64" by simp
    ultimately show ?thesis by (subst unat_mult_lem [THEN iffD1]) simp_all
  qed
  ultimately have "int_of_ulong (?d div 1000) = int (unat ?d div 1000)"
    "int_of_ulong (?d mod 1000 * 1000) = int (unat ?d mod 1000 * 1000)"
    using left(2) by (simp_all add: int_of_ulong_small)
  with True show ?thesis by (cases tv) (simp add: left(1) timer_runs_def timers_step_def Let_def)
qed (cases tv, auto simp: timer_runs_def)

lemma timers_step_wf:
  "timeval_wf tv \<Longrightarrow> timeval_wf (timers_step left tv) \<and> timeval_us (timers_step left tv) \<le> timeval_us tv
     \<and> fst (timers_step left tv) \<le> int (left div 1000)"
proof -
  have "left mod 1000 < 1000" by simp
  then have "int (left mod 1000 * 1000) < 1000000" by linarith
  then show "timeval_wf tv \<Longrightarrow> timeval_wf (timers_step left tv) \<and> timeval_us (timers_step left tv) \<le> timeval_us tv
     \<and> fst (timers_step left tv) \<le> int (left div 1000)"
    by (auto simp: timers_step_def timeval_wf_def timeval_us_def Let_def)
qed

lemma timeval_us_fst: "timeval_wf a \<Longrightarrow> timeval_wf b \<Longrightarrow> timeval_us a \<le> timeval_us b \<Longrightarrow> fst a \<le> fst b"
  by (simp add: timeval_us_def timeval_wf_def)

lemma timers_timeval_bounds:
  assumes "timeval_wf tv" and "\<forall>t \<in> set ts. timer_left now t < 2147483648"
  shows "timeval_wf (timers_timeval now ts tv) \<and> timeval_us (timers_timeval now ts tv) \<le> timeval_us tv
    \<and> (\<forall>t \<in> set ts. timer_runs t \<longrightarrow> fst (timers_timeval now ts tv) \<le> int (timer_left now t div 1000))"
  using assms
proof (induction ts arbitrary: tv)
  case Nil
  then show ?case by simp
next
  case (Cons t ts)
  have left: "timer_left now t < 2147483648" using Cons.prems(2) by simp
  let ?tv = "timers_step (timer_left now t) tv"
  note step = timers_step_wf [OF Cons.prems(1), of "timer_left now t"]
  consider "\<not> timer_runs t" | "timer_runs t" "timer_due now (at_timeout t)" | "timer_runs t" "\<not> timer_due now (at_timeout t)"
    by blast
  then show ?case
  proof cases
    case 1
    then show ?thesis using Cons.IH [OF Cons.prems(1)] Cons.prems(2) by (simp add: timers_timeval_Cons [OF left])
  next
    case 2
    then show ?thesis using Cons.prems(1) by (simp add: timers_timeval_Cons [OF left] timeval_wf_def timeval_us_def)
  next
    case 3
    then have eq: "timers_timeval now (t # ts) tv = timers_timeval now ts ?tv" by (simp add: timers_timeval_Cons [OF left])
    have "timeval_wf ?tv" "\<forall>t \<in> set ts. timer_left now t < 2147483648" using step Cons.prems(2) by simp_all
    note IH = Cons.IH [OF this]
    have "fst (timers_timeval now ts ?tv) \<le> fst ?tv" using IH step by (intro timeval_us_fst) simp_all
    with IH step show ?thesis unfolding eq by auto
  qed
qed

text \<open>
  C37: with timers that end within 24 days, the time the poller asks the loop to sleep is a proper
  time, never longer than what the caller had, and for every running timer less than a second
  longer than the timer has left.  It is not the least of them: when a timer lowers the
  seconds, the microseconds of the earlier value stay, so a timer with one millisecond left can
  be overslept by almost a second.
\<close>

theorem poller_sleep_bound:
  assumes "timeval_wf tv" and "\<forall>t \<in> set (mTimers p). timer_left now t < 2147483648"
    and "poller_UpdateFdSet now s tv p = (s', tv', p')"
  shows "timeval_wf tv' \<and> timeval_us tv' \<le> timeval_us tv
    \<and> (\<forall>t \<in> set (mTimers p). timer_runs t \<longrightarrow> timeval_us tv' < int (timer_left now t) * 1000 + 1000000)"
proof -
  have tv': "tv' = timers_timeval now (mTimers p) tv" using assms(3) by (simp add: poller_UpdateFdSet_def)
  note b = timers_timeval_bounds [OF assms(1,2), folded tv']
  have "timeval_us tv' < int (timer_left now t) * 1000 + 1000000" if "t \<in> set (mTimers p)" "timer_runs t" for t
  proof -
    have "fst tv' \<le> int (timer_left now t div 1000)" "snd tv' < 1000000" using b that by (auto simp: timeval_wf_def)
    moreover have "int (timer_left now t div 1000) * 1000000 \<le> int (timer_left now t) * 1000" by linarith
    ultimately show ?thesis by (simp add: timeval_us_def)
  qed
  with b show ?thesis by blast
qed

theorem poller_sleep_bound_witness:
  "\<exists>s' tv' p'. poller_UpdateFdSet 5000 \<lparr>ps_read = {}, ps_write = {}, ps_error = {}, ps_max = -1\<rparr> (10, 999999)
       \<lparr>mPollWatches = [], mTimers = [\<lparr>at_address = 0, at_timeout = 5001\<rparr>], mPollFresh = 1\<rparr> = (s', tv', p')
     \<and> tv' = (0, 999999) \<and> timeval_us tv' < 1 * 1000 + 1000000"
proof -
  let ?p = "\<lparr>mPollWatches = [], mTimers = [\<lparr>at_address = 0, at_timeout = 5001\<rparr>], mPollFresh = 1\<rparr>"
  let ?s = "\<lparr>ps_read = {}, ps_write = {}, ps_error = {}, ps_max = -1\<rparr>"
  have run: "poller_UpdateFdSet 5000 ?s (10, 999999) ?p = (?s, (0, 999999), ?p)"
    by (simp add: poller_UpdateFdSet_def timer_due_def int_of_ulong_def)
  have left: "timer_left 5000 \<lparr>at_address = 0, at_timeout = 5001\<rparr> = 1" by (simp add: timer_left_def timer_due_def)
  have "timeval_us (0, 999999) < 1 * 1000 + 1000000"
    using poller_sleep_bound [OF _ _ run] left by (simp add: timeval_wf_def timer_runs_def)
  with run show ?thesis by blast
qed

section \<open>The interface of a publisher\<close>

text \<open>
  \<open>agent/mdns.hpp\<close> is an interface with two implementations.  What its client relies on: a started
  publisher lists a service once however often it is published, and stopping it forgets all.
\<close>

definition add_name :: "string \<Rightarrow> string list \<Rightarrow> string list" where
  "add_name n ns = (if n \<in> set ns then ns else ns @ [n])"

locale mdns_publisher =
  fixes started :: "'p \<Rightarrow> bool" and publish :: "string \<Rightarrow> 'p \<Rightarrow> 'p res" and stop :: "'p \<Rightarrow> 'p res"
    and published :: "'p \<Rightarrow> string list" and inv :: "'p \<Rightarrow> bool" and valid :: "string \<Rightarrow> bool"
  assumes publish: "inv p \<Longrightarrow> started p \<Longrightarrow> valid n
      \<Longrightarrow> \<exists>p'. publish n p = Ok p' \<and> inv p' \<and> started p' \<and> published p' = add_name n (published p)"
    and stop: "inv p \<Longrightarrow> \<exists>p'. stop p = Ok p' \<and> inv p' \<and> published p' = []"
begin

lemma publish_all:
  "inv p \<Longrightarrow> started p \<Longrightarrow> list_all valid ns
     \<Longrightarrow> \<exists>p'. fold_res publish ns p = Ok p' \<and> inv p' \<and> started p' \<and> published p' = fold add_name ns (published p)"
proof (induction ns arbitrary: p)
  case Nil
  then show ?case by simp
next
  case (Cons n ns)
  from Cons.prems have "valid n" "list_all valid ns" by simp_all
  from publish [OF Cons.prems(1,2) this(1)] obtain p1 where
    p1: "publish n p = Ok p1" "inv p1" "started p1" "published p1 = add_name n (published p)" by blast
  from Cons.IH [OF p1(2,3) \<open>list_all valid ns\<close>] p1(1,4) show ?case by simp
qed

lemma publish_all_stop:
  assumes "inv p" and "started p" and "list_all valid ns"
  shows "\<exists>p'. rbind (fold_res publish ns p) stop = Ok p' \<and> published p' = []"
proof -
  from publish_all [OF assms] obtain p1 where "fold_res publish ns p = Ok p1" "inv p1" by blast
  with stop [OF this(2)] show ?thesis by auto
qed

end

lemma set_fold_add_name: "set (fold add_name ns known) = set known \<union> set ns"
  by (induction ns arbitrary: known) (auto simp: add_name_def)

lemma distinct_fold_add_name: "distinct known \<Longrightarrow> distinct (fold add_name ns known)"
  by (induction ns arbitrary: known) (auto simp: add_name_def)

text \<open>The Avahi publisher when Avahi does what it is asked, for services of one type on one port.\<close>

definition valid_name :: "string \<Rightarrow> bool" where
  "valid_name n \<longleftrightarrow> n \<noteq> [] \<and> length n \<le> 16"

definition avahi_publish :: "u16 \<Rightarrow> string \<Rightarrow> string \<Rightarrow> publisher \<Rightarrow> publisher res" where
  "avahi_publish port type n p =
     map_res snd (pub_PublishService \<lparr>ae_update = True, ae_add = True, ae_group = True\<rparr> port n type [(''nn'', n)] p)"

definition avahi_ready :: "publisher \<Rightarrow> bool" where
  "avahi_ready p \<longleftrightarrow> mState p = kStateReady"

definition avahi_inv :: "u16 \<Rightarrow> string \<Rightarrow> publisher \<Rightarrow> bool" where
  "avahi_inv port type p \<longleftrightarrow> (mState p = kStateReady \<longrightarrow> mGroup p)
     \<and> (\<forall>s \<in> set (mServices p). mPort s = port \<and> mType s = take kMaxSizeOfServiceType type \<and> length (mName s) \<le> 16)"

definition avahi_names :: "publisher \<Rightarrow> string list" where
  "avahi_names p = map mName (mServices p)"

lemma avahi_known:
  assumes "avahi_inv port type p" and "length n \<le> 16"
  shows "list_ex (same_service port n type) (mServices p) \<longleftrightarrow> n \<in> set (avahi_names p)"
proof -
  have "same_service port n type s \<longleftrightarrow> mName s = n" if "s \<in> set (mServices p)" for s
    using assms that by (auto simp: avahi_inv_def same_service_def kMaxSizeOfServiceName_def)
  then show ?thesis by (auto simp: list_ex_iff avahi_names_def)
qed

lemma txt_one_name: "length n \<le> 16 \<Longrightarrow> \<exists>txt. txt_loop [(''nn'', n)] 0 [] = Ok (Some txt)"
  by (simp add: Let_def txt_buffer_size_def kMaxSizeOfTxtRecord_def sizeof_cell_def cell_text_def)

lemma avahi_publish_ok:
  assumes inv: "avahi_inv port type p" and run: "avahi_ready p" and name: "valid_name n"
  shows "\<exists>p'. avahi_publish port type n p = Ok p' \<and> avahi_inv port type p' \<and> avahi_ready p' \<and> avahi_names p' = add_name n (avahi_names p)"
proof -
  have len: "length n \<le> 16" using name by (simp add: valid_name_def)
  then have short: "take kMaxSizeOfServiceName n = n" by (simp add: kMaxSizeOfServiceName_def)
  obtain t where rec: "txt_loop [(''nn'', n)] 0 [] = Ok (Some t)" using txt_one_name [OF len] by blast
  show ?thesis
    using inv run
    by (auto simp: avahi_publish_def pub_PublishService_def rec avahi_known [OF inv len] avahi_ready_def avahi_inv_def avahi_names_def
        avahi_do_def add_name_def short len simp del: txt_loop.simps)
qed

lemma avahi_stop_ok:
  "avahi_inv port type p \<Longrightarrow> \<exists>p'. pub_Stop (\<lambda>_. Ok) p = Ok p' \<and> avahi_inv port type p' \<and> avahi_names p' = []"
  by (auto simp: pub_Stop_def avahi_inv_def avahi_names_def avahi_do_def Let_def)

interpretation avahi: mdns_publisher avahi_ready "avahi_publish port type" "pub_Stop (\<lambda>_. Ok)" avahi_names "avahi_inv port type" valid_name
  for port type
  by unfold_locales (rule avahi_publish_ok avahi_stop_ok; assumption)+

end
