(* ===== verification/MdnsSd.thy ===== *)
theory MdnsSd
  imports Mdns
begin

text \<open>
  \<open>agent/mdns_mdnssd.cpp\<close>: the publisher for hosts with mDNSResponder.

  The library (\<open>dns_sd.h\<close>) is not part of the repository: references are numbered as it hands
  them out, \<open>sd_live\<close> are those not released yet, and what it answers is an argument.  What is
  written to the log is left out, but not the assertion behind the text of an error.
\<close>

section \<open>Errors of the library\<close>

datatype dns_error =
  kDNSServiceErr_NoError | kDNSServiceErr_Unknown | kDNSServiceErr_NoSuchName | kDNSServiceErr_NoMemory |
  kDNSServiceErr_BadParam | kDNSServiceErr_BadReference | kDNSServiceErr_BadState | kDNSServiceErr_BadFlags |
  kDNSServiceErr_Unsupported | kDNSServiceErr_NotInitialized | kDNSServiceErr_AlreadyRegistered |
  kDNSServiceErr_NameConflict | kDNSServiceErr_Invalid | kDNSServiceErr_Firewall | kDNSServiceErr_Incompatible |
  kDNSServiceErr_BadInterfaceIndex | kDNSServiceErr_Refused | kDNSServiceErr_NoSuchRecord | kDNSServiceErr_NoAuth |
  kDNSServiceErr_NoSuchKey | kDNSServiceErr_NATTraversal | kDNSServiceErr_DoubleNAT | kDNSServiceErr_BadTime |
  kDNSServiceErr_BadSig | kDNSServiceErr_BadKey | kDNSServiceErr_Transient | kDNSServiceErr_ServiceNotRunning |
  kDNSServiceErr_NATPortMappingUnsupported | kDNSServiceErr_NATPortMappingDisabled | kDNSServiceErr_NoRouter |
  kDNSServiceErr_PollingMode | kDNSServiceErr_Timeout | kDNSServiceErr_Other int

fun DNSErrorToString :: "dns_error \<Rightarrow> string res" where
  "DNSErrorToString kDNSServiceErr_NoError = Ok ''OK''"
| "DNSErrorToString kDNSServiceErr_Unknown = Ok ''Unknown''"
| "DNSErrorToString kDNSServiceErr_NoSuchName = Ok ''No Such Name''"
| "DNSErrorToString kDNSServiceErr_NoMemory = Ok ''No Memory''"
| "DNSErrorToString kDNSServiceErr_BadParam = Ok ''Bad Param''"
| "DNSErrorToString kDNSServiceErr_BadReference = Ok ''Bad Reference''"
| "DNSErrorToString kDNSServiceErr_BadState = Ok ''Bad State''"
| "DNSErrorToString kDNSServiceErr_BadFlags = Ok ''Bad Flags''"
| "DNSErrorToString kDNSServiceErr_Unsupported = Ok ''Unsupported''"
| "DNSErrorToString kDNSServiceErr_NotInitialized = Ok ''Not Initialized''"
| "DNSErrorToString kDNSServiceErr_AlreadyRegistered = Ok ''Already Registered''"
| "DNSErrorToString kDNSServiceErr_NameConflict = Ok ''Name Conflict''"
| "DNSErrorToString kDNSServiceErr_Invalid = Ok ''Invalid''"
| "DNSErrorToString kDNSServiceErr_Firewall = Ok ''Firewall''"
| "DNSErrorToString kDNSServiceErr_Incompatible = Ok ''Incompatible''"
| "DNSErrorToString kDNSServiceErr_BadInterfaceIndex = Ok ''Bad Interface Index''"
| "DNSErrorToString kDNSServiceErr_Refused = Ok ''Refused''"
| "DNSErrorToString kDNSServiceErr_NoSuchRecord = Ok ''No Such Record''"
| "DNSErrorToString kDNSServiceErr_NoAuth = Ok ''No Auth''"
| "DNSErrorToString kDNSServiceErr_NoSuchKey = Ok ''No Such Key''"
| "DNSErrorToString kDNSServiceErr_NATTraversal = Ok ''NAT Traversal''"
| "DNSErrorToString kDNSServiceErr_DoubleNAT = Ok ''Double NAT''"
| "DNSErrorToString kDNSServiceErr_BadTime = Ok ''Bad Time''"
| "DNSErrorToString kDNSServiceErr_BadSig = Ok ''Bad Sig''"
| "DNSErrorToString kDNSServiceErr_BadKey = Ok ''Bad Key''"
| "DNSErrorToString kDNSServiceErr_Transient = Ok ''Transient''"
| "DNSErrorToString kDNSServiceErr_ServiceNotRunning = Ok ''Service Not Running''"
| "DNSErrorToString kDNSServiceErr_NATPortMappingUnsupported = Ok ''NAT Port Mapping Unsupported''"
| "DNSErrorToString kDNSServiceErr_NATPortMappingDisabled = Ok ''NAT Port Mapping Disabled''"
| "DNSErrorToString kDNSServiceErr_NoRouter = Ok ''No Router''"
| "DNSErrorToString kDNSServiceErr_PollingMode = Ok ''Polling Mode''"
| "DNSErrorToString kDNSServiceErr_Timeout = Ok ''Timeout''"
| "DNSErrorToString (kDNSServiceErr_Other n) = Fault AssertFail"

section \<open>State\<close>

definition sd_kMaxSizeOfTxtRecord :: nat where "sd_kMaxSizeOfTxtRecord = 128"
definition sd_kMaxSizeOfServiceName :: nat where "sd_kMaxSizeOfServiceName = 64"
definition sd_kMaxSizeOfServiceType :: nat where "sd_kMaxSizeOfServiceType = 64"
definition sd_kMaxTextRecordSize :: nat where "sd_kMaxTextRecordSize = 255"

record sd_service =
  sd_name :: string
  sd_type :: string
  sd_ref :: nat

datatype sd_call =
  SdRegister nat string string u16 "byte list" | SdUpdate nat "byte list" | SdDeallocate nat

record sd_publisher =
  sd_services :: "sd_service list"
  sd_state :: mdns_state
  sd_live :: "nat list"
  sd_fresh :: nat
  sd_calls :: "sd_call list"

definition new_PublisherMDnsSd :: sd_publisher where
  "new_PublisherMDnsSd = \<lparr>sd_services = [], sd_state = kStateIdle, sd_live = [], sd_fresh = 0, sd_calls = []\<rparr>"

definition DNSServiceRefDeallocate :: "nat \<Rightarrow> sd_publisher \<Rightarrow> sd_publisher res" where
  "DNSServiceRefDeallocate r p =
     (if r \<in> set (sd_live p) then Ok (p\<lparr>sd_live := removeAll r (sd_live p), sd_calls := sd_calls p @ [SdDeallocate r]\<rparr>)
      else Fault UseAfterFree)"

section \<open>Operations\<close>

definition sd_Start :: "(mdns_state \<Rightarrow> sd_publisher \<Rightarrow> sd_publisher res) \<Rightarrow> sd_publisher \<Rightarrow> (otbr_error \<times> sd_publisher) res" where
  "sd_Start notify p = map_res (Pair OTBR_ERROR_NONE) (notify kStateReady (p\<lparr>sd_state := kStateReady\<rparr>))"

definition sd_IsStarted :: "sd_publisher \<Rightarrow> bool" where
  "sd_IsStarted p \<longleftrightarrow> sd_state p = kStateReady"

definition sd_Stop :: "sd_publisher \<Rightarrow> sd_publisher res" where
  "sd_Stop p =
     (if sd_state p \<noteq> kStateReady then Ok p
      else map_res (\<lambda>p1. p1\<lparr>sd_services := []\<rparr>) (fold_res DNSServiceRefDeallocate (map sd_ref (sd_services p)) p))"

definition sd_destroy :: "sd_publisher \<Rightarrow> sd_publisher res" where
  "sd_destroy = sd_Stop"

definition sd_fd :: "(nat \<Rightarrow> int) \<Rightarrow> sd_publisher \<Rightarrow> nat \<Rightarrow> int res" where
  "sd_fd fd_of p r = (if r \<in> set (sd_live p) then Ok (fd_of r) else Fault UseAfterFree)"

definition sd_UpdateFdSet :: "(nat \<Rightarrow> int) \<Rightarrow> sd_publisher \<Rightarrow> poll_sets \<Rightarrow> poll_sets res" where
  "sd_UpdateFdSet fd_of p =
     fold_res (\<lambda>s sets. rbind (sd_fd fd_of p (sd_ref s)) (\<lambda>fd.
       rbind (guard (fd \<noteq> -1) AssertFail) (\<lambda>_.
         Ok (sets\<lparr>ps_read := insert fd (ps_read sets), ps_max := max (ps_max sets) fd\<rparr>)))) (sd_services p)"

definition same_sd_service :: "string \<Rightarrow> string \<Rightarrow> sd_service \<Rightarrow> bool" where
  "same_sd_service aName aType s \<longleftrightarrow>
     take sd_kMaxSizeOfServiceName (sd_name s) = take sd_kMaxSizeOfServiceName aName
     \<and> take sd_kMaxSizeOfServiceType (sd_type s) = take sd_kMaxSizeOfServiceType aType"

definition RecordService :: "string \<Rightarrow> string \<Rightarrow> nat \<Rightarrow> sd_publisher \<Rightarrow> sd_publisher res" where
  "RecordService aName aType aServiceRef p =
     (case find (same_sd_service aName aType) (sd_services p) of
        Some s \<Rightarrow> map_res (\<lambda>_. p) (guard (aServiceRef = sd_ref s) AssertFail)
      | None \<Rightarrow> Ok (p\<lparr>sd_services := sd_services p @
          [\<lparr>sd_name = take sd_kMaxSizeOfServiceName aName, sd_type = take sd_kMaxSizeOfServiceType aType, sd_ref = aServiceRef\<rparr>]\<rparr>))"

text \<open>The assertion at the end holds only when the loop has set the local reference to null.\<close>

definition DiscardService :: "string \<Rightarrow> string \<Rightarrow> nat \<Rightarrow> sd_publisher \<Rightarrow> sd_publisher res" where
  "DiscardService aName aType aServiceRef p =
     (case find (same_sd_service aName aType) (sd_services p) of
        Some s \<Rightarrow> rbind (guard (aServiceRef = sd_ref s) AssertFail) (\<lambda>_.
          DNSServiceRefDeallocate aServiceRef (p\<lparr>sd_services := remove_first (same_sd_service aName aType) (sd_services p)\<rparr>))
      | None \<Rightarrow> Fault AssertFail)"

text \<open>A reply of the library: whether the service was added, the error, and the name it got.\<close>

record sd_reply =
  sr_add :: bool
  sr_error :: dns_error
  sr_name :: string
  sr_type :: string

definition HandleServiceRegisterResult :: "nat \<Rightarrow> sd_reply \<Rightarrow> sd_publisher \<Rightarrow> sd_publisher res" where
  "HandleServiceRegisterResult r reply p =
     (if sr_error reply = kDNSServiceErr_NoError
      then if sr_add reply then RecordService (sr_name reply) (sr_type reply) r p else DiscardService (sr_name reply) (sr_type reply) r p
      else rbind (DNSErrorToString (sr_error reply)) (\<lambda>_. DiscardService (sr_name reply) (sr_type reply) r p))"

text \<open>\<open>DNSServiceProcessResult\<close> calls back for each reply that has arrived; its error is logged.\<close>

definition sd_process_result ::
  "(nat \<Rightarrow> sd_reply list \<times> dns_error) \<Rightarrow> nat \<Rightarrow> sd_publisher \<Rightarrow> sd_publisher res" where
  "sd_process_result arrived r p =
     (if r \<notin> set (sd_live p) then Fault UseAfterFree
      else rbind (fold_res (HandleServiceRegisterResult r) (fst (arrived r)) p) (\<lambda>p1.
        map_res (\<lambda>_. p1) (if snd (arrived r) \<noteq> kDNSServiceErr_NoError then DNSErrorToString (snd (arrived r)) else Ok [])))"

fun ready_services :: "(nat \<Rightarrow> int) \<Rightarrow> int set \<Rightarrow> sd_publisher \<Rightarrow> sd_service list \<Rightarrow> nat list res" where
  "ready_services fd_of fds p [] = Ok []"
| "ready_services fd_of fds p (s # ss) =
     rbind (sd_fd fd_of p (sd_ref s)) (\<lambda>fd.
       map_res (\<lambda>rs. if fd \<in> fds then sd_ref s # rs else rs) (ready_services fd_of fds p ss))"

definition sd_Process ::
  "(nat \<Rightarrow> int) \<Rightarrow> int set \<Rightarrow> (nat \<Rightarrow> sd_reply list \<times> dns_error) \<Rightarrow> sd_publisher \<Rightarrow> sd_publisher res" where
  "sd_Process fd_of fds arrived p =
     rbind (ready_services fd_of fds p (sd_services p)) (\<lambda>rs. fold_res (sd_process_result arrived) rs p)"

section \<open>Publishing\<close>

text \<open>The text record: each string behind its length, strings that do not fit are skipped.\<close>

fun txt_record :: "(string \<times> string) list \<Rightarrow> byte list \<Rightarrow> byte list res" where
  "txt_record [] txt = Ok txt"
| "txt_record ((name, val) # kvs) txt =
     (let recordLength = length name + 1 + length val in
      if \<not> (length name > 0 \<and> length val > 0 \<and> recordLength < sd_kMaxTextRecordSize) then Fault AssertFail
      else if length txt + recordLength \<ge> sd_kMaxSizeOfTxtRecord then txt_record kvs txt
      else txt_record kvs (txt @ word_of_nat recordLength # bytes_of_string (name @ ''='' @ val)))"

text \<open>What \<open>DNSServiceRegister\<close> answers: an error, or no error and whether it gave a reference.\<close>

definition sd_PublishService ::
  "dns_error \<Rightarrow> bool \<Rightarrow> u16 \<Rightarrow> string \<Rightarrow> string \<Rightarrow> (string \<times> string) list \<Rightarrow> sd_publisher \<Rightarrow> (otbr_error \<times> sd_publisher) res" where
  "sd_PublishService err given aPort aName aType txts p =
     rbind (txt_record txts []) (\<lambda>txt.
       case find (same_sd_service aName aType) (sd_services p) of
         Some s \<Rightarrow>
           if sd_ref s \<in> set (sd_live p) then Ok (OTBR_ERROR_NONE, p\<lparr>sd_calls := sd_calls p @ [SdUpdate (sd_ref s) txt]\<rparr>)
           else Fault UseAfterFree
       | None \<Rightarrow>
           if err \<noteq> kDNSServiceErr_NoError then map_res (\<lambda>_. (OTBR_ERROR_MDNS, p)) (DNSErrorToString err)
           else if \<not> given then Ok (OTBR_ERROR_NONE, p)
           else map_res (Pair OTBR_ERROR_NONE) (RecordService aName aType (sd_fresh p)
             (p\<lparr>sd_live := sd_live p @ [sd_fresh p], sd_fresh := Suc (sd_fresh p),
                sd_calls := sd_calls p @ [SdRegister (sd_fresh p) aName aType aPort txt]\<rparr>)))"

section \<open>The text record\<close>

text \<open>Reading a text record: a length, and as many bytes.\<close>

function txt_strings :: "byte list \<Rightarrow> byte list list" where
  "txt_strings [] = []"
| "txt_strings (n # bs) = take (unat n) bs # txt_strings (drop (unat n) bs)"
  by pat_completeness auto
termination
  by (relation "measure length") auto

definition txt_string :: "string \<times> string \<Rightarrow> byte list" where
  "txt_string kv = bytes_of_string (fst kv @ ''='' @ snd kv)"

text \<open>The strings that are not skipped.\<close>

fun txt_kept :: "(string \<times> string) list \<Rightarrow> nat \<Rightarrow> (string \<times> string) list" where
  "txt_kept [] used = []"
| "txt_kept (kv # kvs) used =
     (if used + length (txt_string kv) \<ge> 128 then txt_kept kvs used else kv # txt_kept kvs (used + 1 + length (txt_string kv)))"

lemma txt_kept_subset: "set (txt_kept kvs used) \<subseteq> set kvs"
  by (induction kvs used rule: txt_kept.induct) auto

lemma txt_kept_all: "used + sum_list (map (\<lambda>kv. 1 + length (txt_string kv)) kvs) \<le> 128 \<Longrightarrow> txt_kept kvs used = kvs"
  by (induction kvs used rule: txt_kept.induct) auto

lemma txt_record_kept:
  assumes "txt_record kvs out = Ok r" and "length out \<le> 128"
  shows "\<exists>more. r = out @ more \<and> length r \<le> 128 \<and> txt_strings more = map txt_string (txt_kept kvs (length out))"
  using assms
proof (induction kvs out rule: txt_record.induct)
  case (1 out)
  then show ?case by simp
next
  case (2 name val kvs out)
  obtain n where n: "length name + 1 + length val = n" by simp
  have step: "txt_record ((name, val) # kvs) out
      = (if \<not> (length name > 0 \<and> length val > 0 \<and> n < 255) then Fault AssertFail
         else if length out + n \<ge> 128 then txt_record kvs out
         else txt_record kvs (out @ word_of_nat n # txt_string (name, val)))"
    by (simp only: txt_record.simps n Let_def sd_kMaxTextRecordSize_def sd_kMaxSizeOfTxtRecord_def txt_string_def fst_conv snd_conv)
  have ok: "0 < length name" "0 < length val" "n < 255" using "2.prems"(1) unfolding step by (auto split: if_splits)
  have len: "length (txt_string (name, val)) = n" using n by (simp add: txt_string_def)
  have un: "unat (word_of_nat n :: byte) = n" using ok(3) by (simp add: unat_of_nat)
  show ?case
  proof (cases "length out + n \<ge> 128")
    case True
    then show ?thesis using "2.IH"(1) [OF n [symmetric]] "2.prems" ok len unfolding step
      by (simp add: sd_kMaxTextRecordSize_def sd_kMaxSizeOfTxtRecord_def)
  next
    case False
    let ?out = "out @ word_of_nat n # txt_string (name, val)"
    have "txt_record kvs ?out = Ok r" using "2.prems"(1) ok False unfolding step by simp
    moreover have "length ?out \<le> 128" using False len by simp
    ultimately obtain tail where tail: "r = ?out @ tail" "length r \<le> 128" "txt_strings tail = map txt_string (txt_kept kvs (length ?out))"
      using "2.IH"(2) [OF n [symmetric]] ok False by (auto simp: sd_kMaxTextRecordSize_def sd_kMaxSizeOfTxtRecord_def txt_string_def)
    have "txt_strings (word_of_nat n # txt_string (name, val) @ tail) = txt_string (name, val) # txt_strings tail"
      using un len by simp
    then show ?thesis using tail False len by (intro exI [of _ "word_of_nat n # txt_string (name, val) @ tail"]) simp
  qed
qed

text \<open>
  C36: the text record is what DNS-SD prescribes.  It fits its 128 bytes, and read back as strings
  behind their lengths it gives the pairs published, in their order, less those that no longer
  fit; when all fit together, all of them.
\<close>

theorem mdnssd_txt_roundtrip:
  assumes "txt_record kvs [] = Ok r"
  shows "length r \<le> 128 \<and> txt_strings r = map txt_string (txt_kept kvs 0)
    \<and> (sum_list (map (\<lambda>kv. 1 + length (txt_string kv)) kvs) \<le> 128 \<longrightarrow> txt_strings r = map txt_string kvs)"
proof -
  from txt_record_kept [OF assms] have "length r \<le> 128 \<and> txt_strings r = map txt_string (txt_kept kvs 0)" by auto
  then show ?thesis using txt_kept_all [of 0 kvs] by auto
qed

theorem mdnssd_txt_roundtrip_witness:
  "\<exists>r. txt_record [(''nn'', ''home''), (''xp'', ''DEAD'')] [] = Ok r
     \<and> txt_strings r = [bytes_of_string ''nn=home'', bytes_of_string ''xp=DEAD'']"
proof -
  obtain r where r: "txt_record [(''nn'', ''home''), (''xp'', ''DEAD'')] [] = Ok r"
    by (simp add: sd_kMaxTextRecordSize_def sd_kMaxSizeOfTxtRecord_def)
  from mdnssd_txt_roundtrip [OF r] r show ?thesis by (simp add: txt_string_def del: txt_record.simps)
qed

section \<open>The contract of a publisher\<close>

text \<open>Every listed service has a live reference of its own, and only a started publisher lists any.\<close>

definition sd_inv :: "string \<Rightarrow> sd_publisher \<Rightarrow> bool" where
  "sd_inv type p \<longleftrightarrow> distinct (map sd_ref (sd_services p)) \<and> set (map sd_ref (sd_services p)) \<subseteq> set (sd_live p)
     \<and> (\<forall>r \<in> set (sd_live p). r < sd_fresh p) \<and> (sd_state p \<noteq> kStateReady \<longrightarrow> sd_services p = [])
     \<and> (\<forall>s \<in> set (sd_services p). sd_type s = take sd_kMaxSizeOfServiceType type \<and> length (sd_name s) \<le> 16)"

definition sd_names :: "sd_publisher \<Rightarrow> string list" where
  "sd_names p = map sd_name (sd_services p)"

definition sd_publish :: "u16 \<Rightarrow> string \<Rightarrow> string \<Rightarrow> sd_publisher \<Rightarrow> sd_publisher res" where
  "sd_publish port type n p = map_res snd (sd_PublishService kDNSServiceErr_NoError True port n type [(''nn'', n)] p)"

lemma sd_find:
  assumes "sd_inv type p" and "length n \<le> 16"
  shows "find (same_sd_service n type) (sd_services p) = find (\<lambda>s. sd_name s = n) (sd_services p)"
proof (rule find_cong)
  fix s
  assume "s \<in> set (sd_services p)"
  then show "same_sd_service n type s = (sd_name s = n)"
    using assms by (auto simp: sd_inv_def same_sd_service_def sd_kMaxSizeOfServiceName_def)
qed simp

lemma find_name: "find (\<lambda>s. sd_name s = n) ss = None \<longleftrightarrow> n \<notin> sd_name ` set ss"
  by (auto simp: find_None_iff)

lemma sd_publish_ok:
  assumes inv: "sd_inv type p" and run: "sd_IsStarted p" and name: "valid_name n"
  shows "\<exists>p'. sd_publish port type n p = Ok p' \<and> sd_inv type p' \<and> sd_IsStarted p' \<and> sd_names p' = add_name n (sd_names p)"
proof -
  have len: "length n \<le> 16" "n \<noteq> []" using name by (simp_all add: valid_name_def)
  then obtain r where rec: "txt_record [(''nn'', n)] [] = Ok r"
    by (simp add: sd_kMaxTextRecordSize_def sd_kMaxSizeOfTxtRecord_def)
  have short: "take sd_kMaxSizeOfServiceName n = n" using len by (simp add: sd_kMaxSizeOfServiceName_def)
  show ?thesis
  proof (cases "find (\<lambda>s. sd_name s = n) (sd_services p)")
    case None
    let ?p = "p\<lparr>sd_live := sd_live p @ [sd_fresh p], sd_fresh := Suc (sd_fresh p),
      sd_calls := sd_calls p @ [SdRegister (sd_fresh p) n type port r],
      sd_services := sd_services p @ [\<lparr>sd_name = n, sd_type = take sd_kMaxSizeOfServiceType type, sd_ref = sd_fresh p\<rparr>]\<rparr>"
    have "find (same_sd_service n type) (sd_services p) = None" using None sd_find [OF inv len(1)] by simp
    then have "sd_publish port type n p = Ok ?p"
      by (simp add: sd_publish_def sd_PublishService_def rec RecordService_def short del: txt_record.simps)
    moreover have "sd_fresh p \<notin> sd_ref ` set (sd_services p)" using inv by (fastforce simp: sd_inv_def)
    then have "sd_inv type ?p" using inv run len by (auto simp: sd_inv_def sd_IsStarted_def less_Suc_eq)
    moreover have "n \<notin> set (sd_names p)" using None by (simp add: find_name sd_names_def)
    then have "sd_names ?p = add_name n (sd_names p)" by (simp add: sd_names_def add_name_def)
    moreover have "sd_IsStarted ?p" using run by (simp add: sd_IsStarted_def)
    ultimately show ?thesis by blast
  next
    case (Some s)
    then have s: "s \<in> set (sd_services p)" "sd_name s = n" by (auto simp: find_Some_iff)
    then have live: "sd_ref s \<in> set (sd_live p)" "n \<in> set (sd_names p)" using inv by (auto simp: sd_inv_def sd_names_def)
    have "find (same_sd_service n type) (sd_services p) = Some s" using Some sd_find [OF inv len(1)] by simp
    with live(1) have "sd_publish port type n p = Ok (p\<lparr>sd_calls := sd_calls p @ [SdUpdate (sd_ref s) r]\<rparr>)"
      by (simp add: sd_publish_def sd_PublishService_def rec del: txt_record.simps)
    then show ?thesis using inv run live(2) by (simp add: sd_inv_def sd_IsStarted_def sd_names_def add_name_def)
  qed
qed

lemma deallocate_all:
  "distinct rs \<Longrightarrow> set rs \<subseteq> set (sd_live p)
     \<Longrightarrow> \<exists>p'. fold_res DNSServiceRefDeallocate rs p = Ok p' \<and> sd_live p' = filter (\<lambda>r. r \<notin> set rs) (sd_live p)
           \<and> sd_state p' = sd_state p \<and> sd_fresh p' = sd_fresh p"
proof (induction rs arbitrary: p)
  case Nil
  then show ?case by simp
next
  case (Cons r rs)
  let ?p = "p\<lparr>sd_live := removeAll r (sd_live p), sd_calls := sd_calls p @ [SdDeallocate r]\<rparr>"
  have "DNSServiceRefDeallocate r p = Ok ?p" using Cons.prems by (simp add: DNSServiceRefDeallocate_def)
  moreover have "distinct rs" "set rs \<subseteq> set (sd_live ?p)" using Cons.prems by auto
  from Cons.IH [OF this] obtain p' where p': "fold_res DNSServiceRefDeallocate rs ?p = Ok p'"
    "sd_live p' = filter (\<lambda>x. x \<notin> set rs) (removeAll r (sd_live p))" "sd_state p' = sd_state p" "sd_fresh p' = sd_fresh p"
    by auto
  have "sd_live p' = filter (\<lambda>x. x \<notin> set (r # rs)) (sd_live p)"
    unfolding p'(2) by (simp add: removeAll_filter_not_eq) (rule filter_cong, auto)
  with p' show ?case using calculation by simp
qed

lemma sd_stop_ok:
  assumes inv: "sd_inv type p"
  shows "\<exists>p'. sd_Stop p = Ok p' \<and> sd_inv type p' \<and> sd_names p' = []"
proof (cases "sd_state p = kStateReady")
  case True
  have "distinct (map sd_ref (sd_services p))" "set (map sd_ref (sd_services p)) \<subseteq> set (sd_live p)"
    using inv by (simp_all add: sd_inv_def)
  from deallocate_all [OF this] True inv show ?thesis by (auto simp: sd_Stop_def sd_inv_def sd_names_def)
next
  case False
  then show ?thesis using inv by (simp add: sd_Stop_def sd_inv_def sd_names_def)
qed

interpretation mdnssd: mdns_publisher sd_IsStarted "sd_publish port type" sd_Stop sd_names "sd_inv type" valid_name
  for port type
  by unfold_locales (rule sd_publish_ok sd_stop_ok; assumption)+


definition started_sd :: sd_publisher where
  "started_sd = new_PublisherMDnsSd\<lparr>sd_state := kStateReady\<rparr>"

definition started_avahi :: publisher where
  "started_avahi = new_PublisherAvahi\<lparr>mClient := True, mGroup := True, mState := kStateReady\<rparr>"


section \<open>A service the daemon renames\<close>

lemma same_name_self: "length n \<le> 16 \<Longrightarrow> same_sd_service n type \<lparr>sd_name = n, sd_type = take sd_kMaxSizeOfServiceType type, sd_ref = r\<rparr>"
  by (simp add: same_sd_service_def sd_kMaxSizeOfServiceName_def)

text \<open>
  C35: a name conflict ends in a double release.  The service is listed under the name asked for
  as soon as it is registered.  When the daemon then confirms it under another name, the reply
  is recorded as a second service with the same reference, and the next \<open>Stop\<close> releases
  that reference twice.
\<close>

theorem mdnssd_rename_double_free:
  assumes "sd_IsStarted p" and "sd_services p = []" and "txt_record txts [] = Ok r"
    and "take 64 n' \<noteq> take 64 n"
  shows "\<exists>p1 p2. sd_PublishService kDNSServiceErr_NoError True port n type txts p = Ok (OTBR_ERROR_NONE, p1)
    \<and> map sd_ref (sd_services p1) = [sd_fresh p]
    \<and> HandleServiceRegisterResult (sd_fresh p) \<lparr>sr_add = True, sr_error = kDNSServiceErr_NoError, sr_name = n', sr_type = type\<rparr> p1 = Ok p2
    \<and> map sd_ref (sd_services p2) = [sd_fresh p, sd_fresh p] \<and> sd_Stop p2 = Fault UseAfterFree"
  using assms
  by (auto simp: sd_PublishService_def RecordService_def HandleServiceRegisterResult_def same_sd_service_def
      sd_Stop_def sd_IsStarted_def DNSServiceRefDeallocate_def sd_kMaxSizeOfServiceName_def min_def)

theorem mdnssd_rename_double_free_witness:
  "\<exists>p1 p2. sd_PublishService kDNSServiceErr_NoError True 49191 ''router'' ''_meshcop._udp.'' [(''nn'', ''home'')] started_sd
      = Ok (OTBR_ERROR_NONE, p1)
    \<and> HandleServiceRegisterResult 0 \<lparr>sr_add = True, sr_error = kDNSServiceErr_NoError, sr_name = ''router (2)'', sr_type = ''_meshcop._udp.''\<rparr> p1
      = Ok p2 \<and> sd_Stop p2 = Fault UseAfterFree"
proof -
  obtain r where r: "txt_record [(''nn'', ''home'')] [] = Ok r"
    by (simp add: sd_kMaxTextRecordSize_def sd_kMaxSizeOfTxtRecord_def)
  have s: "sd_IsStarted started_sd" "sd_services started_sd = []" "sd_fresh started_sd = 0"
    by (simp_all add: started_sd_def new_PublisherMDnsSd_def sd_IsStarted_def)
  have "take 64 ''router (2)'' \<noteq> take 64 ''router''" by simp
  from mdnssd_rename_double_free [OF s(1,2) r this, of 49191 "''_meshcop._udp.''", unfolded s(3)] show ?thesis by blast
qed

end
