(* ===== verification/BorderAgent.thy ===== *)
theory BorderAgent
  imports Ncp Mdns HexCodec
begin

text \<open>
  \<open>agent/border_agent.cpp\<close> and \<open>agent/agent_instance.cpp\<close>: the border agent between the network
  co-processor, the commissioners' UDP socket and the mDNS publisher, and the instance that owns
  it and the controller.

  \<open>mExtPanId\<close> and \<open>mNetworkName\<close> are \<open>None\<close> until an event sets them, \<open>mSocket\<close> until \<open>Start\<close>;
  \<open>mDatagrams\<close> lists what was sent to commissioners.  The publisher's state handler is the border
  agent's, and acts on the publisher with the agent's name and PAN id.
\<close>

section \<open>State\<close>

definition kBorderAgentServiceType :: string where "kBorderAgentServiceType = ''_meshcop._udp.''"
definition kMaxSizeOfPacket :: nat where "kMaxSizeOfPacket = 1500"
definition kBorderAgentUdpPort :: u16 where "kBorderAgentUdpPort = 49191"
definition kSizeNetworkName :: nat where "kSizeNetworkName = 16"
definition kSizeExtPanId :: nat where "kSizeExtPanId = 8"

datatype agent_callback = HandleExtPanId | HandleThreadState | HandleNetworkName | SendToCommissioner

record datagram =
  dg_data :: "byte list"
  dg_addr :: "byte list"
  dg_port :: u16

record border_agent =
  mPublisher :: publisher
  mSocket :: "int option"
  mExtPanId :: "byte list option"
  mNetworkName :: "string option"
  mThreadStarted :: bool
  mDatagrams :: "datagram list"

definition new_BorderAgent :: border_agent where
  "new_BorderAgent = \<lparr>mPublisher = new_PublisherAvahi, mSocket = None, mExtPanId = None, mNetworkName = None,
     mThreadStarted = False, mDatagrams = []\<rparr>"

text \<open>What Avahi answers while an event is handled: see \<open>pub_Start\<close> for the states.\<close>

record agent_env =
  ag_avahi :: avahi_env
  ag_states :: "client_state list option"

section \<open>Publishing\<close>

definition PublishService ::
  "avahi_env \<Rightarrow> string option \<Rightarrow> byte list option \<Rightarrow> publisher \<Rightarrow> publisher res" where
  "PublishService env networkName extPanId pub =
     rbind (initialized networkName) (\<lambda>name.
     rbind (guard (name \<noteq> []) AssertFail) (\<lambda>_.
     rbind (initialized extPanId) (\<lambda>xpan.
       map_res snd (pub_PublishService env kBorderAgentUdpPort name kBorderAgentServiceType
         [(''nn'', name), (''xp'', Bytes2Hex xpan)] pub))))"

definition HandleMdnsState ::
  "avahi_env \<Rightarrow> border_agent \<Rightarrow> mdns_state \<Rightarrow> publisher \<Rightarrow> publisher res" where
  "HandleMdnsState env ag aState pub =
     (case aState of
        kStateReady \<Rightarrow> PublishService env (mNetworkName ag) (mExtPanId ag) pub
      | kStateIdle \<Rightarrow> Ok pub)"

definition on_publisher :: "(publisher \<Rightarrow> publisher res) \<Rightarrow> border_agent \<Rightarrow> border_agent res" where
  "on_publisher f ag = map_res (\<lambda>pub. ag\<lparr>mPublisher := pub\<rparr>) (f (mPublisher ag))"

definition StartPublishService :: "agent_env \<Rightarrow> border_agent \<Rightarrow> border_agent res" where
  "StartPublishService env ag =
     (if pub_IsStarted (mPublisher ag)
      then on_publisher (PublishService (ag_avahi env) (mNetworkName ag) (mExtPanId ag)) ag
      else on_publisher (\<lambda>pub. map_res snd
             (pub_Start (HandleMdnsState (ag_avahi env) ag) (ag_avahi env) (ag_states env) pub)) ag)"

definition stop_publisher :: "agent_env \<Rightarrow> border_agent \<Rightarrow> border_agent res" where
  "stop_publisher env ag = on_publisher (pub_Stop (HandleMdnsState (ag_avahi env) ag)) ag"

definition StopPublishService :: "agent_env \<Rightarrow> border_agent \<Rightarrow> border_agent res" where
  "StopPublishService env ag = (if pub_IsStarted (mPublisher ag) then stop_publisher env ag else Ok ag)"

definition HandleThreadChange :: "agent_env \<Rightarrow> border_agent \<Rightarrow> border_agent res" where
  "HandleThreadChange env ag =
     (if \<not> mThreadStarted ag then StopPublishService env ag
      else rbind (initialized (mNetworkName ag)) (\<lambda>name.
        if name \<noteq> [] then StartPublishService env ag else StopPublishService env ag))"

definition SetThreadStarted :: "agent_env \<Rightarrow> bool \<Rightarrow> border_agent \<Rightarrow> border_agent res" where
  "SetThreadStarted env aStarted ag = HandleThreadChange env (ag\<lparr>mThreadStarted := aStarted\<rparr>)"

definition SetNetworkName :: "agent_env \<Rightarrow> string \<Rightarrow> border_agent \<Rightarrow> border_agent res" where
  "SetNetworkName env aNetworkName ag =
     rbind (stop_publisher env (ag\<lparr>mNetworkName := Some (take kSizeNetworkName aNetworkName)\<rparr>)) (HandleThreadChange env)"

definition SetExtPanId :: "agent_env \<Rightarrow> byte list \<Rightarrow> border_agent \<Rightarrow> border_agent res" where
  "SetExtPanId env aExtPanId ag =
     rbind (read_bytes aExtPanId 0 kSizeExtPanId) (\<lambda>x. HandleThreadChange env (ag\<lparr>mExtPanId := Some x\<rparr>))"

section \<open>Events of the co-processor\<close>

definition send_to_commissioner :: "byte list \<Rightarrow> u16 \<Rightarrow> byte list \<Rightarrow> u16 \<Rightarrow> border_agent \<Rightarrow> border_agent" where
  "send_to_commissioner packet peerPort addr sockPort ag =
     (if sockPort \<noteq> kBorderAgentUdpPort then ag
      else ag\<lparr>mDatagrams := mDatagrams ag @ [\<lparr>dg_data = packet, dg_addr = addr, dg_port = peerPort\<rparr>]\<rparr>)"

text \<open>A callback asserts that the event is its own; the arguments are those of the event.\<close>

definition agent_call ::
  "agent_env \<Rightarrow> agent_callback \<Rightarrow> unit \<Rightarrow> int \<Rightarrow> ncp_event \<Rightarrow> border_agent \<Rightarrow> border_agent res" where
  "agent_call env cb ctx aEvent ev ag =
     (case (cb, ev) of
        (HandleExtPanId, ExtPanIdEvent x) \<Rightarrow> SetExtPanId env x ag
      | (HandleThreadState, ThreadStateEvent b) \<Rightarrow> SetThreadStarted env b ag
      | (HandleNetworkName, NetworkNameEvent s) \<Rightarrow> SetNetworkName env s ag
      | (SendToCommissioner, UdpProxyEvent packet peer addr sock) \<Rightarrow> Ok (send_to_commissioner packet peer addr sock ag)
      | _ \<Rightarrow> Fault AssertFail)"

section \<open>The instance\<close>

record agent_instance =
  ai_ncp :: ncp
  ai_emitter :: "(agent_callback, unit) emitter"
  ai_agent :: border_agent

definition new_AgentInstance :: "string \<Rightarrow> agent_instance" where
  "new_AgentInstance aIfName =
     \<lparr>ai_ncp = new_ControllerWpantund aIfName, ai_emitter = new_EventEmitter, ai_agent = new_BorderAgent\<rparr>"

definition emit :: "agent_env \<Rightarrow> ncp_event option \<Rightarrow> agent_instance \<Rightarrow> agent_instance res" where
  "emit env ev ai =
     (case ev of
        None \<Rightarrow> Ok ai
      | Some e \<Rightarrow> map_res (\<lambda>ag. ai\<lparr>ai_agent := ag\<rparr>)
          (emitter_Emit (agent_call env) (event_id e) e (ai_emitter ai) (ai_agent ai)))"

definition ncp_On :: "int \<Rightarrow> agent_callback \<Rightarrow> agent_instance \<Rightarrow> agent_instance res" where
  "ncp_On ev cb ai = map_res (\<lambda>em. ai\<lparr>ai_emitter := em\<rparr>) (emitter_On ev (Some cb) () (ai_emitter ai))"

definition request_event :: "agent_env \<Rightarrow> dbus_env \<Rightarrow> int \<Rightarrow> agent_instance \<Rightarrow> agent_instance res" where
  "request_event env dbus ev ai = rbind (RequestEvent dbus ev) (\<lambda>(err, e). emit env e ai)"

text \<open>
  \<open>BorderAgent::Start\<close>.  The socket and whether \<open>bind\<close> succeeds are arguments, as is what D-Bus
  answers to the three requests; \<open>SuccessOrExit(bind(...))\<close> leaves with \<open>error\<close> unchanged.
\<close>

definition agent_Start ::
  "agent_env \<Rightarrow> int \<Rightarrow> bool \<Rightarrow> dbus_env \<times> dbus_env \<times> dbus_env \<Rightarrow> agent_instance \<Rightarrow> (otbr_error \<times> agent_instance) res" where
  "agent_Start env sock bind_ok dbus ai0 =
     (let ai = ai0\<lparr>ai_agent := (ai_agent ai0)\<lparr>mSocket := Some sock\<rparr>\<rparr> in
      if sock = -1 then Ok (OTBR_ERROR_ERRNO, ai)
      else if \<not> bind_ok then Ok (OTBR_ERROR_NONE, ai)
      else map_res (Pair OTBR_ERROR_NONE)
        (rbind (ncp_On kEventExtPanId HandleExtPanId ai) (\<lambda>ai.
         rbind (ncp_On kEventThreadState HandleThreadState ai) (\<lambda>ai.
         rbind (ncp_On kEventNetworkName HandleNetworkName ai) (\<lambda>ai.
         rbind (request_event env (fst dbus) kEventNetworkName ai) (\<lambda>ai.
         rbind (request_event env (fst (snd dbus)) kEventExtPanId ai) (\<lambda>ai.
         rbind (request_event env (snd (snd dbus)) kEventThreadState ai)
           (ncp_On kEventUdpProxyStream SendToCommissioner))))))))"

definition instance_Init ::
  "dbus_setup \<Rightarrow> string option \<Rightarrow> agent_env \<Rightarrow> int \<Rightarrow> bool \<Rightarrow> dbus_env \<times> dbus_env \<times> dbus_env \<Rightarrow> agent_instance
     \<Rightarrow> (otbr_error \<times> agent_instance) res" where
  "instance_Init ds found env sock bind_ok dbus ai =
     rbind (ncp_Init ds found (ai_ncp ai)) (\<lambda>(err, c).
       let ai1 = ai\<lparr>ai_ncp := c\<rparr> in
       if err \<noteq> OTBR_ERROR_NONE then Ok (err, ai1) else agent_Start env sock bind_ok dbus ai1)"

definition agent_UpdateFdSet :: "fd_sets \<Rightarrow> border_agent \<Rightarrow> fd_sets res" where
  "agent_UpdateFdSet fds ag =
     rbind (initialized (mSocket ag)) (\<lambda>sock.
       if sock < 0 then Fault OutOfBounds
       else Ok (fds\<lparr>fs_read := insert sock (fs_read fds), fs_max := max (fs_max fds) sock\<rparr>))"

definition instance_UpdateFdSet :: "(nat \<Rightarrow> watch_info) \<Rightarrow> bool \<Rightarrow> fd_sets \<Rightarrow> agent_instance \<Rightarrow> fd_sets res" where
  "instance_UpdateFdSet info to_send fds ai =
     agent_UpdateFdSet (ncp_UpdateFdSet info to_send fds (ai_ncp ai)) (ai_agent ai)"

text \<open>A datagram received: its bytes, cut to the buffer, and where it comes from.\<close>

definition agent_Process :: "fd_sets \<Rightarrow> datagram option \<Rightarrow> dbus_env \<Rightarrow> border_agent \<Rightarrow> ncp \<Rightarrow> ncp res" where
  "agent_Process fds received dbus ag c =
     rbind (initialized (mSocket ag)) (\<lambda>sock.
       if sock \<notin> fs_read fds then Ok c
       else (case received of
               None \<Rightarrow> Ok c
             | Some d \<Rightarrow>
                 let packet = take kMaxSizeOfPacket (dg_data d) in
                 if packet = [] then Ok c
                 else Ok (snd (UdpProxySend dbus packet (dg_port d) (dg_addr d) kBorderAgentUdpPort c))))"

text \<open>The messages the dispatch loop takes from the connection, one after another.\<close>

definition dispatch_message :: "agent_env \<Rightarrow> string option \<times> dbus_message \<Rightarrow> agent_instance \<Rightarrow> agent_instance res" where
  "dispatch_message env m ai =
     rbind (HandlePropertyChangedSignal (fst m) (snd m) (ai_ncp ai)) (\<lambda>(result, ev, c). emit env ev (ai\<lparr>ai_ncp := c\<rparr>))"

definition instance_Process ::
  "(nat \<Rightarrow> watch_info) \<Rightarrow> fd_sets \<Rightarrow> watch_call list list \<Rightarrow> agent_env \<Rightarrow> (string option \<times> dbus_message) list
     \<Rightarrow> datagram option \<Rightarrow> dbus_env \<Rightarrow> agent_instance \<Rightarrow> (watch_flags list \<times> agent_instance) res" where
  "instance_Process info fds calls env messages received dbus ai =
     rbind (ncp_Process info fds calls (ai_ncp ai)) (\<lambda>(handled, c).
     rbind (fold_res (dispatch_message env) messages (ai\<lparr>ai_ncp := c\<rparr>)) (\<lambda>ai1.
       map_res (\<lambda>c1. (handled, ai1\<lparr>ai_ncp := c1\<rparr>)) (agent_Process fds received dbus (ai_agent ai1) (ai_ncp ai1))))"

text \<open>
  \<open>~AgentInstance\<close> destroys the controller; the destructor of the border agent is empty and leaves the
  publisher it has made as it is.
\<close>

definition instance_destroy :: "agent_instance \<Rightarrow> agent_instance" where
  "instance_destroy ai = ai\<lparr>ai_ncp := ncp_destroy (ai_ncp ai)\<rparr>"

section \<open>Properties\<close>

text \<open>A message that tells of a changed property, from the interface that is known.\<close>

definition property_changed :: "string \<Rightarrow> dbus_arg \<Rightarrow> dbus_message" where
  "property_changed key arg = \<lparr>msg_sender = None, msg_path = None, msg_is_prop_changed = True, msg_args = Some (key, arg)\<rparr>"

lemma dispatch_property:
  "ParseEvent key arg = Ok (err, ev) \<Longrightarrow> dispatch_message env (found, property_changed key arg) ai = emit env ev ai"
  by (simp add: dispatch_message_def HandlePropertyChangedSignal_def name_changed_def property_changed_def)

lemma ParseEvent_stream:
  "ParseEvent kWPANTUNDProperty_UdpProxyStream (ArgBytes buf) = map_res (\<lambda>ev. (OTBR_ERROR_NONE, Some ev)) (parse_stream buf)"
  by (simp add: ParseEvent_def arg_bytes_def ncp_properties)

text \<open>
  C6: the agent is a transparent proxy.  A datagram of up to 1500 bytes from a commissioner is set,
  with its sender and the agent's port, as the stream property of the co-processor; and when
  the co-processor's stream holds these bytes, the agent sends a commissioner the very same
  datagram: nothing of its bytes, address or port is lost or changed by the two encodings.
\<close>

theorem proxy_roundtrip:
  assumes sock: "mSocket ag = Some sock" "sock \<in> fs_read fds" and dbus: "de_message dbus" "de_append dbus" "de_send dbus"
    and d: "dg_data d \<noteq> []" "length (dg_data d) \<le> 1500" "length (dg_addr d) = 16"
    and on: "mEvents (ai_emitter ai) kEventUdpProxyStream = Some [(SendToCommissioner, ())]"
  shows "\<exists>c' bytes. agent_Process fds (Some d) dbus ag c = Ok c'
    \<and> mSent c' = mSent c @ [(kWPANTUNDProperty_UdpProxyStream, bytes)]
    \<and> dispatch_message env (found, property_changed kWPANTUNDProperty_UdpProxyStream (ArgBytes bytes)) ai
        = Ok (ai\<lparr>ai_agent := (ai_agent ai)\<lparr>mDatagrams := mDatagrams (ai_agent ai) @ [d]\<rparr>\<rparr>)"
proof -
  let ?bytes = "proxy_bytes (dg_data d) (dg_port d) (dg_addr d) kBorderAgentUdpPort"
  have "parse_stream ?bytes = Ok (UdpProxyEvent (dg_data d) (dg_port d) (dg_addr d) kBorderAgentUdpPort)"
    using d by (intro parse_stream_proxy_bytes) simp_all
  then have "ParseEvent kWPANTUNDProperty_UdpProxyStream (ArgBytes ?bytes)
      = Ok (OTBR_ERROR_NONE, Some (UdpProxyEvent (dg_data d) (dg_port d) (dg_addr d) kBorderAgentUdpPort))"
    by (simp add: ParseEvent_stream)
  from dispatch_property [OF this] on
  have "dispatch_message env (found, property_changed kWPANTUNDProperty_UdpProxyStream (ArgBytes ?bytes)) ai
      = Ok (ai\<lparr>ai_agent := (ai_agent ai)\<lparr>mDatagrams := mDatagrams (ai_agent ai) @ [d]\<rparr>\<rparr>)"
    by (simp add: emit_def emitter_Emit_def agent_call_def send_to_commissioner_def)
  then show ?thesis
    using sock dbus d by (simp add: agent_Process_def initialized_def UdpProxySend_def kMaxSizeOfPacket_def Let_def)
qed

text \<open>Answers of a system on which everything works, and the instance it starts.\<close>

definition good_dbus :: dbus_env where
  "good_dbus = \<lparr>de_message = True, de_append = True, de_send = True, de_reply = None\<rparr>"

definition good_env :: agent_env where
  "good_env = \<lparr>ag_avahi = \<lparr>ae_update = True, ae_add = True, ae_group = True\<rparr>, ag_states = Some []\<rparr>"

definition started_instance :: agent_instance where
  "started_instance = (case agent_Start good_env 5 True (good_dbus, good_dbus, good_dbus) (new_AgentInstance ''wpan0'') of
     Ok (err, ai) \<Rightarrow> ai | Fault e \<Rightarrow> new_AgentInstance [])"

lemma started_instance_eq:
  "agent_Start good_env 5 True (good_dbus, good_dbus, good_dbus) (new_AgentInstance ''wpan0'') = Ok (OTBR_ERROR_NONE, started_instance)
   \<and> mEvents (ai_emitter started_instance) kEventUdpProxyStream = Some [(SendToCommissioner, ())]
   \<and> ai_agent started_instance = new_BorderAgent\<lparr>mSocket := Some 5\<rparr>"
  by (simp add: started_instance_def agent_Start_def ncp_On_def emitter_On_def request_event_def RequestEvent_def
      good_dbus_def event_key_def ncp_event_ids emit_def new_AgentInstance_def new_EventEmitter_def handlers_at_def Let_def)

theorem proxy_roundtrip_witness:
  "\<exists>c' bytes. agent_Process \<lparr>fs_read = {5}, fs_write = {}, fs_error = {}, fs_max = 5\<rparr>
       (Some \<lparr>dg_data = [0x17, 0xfe], dg_addr = replicate 16 0xfe, dg_port = 49152\<rparr>) good_dbus
       (ai_agent started_instance) (ai_ncp started_instance) = Ok c'
    \<and> dispatch_message good_env (None, property_changed kWPANTUNDProperty_UdpProxyStream (ArgBytes bytes)) started_instance
        = Ok (started_instance\<lparr>ai_agent := new_BorderAgent\<lparr>mSocket := Some 5,
            mDatagrams := [\<lparr>dg_data = [0x17, 0xfe], dg_addr = replicate 16 0xfe, dg_port = 49152\<rparr>]\<rparr>\<rparr>)"
proof -
  have sock: "mSocket (ai_agent started_instance) = Some 5" "5 \<in> fs_read \<lparr>fs_read = {5}, fs_write = {}, fs_error = {}, fs_max = 5\<rparr>"
    using started_instance_eq by simp_all
  have "de_message good_dbus" "de_append good_dbus" "de_send good_dbus" by (simp_all add: good_dbus_def)
  from proxy_roundtrip [OF sock this, of "\<lparr>dg_data = [0x17, 0xfe], dg_addr = replicate 16 0xfe, dg_port = 49152\<rparr>"
      started_instance "ai_ncp started_instance" good_env None] started_instance_eq
  show ?thesis by (simp add: new_BorderAgent_def) blast
qed

section \<open>What Avahi has registered\<close>

text \<open>
  The entries of the group by the calls made, as Avahi documents them: a reset or the end of the
  client removes all, an update changes the text of an entry that exists.
\<close>

type_synonym mdns_entry = "string \<times> string \<times> u16 \<times> string list"

fun registered_step :: "avahi_call \<Rightarrow> mdns_entry list \<Rightarrow> mdns_entry list" where
  "registered_step GroupReset es = []"
| "registered_step (AddService name type port txt) es = es @ [(name, type, port, txt)]"
| "registered_step (UpdateTxt name type txt) es =
     map (\<lambda>(n, t, p, x). if n = name \<and> t = type then (n, t, p, txt) else (n, t, p, x)) es"
| "registered_step GroupCommit es = es"
| "registered_step ClientFree es = []"

definition registered :: "publisher \<Rightarrow> mdns_entry list" where
  "registered pub = fold registered_step (mCalls pub) []"

lemma registered_do [simp]: "registered (avahi_do call pub) = registered_step call (registered pub)"
  by (simp add: registered_def avahi_do_def)

lemma avahi_do_fields [simp]:
  "mServices (avahi_do call pub) = mServices pub" "mClient (avahi_do call pub) = mClient pub"
  "mGroup (avahi_do call pub) = mGroup pub" "mState (avahi_do call pub) = mState pub"
  by (simp_all add: avahi_do_def)

lemma registered_fields [simp]:
  "registered (pub\<lparr>mServices := ss\<rparr>) = registered pub" "registered (pub\<lparr>mClient := b\<rparr>) = registered pub"
  "registered (pub\<lparr>mGroup := b\<rparr>) = registered pub" "registered (pub\<lparr>mState := st\<rparr>) = registered pub"
  by (simp_all add: registered_def)

text \<open>The text record never overflows its buffer; the agent's always fits.\<close>

lemma txt_loop_total: "\<exists>r. txt_loop kvs used out = Ok r"
  by (induction kvs used out rule: txt_loop.induct)
    (auto simp: Let_def txt_buffer_size_def kMaxSizeOfTxtRecord_def sizeof_cell_def cell_text_def)

lemma OTBR_ALIGNED_le: "n \<le> 40 \<Longrightarrow> OTBR_ALIGNED n \<le> 40"
  by (simp add: OTBR_ALIGNED_def)

definition agent_txt :: "string \<Rightarrow> byte list \<Rightarrow> string list" where
  "agent_txt name xpan = [''xp='' @ Bytes2Hex xpan, ''nn='' @ name]"

lemma txt_loop_agent:
  assumes "length name \<le> 16" and "length xpan = 8"
  shows "txt_loop [(''nn'', name), (''xp'', Bytes2Hex xpan)] 0 [] = Ok (Some (agent_txt name xpan))"
  using assms OTBR_ALIGNED_le [of "19 + length name"]
  by (simp add: Let_def txt_buffer_size_def kMaxSizeOfTxtRecord_def sizeof_cell_def cell_text_def agent_txt_def)

definition agent_service :: "string \<Rightarrow> service" where
  "agent_service name = \<lparr>mName = name, mType = kBorderAgentServiceType, mPort = kBorderAgentUdpPort\<rparr>"

definition agent_entry :: "string \<Rightarrow> byte list \<Rightarrow> mdns_entry" where
  "agent_entry name xpan = (name, kBorderAgentServiceType, kBorderAgentUdpPort, agent_txt name xpan)"

text \<open>A publisher that has not been told to run, and one that runs for a network.\<close>

definition pub_idle :: "publisher \<Rightarrow> bool" where
  "pub_idle pub \<longleftrightarrow> mState pub = kStateIdle \<and> \<not> mGroup pub \<and> mServices pub = [] \<and> registered pub = []"

definition pub_runs :: "string \<Rightarrow> byte list \<Rightarrow> publisher \<Rightarrow> bool" where
  "pub_runs name xpan pub \<longleftrightarrow> mState pub = kStateReady \<and> mGroup pub
     \<and> mServices pub = [agent_service name] \<and> registered pub = [agent_entry name xpan]"

definition pub_new_group :: "publisher \<Rightarrow> bool" where
  "pub_new_group pub \<longleftrightarrow> mState pub = kStateReady \<and> mGroup pub \<and> mServices pub = [] \<and> registered pub = []"

definition avahi_good :: "avahi_env \<Rightarrow> bool" where
  "avahi_good env \<longleftrightarrow> ae_update env \<and> ae_add env \<and> ae_group env"

lemma PublishService_eq:
  assumes "name \<noteq> []" and "length name \<le> 16" and "length xpan = 8" and "avahi_good env"
    and "pub_new_group pub \<or> pub_runs name xpan' pub"
  shows "\<exists>pub'. PublishService env (Some name) (Some xpan) pub = Ok pub' \<and> pub_runs name xpan pub' \<and> mClient pub' = mClient pub"
proof -
  have short: "take kMaxSizeOfServiceName name = name" "take kMaxSizeOfServiceType kBorderAgentServiceType = kBorderAgentServiceType"
    using assms(2) by (simp_all add: kMaxSizeOfServiceName_def kMaxSizeOfServiceType_def kBorderAgentServiceType_def)
  show ?thesis
    using assms(5,1,4)
    by (auto simp: PublishService_def initialized_def pub_PublishService_def txt_loop_agent [OF assms(2,3)] avahi_good_def
        pub_new_group_def pub_runs_def same_service_def agent_service_def agent_entry_def short simp del: txt_loop.simps)
qed

lemma PublishService_waits:
  "PublishService env name xpan pub = Ok pub' \<Longrightarrow> mState pub = kStateIdle \<Longrightarrow> pub' = pub"
  by (auto simp: PublishService_def pub_PublishService_def res_simps)

text \<open>
  The invariant of the agent: the publisher runs only for a started network with a name, and
  what is registered is that network, or nothing.
\<close>

definition agent_inv :: "border_agent \<Rightarrow> bool" where
  "agent_inv ag \<longleftrightarrow> (\<forall>x. mExtPanId ag = Some x \<longrightarrow> length x = 8) \<and> (\<forall>n. mNetworkName ag = Some n \<longrightarrow> length n \<le> 16)
     \<and> (if mClient (mPublisher ag)
        then mThreadStarted ag \<and> (\<exists>name. mNetworkName ag = Some name \<and> name \<noteq> []
               \<and> (pub_idle (mPublisher ag) \<or> (\<exists>xpan. mExtPanId ag = Some xpan \<and> pub_runs name xpan (mPublisher ag))))
        else pub_idle (mPublisher ag))"

text \<open>One report of a client state that is not a loss of the server.\<close>

definition good_state :: "client_state \<Rightarrow> bool" where
  "good_state st \<longleftrightarrow> st = AVAHI_CLIENT_S_RUNNING \<or> st = AVAHI_CLIENT_CONNECTING"

lemma HandleClientState_keeps:
  assumes "HandleClientState (HandleMdnsState env ag) env st pub = Ok pub'" and "good_state st" and "avahi_good env"
    and "mNetworkName ag = Some name" "name \<noteq> []" "length name \<le> 16" "\<And>x. mExtPanId ag = Some x \<Longrightarrow> length x = 8"
    and "pub_idle pub \<or> (\<exists>xpan. mExtPanId ag = Some xpan \<and> pub_runs name xpan pub)"
  shows "mClient pub' = mClient pub \<and> (pub_idle pub' \<or> (\<exists>xpan. mExtPanId ag = Some xpan \<and> pub_runs name xpan pub'))"
proof (cases "st = AVAHI_CLIENT_S_RUNNING")
  case True
  let ?pub = "CreateGroup env (pub\<lparr>mState := kStateReady\<rparr>)"
  from True assms(1) obtain p1 where p1: "HandleMdnsState env ag kStateReady ?pub = Ok p1" "pub' = avahi_do GroupCommit p1"
    by (auto simp: HandleClientState_def res_simps split: if_splits)
  then obtain xpan where x: "mExtPanId ag = Some xpan"
    by (cases "mExtPanId ag") (auto simp: HandleMdnsState_def PublishService_def initialized_def res_simps assms(4,5))
  have "pub_new_group ?pub \<or> pub_runs name xpan ?pub"
    using assms(3,8) x by (auto simp: pub_new_group_def pub_runs_def pub_idle_def CreateGroup_def avahi_good_def)
  from PublishService_eq [OF assms(5,6) assms(7) [OF x] assms(3) this] p1 x
  have "pub_runs name xpan p1" "mClient p1 = mClient ?pub" by (auto simp: HandleMdnsState_def assms(4))
  then show ?thesis using p1(2) x by (simp add: pub_runs_def CreateGroup_def)
next
  case False
  then show ?thesis using assms(1,2,8) by (auto simp: HandleClientState_def good_state_def)
qed

lemma client_states_keep:
  assumes "fold_res (HandleClientState (HandleMdnsState env ag) env) sts pub = Ok pub'" and "list_all good_state sts" and "avahi_good env"
    and "mNetworkName ag = Some name" "name \<noteq> []" "length name \<le> 16" "\<And>x. mExtPanId ag = Some x \<Longrightarrow> length x = 8"
    and "pub_idle pub \<or> (\<exists>xpan. mExtPanId ag = Some xpan \<and> pub_runs name xpan pub)"
  shows "mClient pub' = mClient pub \<and> (pub_idle pub' \<or> (\<exists>xpan. mExtPanId ag = Some xpan \<and> pub_runs name xpan pub'))"
  using assms(1,2,8)
proof (induction sts arbitrary: pub)
  case Nil
  then show ?case by simp
next
  case (Cons st sts)
  then obtain p1 where "HandleClientState (HandleMdnsState env ag) env st pub = Ok p1"
    "fold_res (HandleClientState (HandleMdnsState env ag) env) sts p1 = Ok pub'"
    by (auto simp: res_simps)
  with HandleClientState_keeps [OF this(1) _ assms(3-7)] Cons show ?case by auto
qed

lemma pub_Stop_idle:
  assumes "pub_Stop (HandleMdnsState env ag) pub = Ok pub'" and "\<not> mClient pub \<Longrightarrow> pub_idle pub"
  shows "pub_idle pub' \<and> \<not> mClient pub'"
  using assms by (auto simp: pub_Stop_def HandleMdnsState_def pub_idle_def Let_def split: if_splits)

text \<open>
  A run of the agent: events of the co-processor through the emitter as \<open>Start\<close> leaves it, and
  states Avahi reports while there is a client.
\<close>

definition agent_emitter :: "(agent_callback, unit) emitter" where
  "agent_emitter = \<lparr>mEvents = [kEventExtPanId \<mapsto> [(HandleExtPanId, ())], kEventThreadState \<mapsto> [(HandleThreadState, ())],
     kEventNetworkName \<mapsto> [(HandleNetworkName, ())], kEventUdpProxyStream \<mapsto> [(SendToCommissioner, ())]]\<rparr>"

datatype agent_step = NetworkStep agent_env ncp_event | ClientStep avahi_env client_state

fun agent_run_step :: "agent_step \<Rightarrow> border_agent \<Rightarrow> border_agent res" where
  "agent_run_step (NetworkStep env ev) ag = emitter_Emit (agent_call env) (event_id ev) ev agent_emitter ag"
| "agent_run_step (ClientStep env st) ag =
     (if mClient (mPublisher ag) then on_publisher (HandleClientState (HandleMdnsState env ag) env st) ag else Ok ag)"

fun step_good :: "agent_step \<Rightarrow> bool" where
  "step_good (NetworkStep env ev) \<longleftrightarrow> avahi_good (ag_avahi env)
     \<and> (\<forall>sts. ag_states env = Some sts \<longrightarrow> list_all good_state sts)"
| "step_good (ClientStep env st) \<longleftrightarrow> avahi_good env \<and> good_state st"

lemma stop_publisher_inv:
  assumes "stop_publisher env ag = Ok ag'" and "\<not> mClient (mPublisher ag) \<Longrightarrow> pub_idle (mPublisher ag)"
  shows "pub_idle (mPublisher ag') \<and> \<not> mClient (mPublisher ag') \<and> mExtPanId ag' = mExtPanId ag
    \<and> mNetworkName ag' = mNetworkName ag \<and> mThreadStarted ag' = mThreadStarted ag"
proof -
  from assms(1) obtain pub where "pub_Stop (HandleMdnsState (ag_avahi env) ag) (mPublisher ag) = Ok pub" "ag' = ag\<lparr>mPublisher := pub\<rparr>"
    by (auto simp: stop_publisher_def on_publisher_def res_simps)
  with pub_Stop_idle [OF this(1) assms(2)] show ?thesis by simp
qed

lemma HandleThreadChange_inv:
  assumes run: "HandleThreadChange env ag = Ok ag'" and good: "step_good (NetworkStep env ev)"
    and lens: "\<And>x. mExtPanId ag = Some x \<Longrightarrow> length x = 8" "\<And>n. mNetworkName ag = Some n \<Longrightarrow> length n \<le> 16"
    and stopped: "\<not> mClient (mPublisher ag) \<Longrightarrow> pub_idle (mPublisher ag)"
    and runs: "\<And>name. mClient (mPublisher ag) \<Longrightarrow> mNetworkName ag = Some name \<Longrightarrow> name \<noteq> []
      \<Longrightarrow> pub_idle (mPublisher ag) \<or> (\<exists>xpan. pub_runs name xpan (mPublisher ag))"
  shows "agent_inv ag'"
proof (cases "mThreadStarted ag \<and> mNetworkName ag \<noteq> Some []")
  case False
  have "agent_inv ag'" if "StopPublishService env ag = Ok ag'"
  proof (cases "mClient (mPublisher ag)")
    case True
    with that have "stop_publisher env ag = Ok ag'" by (simp add: StopPublishService_def pub_IsStarted_def)
    from stop_publisher_inv [OF this stopped] lens show ?thesis by (simp add: agent_inv_def)
  next
    case False
    with that stopped lens show ?thesis by (auto simp: StopPublishService_def pub_IsStarted_def agent_inv_def)
  qed
  with False run show ?thesis by (auto simp: HandleThreadChange_def initialized_def split: option.splits if_splits)
next
  case True
  with run obtain name where name: "mNetworkName ag = Some name" "name \<noteq> []" "StartPublishService env ag = Ok ag'"
    by (auto simp: HandleThreadChange_def initialized_def split: option.splits if_splits)
  have av: "avahi_good (ag_avahi env)" using good by simp
  note len = lens(2) [OF name(1)]
  show ?thesis
  proof (cases "mClient (mPublisher ag)")
    case client: True
    with name obtain pub where pub: "PublishService (ag_avahi env) (mNetworkName ag) (mExtPanId ag) (mPublisher ag) = Ok pub"
      "ag' = ag\<lparr>mPublisher := pub\<rparr>"
      by (auto simp: StartPublishService_def on_publisher_def pub_IsStarted_def res_simps)
    have "mClient pub \<and> (pub_idle pub \<or> (\<exists>xpan. mExtPanId ag = Some xpan \<and> pub_runs name xpan pub))"
    proof (cases "pub_idle (mPublisher ag)")
      case True
      with PublishService_waits [OF pub(1)] client show ?thesis by (auto simp: pub_idle_def)
    next
      case False
      with runs [OF client name(1,2)] obtain xpan' where old: "pub_runs name xpan' (mPublisher ag)" by blast
      from pub(1) name obtain xpan where x: "mExtPanId ag = Some xpan"
        by (cases "mExtPanId ag") (auto simp: PublishService_def initialized_def res_simps)
      from PublishService_eq [OF name(2) len lens(1) [OF x] av disjI2 [OF old]] pub(1) x client
      show ?thesis by (auto simp: name(1))
    qed
    with pub(2) True name lens show ?thesis by (auto simp: agent_inv_def)
  next
    case noclient: False
    show ?thesis
    proof (cases "ag_states env")
      case None
      with noclient name stopped lens show ?thesis
        by (auto simp: StartPublishService_def on_publisher_def pub_IsStarted_def pub_Start_def agent_inv_def res_simps pub_idle_def)
    next
      case (Some sts)
      with noclient name obtain pub where
        pub: "fold_res (HandleClientState (HandleMdnsState (ag_avahi env) ag) (ag_avahi env)) sts (mPublisher ag) = Ok pub"
          "ag' = ag\<lparr>mPublisher := pub\<lparr>mClient := True\<rparr>\<rparr>"
        by (auto simp: StartPublishService_def on_publisher_def pub_IsStarted_def pub_Start_def res_simps)
      have "list_all good_state sts" using good Some by simp
      from client_states_keep [OF pub(1) this av name(1,2) len lens(1)] stopped [OF noclient]
      have "pub_idle pub \<or> (\<exists>xpan. mExtPanId ag = Some xpan \<and> pub_runs name xpan pub)" by blast
      with pub(2) True name lens show ?thesis by (auto simp: agent_inv_def pub_idle_def pub_runs_def)
    qed
  qed
qed

lemma agent_invD:
  assumes "agent_inv ag"
  shows "mExtPanId ag = Some x \<Longrightarrow> length x = 8" "mNetworkName ag = Some n \<Longrightarrow> length n \<le> 16"
    "\<not> mClient (mPublisher ag) \<Longrightarrow> pub_idle (mPublisher ag)"
    "mClient (mPublisher ag) \<Longrightarrow> mNetworkName ag = Some name
       \<Longrightarrow> pub_idle (mPublisher ag) \<or> (\<exists>xpan. pub_runs name xpan (mPublisher ag))"
  using assms by (auto simp: agent_inv_def split: if_splits)

lemma agent_event_inv:
  assumes inv: "agent_inv ag" and good: "step_good (NetworkStep env ev)" and run: "agent_run_step (NetworkStep env ev) ag = Ok ag'"
  shows "agent_inv ag'"
proof (cases ev)
  case (ExtPanIdEvent x)
  with run obtain y where y: "read_bytes x 0 kSizeExtPanId = Ok y" "HandleThreadChange env (ag\<lparr>mExtPanId := Some y\<rparr>) = Ok ag'"
    by (auto simp: emitter_Emit_def agent_emitter_def ncp_event_ids agent_call_def SetExtPanId_def res_simps)
  then have "length y = 8" by (auto simp: read_bytes_def kSizeExtPanId_def split: if_splits)
  then show ?thesis using agent_invD [OF inv] by (intro HandleThreadChange_inv [OF y(2) good]) auto
next
  case (ThreadStateEvent b)
  with run have "HandleThreadChange env (ag\<lparr>mThreadStarted := b\<rparr>) = Ok ag'"
    by (simp add: emitter_Emit_def agent_emitter_def ncp_event_ids agent_call_def SetThreadStarted_def)
  from HandleThreadChange_inv [OF this good] agent_invD [OF inv] show ?thesis by auto
next
  case (NetworkNameEvent s)
  let ?ag = "ag\<lparr>mNetworkName := Some (take kSizeNetworkName s)\<rparr>"
  from run NetworkNameEvent obtain ag1 where ag1: "stop_publisher env ?ag = Ok ag1" "HandleThreadChange env ag1 = Ok ag'"
    by (auto simp: emitter_Emit_def agent_emitter_def ncp_event_ids agent_call_def SetNetworkName_def res_simps)
  have "\<not> mClient (mPublisher ?ag) \<Longrightarrow> pub_idle (mPublisher ?ag)" using agent_invD(3) [OF inv] by simp
  from stop_publisher_inv [OF ag1(1) this] agent_invD(1) [OF inv] show ?thesis
    by (intro HandleThreadChange_inv [OF ag1(2) good]) (auto simp: kSizeNetworkName_def)
next
  case (UdpProxyEvent packet peer addr sock)
  with run have "ag' = send_to_commissioner packet peer addr sock ag"
    by (simp add: emitter_Emit_def agent_emitter_def ncp_event_ids agent_call_def)
  with inv show ?thesis by (simp add: agent_inv_def send_to_commissioner_def)
next
  case (PSKcEvent b)
  with run inv show ?thesis by (simp add: emitter_Emit_def agent_emitter_def ncp_event_ids)
qed

lemma agent_client_inv:
  assumes inv: "agent_inv ag" and good: "step_good (ClientStep env st)" and run: "agent_run_step (ClientStep env st) ag = Ok ag'"
  shows "agent_inv ag'"
proof (cases "mClient (mPublisher ag)")
  case True
  with inv obtain name where name: "mThreadStarted ag" "mNetworkName ag = Some name" "name \<noteq> []"
    "pub_idle (mPublisher ag) \<or> (\<exists>xpan. mExtPanId ag = Some xpan \<and> pub_runs name xpan (mPublisher ag))"
    by (auto simp: agent_inv_def)
  from run True obtain pub where
    pub: "HandleClientState (HandleMdnsState env ag) env st (mPublisher ag) = Ok pub" "ag' = ag\<lparr>mPublisher := pub\<rparr>"
    by (auto simp: on_publisher_def res_simps)
  have "good_state st" "avahi_good env" using good by simp_all
  from HandleClientState_keeps [OF pub(1) this name(2,3) agent_invD(2) [OF inv name(2)] agent_invD(1) [OF inv] name(4)]
  have "mClient pub" "pub_idle pub \<or> (\<exists>xpan. mExtPanId ag = Some xpan \<and> pub_runs name xpan pub)" using True by simp_all
  with pub(2) name agent_invD(1,2) [OF inv] show ?thesis by (auto simp: agent_inv_def)
next
  case False
  with run inv show ?thesis by simp
qed

lemma agent_run_inv:
  "fold_res agent_run_step steps ag = Ok ag' \<Longrightarrow> list_all step_good steps \<Longrightarrow> agent_inv ag \<Longrightarrow> agent_inv ag'"
proof (induction steps arbitrary: ag)
  case Nil
  then show ?case by simp
next
  case (Cons step steps)
  then obtain ag1 where ag1: "agent_run_step step ag = Ok ag1" "fold_res agent_run_step steps ag1 = Ok ag'"
    by (auto simp: res_simps)
  have good: "step_good step" using Cons.prems(2) by simp
  have "agent_inv ag1"
  proof (cases step)
    case (NetworkStep env ev)
    show ?thesis
      using Cons.prems(3) good ag1(1) unfolding NetworkStep by (rule agent_event_inv)
  next
    case (ClientStep env st)
    show ?thesis
      using Cons.prems(3) good ag1(1) unfolding ClientStep by (rule agent_client_inv)
  qed
  moreover have "list_all step_good steps" using Cons.prems(2) by simp
  ultimately show ?case using Cons.IH ag1(2) by blast
qed


definition demo_env :: agent_env where
  "demo_env = \<lparr>ag_avahi = \<lparr>ae_update = True, ae_add = True, ae_group = True\<rparr>, ag_states = Some [AVAHI_CLIENT_S_RUNNING]\<rparr>"

definition demo_steps :: "agent_step list" where
  "demo_steps = [NetworkStep demo_env (NetworkNameEvent ''OpenThread''),
     NetworkStep demo_env (ExtPanIdEvent [0xde, 0xad, 0x00, 0xbe, 0xef, 0x00, 0xca, 0xfe]),
     NetworkStep demo_env (ThreadStateEvent True)]"

lemma demo_agent_runs:
  "case fold_res agent_run_step demo_steps (new_BorderAgent\<lparr>mSocket := Some 5\<rparr>) of
     Ok ag \<Rightarrow> mNetworkName ag = Some ''OpenThread'' \<and> mExtPanId ag = Some [0xde, 0xad, 0x00, 0xbe, 0xef, 0x00, 0xca, 0xfe]
       \<and> registered (mPublisher ag) \<noteq> []
   | Fault e \<Rightarrow> False"
  by code_simp


text \<open>
  C34: a collision of host names, or the server registering its own records again, takes the agent
  off the network for good: the entry group is reset, and when the client runs again, however
  well every call succeeds, the publisher only updates the text of a service it still lists as
  published, so nothing is registered although the agent and its publisher are running.
\<close>

theorem agent_lost_after_collision:
  assumes runs: "pub_runs name xpan (mPublisher ag)" "mClient (mPublisher ag)"
    and agent: "mNetworkName ag = Some name" "name \<noteq> []" "length name \<le> 16" "mExtPanId ag = Some xpan" "length xpan = 8"
    and env: "avahi_good env" and st: "st = AVAHI_CLIENT_S_COLLISION \<or> st = AVAHI_CLIENT_S_REGISTERING"
  shows "\<exists>ag'. fold_res agent_run_step [ClientStep env st, ClientStep env AVAHI_CLIENT_S_RUNNING] ag = Ok ag'
    \<and> registered (mPublisher ag') = []
    \<and> mState (mPublisher ag') = kStateReady \<and> mServices (mPublisher ag') = [agent_service name]"
proof -
  let ?pub = "avahi_do GroupReset (mPublisher ag)"
  let ?up = "avahi_do (UpdateTxt name kBorderAgentServiceType (agent_txt name xpan)) ?pub"
  have first: "agent_run_step (ClientStep env st) ag = Ok (ag\<lparr>mPublisher := ?pub\<rparr>)"
    using st runs by (auto simp: HandleClientState_def on_publisher_def pub_runs_def)
  have short: "take kMaxSizeOfServiceName name = name" "take kMaxSizeOfServiceType kBorderAgentServiceType = kBorderAgentServiceType"
    using agent(3) by (simp_all add: kMaxSizeOfServiceName_def kMaxSizeOfServiceType_def kBorderAgentServiceType_def)
  have ready: "CreateGroup env (?pub\<lparr>mState := kStateReady\<rparr>) = ?pub"
    using runs by (simp add: CreateGroup_def pub_runs_def avahi_do_def)
  have "PublishService env (Some name) (Some xpan) ?pub = Ok ?up"
    using agent env runs(1)
    by (simp add: PublishService_def initialized_def pub_PublishService_def txt_loop_agent avahi_good_def pub_runs_def
        same_service_def agent_service_def short del: txt_loop.simps)
  then have "HandleClientState (HandleMdnsState env (ag\<lparr>mPublisher := ?pub\<rparr>)) env AVAHI_CLIENT_S_RUNNING ?pub
      = Ok (avahi_do GroupCommit ?up)"
    using agent runs(1) by (simp add: HandleClientState_def ready HandleMdnsState_def pub_runs_def)
  then have "agent_run_step (ClientStep env AVAHI_CLIENT_S_RUNNING) (ag\<lparr>mPublisher := ?pub\<rparr>)
      = Ok (ag\<lparr>mPublisher := avahi_do GroupCommit ?up\<rparr>)"
    using runs(2) by (simp add: on_publisher_def)
  with first have "fold_res agent_run_step [ClientStep env st, ClientStep env AVAHI_CLIENT_S_RUNNING] ag
      = Ok (ag\<lparr>mPublisher := avahi_do GroupCommit ?up\<rparr>)"
    by (simp del: agent_run_step.simps)
  then show ?thesis using runs(1) by (simp add: pub_runs_def del: agent_run_step.simps)
qed

definition running_publisher :: publisher where
  "running_publisher = \<lparr>mServices = [agent_service ''home''], mClient = True, mGroup = True, mState = kStateReady,
     mCalls = [AddService ''home'' kBorderAgentServiceType kBorderAgentUdpPort (agent_txt ''home'' (replicate 8 7)), GroupCommit]\<rparr>"

theorem agent_lost_after_collision_witness:
  "\<exists>ag. registered (mPublisher ag) = [agent_entry ''home'' (replicate 8 7)]
     \<and> (\<exists>ag'. fold_res agent_run_step [ClientStep (ag_avahi demo_env) AVAHI_CLIENT_S_COLLISION,
            ClientStep (ag_avahi demo_env) AVAHI_CLIENT_S_RUNNING] ag = Ok ag' \<and> registered (mPublisher ag') = [])"
proof -
  let ?ag = "\<lparr>mPublisher = running_publisher, mSocket = Some 5, mExtPanId = Some (replicate 8 7), mNetworkName = Some ''home'',
    mThreadStarted = True, mDatagrams = []\<rparr>"
  have reg: "registered (mPublisher ?ag) = [agent_entry ''home'' (replicate 8 7)]"
    by (simp add: registered_def running_publisher_def agent_entry_def)
  have "pub_runs ''home'' (replicate 8 7) (mPublisher ?ag)" "mClient (mPublisher ?ag)"
    using reg by (simp_all add: pub_runs_def running_publisher_def)
  moreover have "avahi_good (ag_avahi demo_env)" by (simp add: avahi_good_def demo_env_def)
  ultimately have "\<exists>ag'. fold_res agent_run_step [ClientStep (ag_avahi demo_env) AVAHI_CLIENT_S_COLLISION,
      ClientStep (ag_avahi demo_env) AVAHI_CLIENT_S_RUNNING] ?ag = Ok ag' \<and> registered (mPublisher ag') = []"
    using agent_lost_after_collision [of "''home''" "replicate 8 7" ?ag "ag_avahi demo_env" AVAHI_CLIENT_S_COLLISION]
    by (auto simp del: agent_run_step.simps fold_res.simps)
  with reg show ?thesis by blast
qed

end
