(* ===== verification/Encoding.thy ===== *)
theory Encoding
  imports HexCodec
begin

text \<open>
  \<open>web/utils/encoding.hpp\<close>: the byte order of integers.  The host is little-endian, so \<open>HostSwap\<close>
  swaps in \<open>BigEndian\<close> and leaves the value alone in \<open>LittleEndian\<close>.
\<close>

section \<open>Swapping\<close>

definition Swap16 :: "u16 \<Rightarrow> u16" where
  "Swap16 v = (push_bit 8 (v AND 0x00ff) AND 0xff00) OR (drop_bit 8 (v AND 0xff00) AND 0x00ff)"

definition Swap32 :: "u32 \<Rightarrow> u32" where
  "Swap32 v = push_bit 24 (v AND 0x000000ff) OR push_bit 8 (v AND 0x0000ff00)
     OR drop_bit 8 (v AND 0x00ff0000) OR drop_bit 24 (v AND 0xff000000)"

definition Swap64 :: "u64 \<Rightarrow> u64" where
  "Swap64 v = push_bit 56 (v AND 0x00000000000000ff) OR push_bit 40 (v AND 0x000000000000ff00)
     OR push_bit 24 (v AND 0x0000000000ff0000) OR push_bit 8 (v AND 0x00000000ff000000)
     OR drop_bit 8 (v AND 0x000000ff00000000) OR drop_bit 24 (v AND 0x0000ff0000000000)
     OR drop_bit 40 (v AND 0x00ff000000000000) OR drop_bit 56 (v AND 0xff00000000000000)"

definition Reverse32 :: "u32 \<Rightarrow> u32" where
  "Reverse32 v0 =
     (let v1 = push_bit 1 (v0 AND 0x55555555) OR drop_bit 1 (v0 AND 0xaaaaaaaa);
          v2 = push_bit 2 (v1 AND 0x33333333) OR drop_bit 2 (v1 AND 0xcccccccc);
          v3 = push_bit 4 (v2 AND 0x0f0f0f0f) OR drop_bit 4 (v2 AND 0xf0f0f0f0);
          v4 = push_bit 8 (v3 AND 0x00ff00ff) OR drop_bit 8 (v3 AND 0xff00ff00)
      in push_bit 16 (v4 AND 0x0000ffff) OR drop_bit 16 (v4 AND 0xffff0000))"

definition BitVectorBytes :: "nat \<Rightarrow> nat" where
  "BitVectorBytes x = (x + 7) div 8"

definition BigEndian_HostSwap16 :: "u16 \<Rightarrow> u16" where "BigEndian_HostSwap16 v = Swap16 v"
definition BigEndian_HostSwap32 :: "u32 \<Rightarrow> u32" where "BigEndian_HostSwap32 v = Swap32 v"
definition BigEndian_HostSwap64 :: "u64 \<Rightarrow> u64" where "BigEndian_HostSwap64 v = Swap64 v"
definition LittleEndian_HostSwap16 :: "u16 \<Rightarrow> u16" where "LittleEndian_HostSwap16 v = v"
definition LittleEndian_HostSwap32 :: "u32 \<Rightarrow> u32" where "LittleEndian_HostSwap32 v = v"
definition LittleEndian_HostSwap64 :: "u64 \<Rightarrow> u64" where "LittleEndian_HostSwap64 v = v"

section \<open>What the swaps do\<close>

text \<open>The bytes of a value, lowest first: its memory on the host.\<close>

definition word_bytes :: "nat \<Rightarrow> 'a::len word \<Rightarrow> byte list" where
  "word_bytes n v = map (\<lambda>i. ucast (drop_bit (8 * i) v)) [0..<n]"

lemma byte_masks:
  "(0x00ff :: u16) = mask 8" "(0xff00 :: u16) = push_bit 8 (mask 8)"
  "(0x000000ff :: u32) = mask 8" "(0x0000ff00 :: u32) = push_bit 8 (mask 8)"
  "(0x00ff0000 :: u32) = push_bit 16 (mask 8)" "(0xff000000 :: u32) = push_bit 24 (mask 8)"
  "(0x00000000000000ff :: u64) = mask 8" "(0x000000000000ff00 :: u64) = push_bit 8 (mask 8)"
  "(0x0000000000ff0000 :: u64) = push_bit 16 (mask 8)" "(0x00000000ff000000 :: u64) = push_bit 24 (mask 8)"
  "(0x000000ff00000000 :: u64) = push_bit 32 (mask 8)" "(0x0000ff0000000000 :: u64) = push_bit 40 (mask 8)"
  "(0x00ff000000000000 :: u64) = push_bit 48 (mask 8)" "(0xff00000000000000 :: u64) = push_bit 56 (mask 8)"
  by (simp_all add: mask_eq_exp_minus_1 push_bit_eq_mult)

lemma bit_byte_high: "8 \<le> n \<Longrightarrow> bit (x :: byte) n = False"
  using bit_imp_le_length [of x n] by auto

lemma Swap64_bytes: "word_bytes 8 (Swap64 v) = rev (word_bytes 8 v)"
  unfolding word_bytes_def Swap64_def byte_masks
  by (simp add: upt_rec, intro conjI; intro bit_eqI; auto simp: bit_simps)

lemma Swap32_bytes: "word_bytes 4 (Swap32 v) = rev (word_bytes 4 v)"
  unfolding word_bytes_def Swap32_def byte_masks
  by (simp add: upt_rec, intro conjI; intro bit_eqI; auto simp: bit_simps)

lemma Swap16_bytes: "word_bytes 2 (Swap16 v) = rev (word_bytes 2 v)"
  unfolding word_bytes_def Swap16_def byte_masks
  by (simp add: upt_rec, intro conjI; intro bit_eqI; auto simp: bit_simps)

lemma word_bytes_bit:
  assumes "word_bytes n v = word_bytes n w" and "k < 8 * n"
  shows "bit v k = bit w k"
proof -
  have "k div 8 < n" using assms(2) by auto
  with assms(1) have "(ucast (drop_bit (8 * (k div 8)) v) :: byte) = ucast (drop_bit (8 * (k div 8)) w)"
    by (simp add: word_bytes_def list_eq_iff_nth_eq)
  then have "bit (ucast (drop_bit (8 * (k div 8)) v) :: byte) (k mod 8) = bit (ucast (drop_bit (8 * (k div 8)) w) :: byte) (k mod 8)"
    by simp
  then show ?thesis by (simp add: bit_simps)
qed

lemma word_bytes_inj: "word_bytes n v = word_bytes n w \<Longrightarrow> LENGTH('a) \<le> 8 * n \<Longrightarrow> v = (w :: 'a::len word)"
  by (rule bit_word_eqI) (rule word_bytes_bit, auto)

lemma Swap64_Swap64: "Swap64 (Swap64 v) = v"
  by (rule word_bytes_inj [of 8]) (simp_all add: Swap64_bytes)

lemma Swap32_Swap32: "Swap32 (Swap32 v) = v"
  by (rule word_bytes_inj [of 4]) (simp_all add: Swap32_bytes)

lemma Swap16_Swap16: "Swap16 (Swap16 v) = v"
  by (rule word_bytes_inj [of 2]) (simp_all add: Swap16_bytes)

text \<open>\<open>Long2Hex\<close> prints the memory of its argument; of a swapped value, the value in network order.\<close>

lemma Long2Hex_swapped: "Long2Hex (BigEndian_HostSwap64 v) = Bytes2Hex (rev (word_bytes 8 v))"
  by (simp add: Long2Hex_def long_hex_loop_Bytes2Hex word_bytes_def [symmetric] BigEndian_HostSwap64_def Swap64_bytes)

text \<open>Whether a word reversed twice in pairs, nibbles, bytes and halves has its bits reversed.\<close>

lemma Reverse32_bit: "n < 32 \<Longrightarrow> bit (Reverse32 v) n = bit v (31 - n)"
proof -
  assume "n < 32"
  then have "n \<in> set [0..<32]" by simp
  then show ?thesis
    unfolding Reverse32_def Let_def by (simp add: upt_rec, elim disjE; simp add: bit_simps mult.commute [of v 2] bit_double_iff)
qed

end
