(* ===== verification/WpanDbus.thy ===== *)
theory WpanDbus
  imports HexCodec
begin

text \<open>
  \<open>web/wpan-controller/dbus_*.cpp\<close>: the requests the web service sends to wpantund.

  libdbus and the daemon are not part of the repository.  The daemon is a function from the
  requests it has had and the one at hand to the values it replies, none when it does not reply
  in time.  A class's members are \<open>None\<close> until they are set: none of the classes has a
  constructor that sets the pointers of \<open>DBusBase\<close>.  \<open>be_dead\<close> tells whether memory that is no
  longer owned, a frame that has returned or a message that was freed, still holds what it held;
  \<open>be_stack\<close> is what a fresh frame holds.
\<close>

section \<open>Messages\<close>

datatype dbus_value =
  DString string | DByte byte | DInt16 u16 | DUint16 u16 | DInt32 u32 | DUint32 u32 | DUint64 u64 | DBool bool |
  DArray "dbus_value list" | DDict dbus_value dbus_value | DVariant dbus_value | DOther string

text \<open>What is appended to a request; an array of bytes is the pointer's bytes and the count passed.\<close>

datatype dbus_append =
  AString string | ABool bool | AInt16 u16 | AUint16 u16 | AUint32 u32 | AUint64 u64 | AByte byte | ABytes "byte list" int

record dbus_request =
  rq_dest :: string
  rq_path :: string
  rq_iface :: string
  rq_method :: string
  rq_args :: "dbus_append list"

type_synonym daemon = "dbus_request list \<Rightarrow> dbus_request \<Rightarrow> dbus_value list option"

record bus_env =
  be_connection :: bool
  be_message :: bool
  be_pending :: bool
  be_match :: bool
  be_daemon :: daemon
  be_beacons :: "dbus_request list \<Rightarrow> dbus_value list list"
  be_dead :: bool
  be_stack :: "byte list"
  be_pton :: "string \<Rightarrow> byte list option"

definition dead :: "bus_env \<Rightarrow> 'a \<Rightarrow> 'a res" where
  "dead env x = (if be_dead env then Ok x else Fault UseAfterFree)"

section \<open>Status codes\<close>

definition kWpantundStatus_Ok :: int where "kWpantundStatus_Ok = 0"
definition kWpantundStatus_Failure :: int where "kWpantundStatus_Failure = 1"
definition kWpantundStatus_InvalidArgument :: int where "kWpantundStatus_InvalidArgument = 2"
definition kWpantundStatus_NetworkNotFound :: int where "kWpantundStatus_NetworkNotFound = 3"
definition kWpantundStatus_LeaveFailed :: int where "kWpantundStatus_LeaveFailed = 4"
definition kWpantundStatus_ScanFailed :: int where "kWpantundStatus_ScanFailed = 5"
definition kWpantundStatus_SetFailed :: int where "kWpantundStatus_SetFailed = 6"
definition kWpantundStatus_JoinFailed :: int where "kWpantundStatus_JoinFailed = 7"
definition kWpantundStatus_SetGatewayFailed :: int where "kWpantundStatus_SetGatewayFailed = 8"
definition kWpantundStatus_FormFailed :: int where "kWpantundStatus_FormFailed = 9"
definition kWpantundStatus_InvalidConnection :: int where "kWpantundStatus_InvalidConnection = 10"
definition kWpantundStatus_InvalidMessage :: int where "kWpantundStatus_InvalidMessage = 11"
definition kWpantundStatus_InvalidReply :: int where "kWpantundStatus_InvalidReply = 12"

lemmas wpantund_status = kWpantundStatus_Ok_def kWpantundStatus_Failure_def kWpantundStatus_InvalidArgument_def
  kWpantundStatus_NetworkNotFound_def kWpantundStatus_LeaveFailed_def kWpantundStatus_ScanFailed_def
  kWpantundStatus_SetFailed_def kWpantundStatus_JoinFailed_def kWpantundStatus_SetGatewayFailed_def
  kWpantundStatus_FormFailed_def kWpantundStatus_InvalidConnection_def kWpantundStatus_InvalidMessage_def
  kWpantundStatus_InvalidReply_def

section \<open>The base of the requests\<close>

definition DBUS_NAME_SIZE :: nat where "DBUS_NAME_SIZE = 256"

text \<open>
  The strings are C strings in arrays: \<open>None\<close> as well when an array holds no terminator.  The
  pointers tell only whether they are null.
\<close>

record dbus_base =
  mDBusName :: "string option"
  mInterfaceName :: "string option"
  mConnection :: "bool option"
  mMessage :: "bool option"
  mReply :: "bool option"
  mMethod :: "string option"
  mDestination :: "string option"
  mPath :: "string option"
  mIface :: "string option"

definition new_DBusBase :: dbus_base where
  "new_DBusBase = \<lparr>mDBusName = None, mInterfaceName = None, mConnection = None, mMessage = None, mReply = None,
     mMethod = None, mDestination = None, mPath = None, mIface = None\<rparr>"

definition strncpy_to :: "nat \<Rightarrow> string \<Rightarrow> string option" where
  "strncpy_to cap s = (if length s < cap then Some s else None)"

definition SetDestination :: "string option \<Rightarrow> dbus_base \<Rightarrow> dbus_base" where
  "SetDestination aDestination b =
     b\<lparr>mDestination := (case aDestination of None \<Rightarrow> Some [] | Some s \<Rightarrow> strncpy_to DBUS_NAME_SIZE s)\<rparr>"

definition SetInterface :: "string \<Rightarrow> dbus_base \<Rightarrow> dbus_base" where
  "SetInterface aIface b = b\<lparr>mIface := strncpy_to DBUS_NAME_SIZE aIface\<rparr>"

definition SetMethod :: "string \<Rightarrow> dbus_base \<Rightarrow> dbus_base" where
  "SetMethod aMethod b = b\<lparr>mMethod := Some aMethod\<rparr>"

definition SetInterfaceName :: "string \<Rightarrow> dbus_base \<Rightarrow> dbus_base" where
  "SetInterfaceName aInterfaceName b = b\<lparr>mInterfaceName := strncpy_to DBUS_NAME_SIZE aInterfaceName\<rparr>"

definition SetDBusName :: "string option \<Rightarrow> dbus_base \<Rightarrow> dbus_base" where
  "SetDBusName aDBusName b =
     (case aDBusName of None \<Rightarrow> b | Some s \<Rightarrow> b\<lparr>mDBusName := strncpy_to DBUS_NAME_SIZE s\<rparr>)"

definition SetPath :: "string \<Rightarrow> dbus_base \<Rightarrow> dbus_base" where
  "SetPath aPath b = b\<lparr>mPath := strncpy_to DBUS_NAME_SIZE aPath\<rparr>"

definition GetConnection :: "bus_env \<Rightarrow> dbus_base \<Rightarrow> bool \<times> dbus_base" where
  "GetConnection env b = (be_connection env, b\<lparr>mConnection := Some (be_connection env)\<rparr>)"

text \<open>With an empty destination the member is returned as it is.\<close>

definition GetMessage :: "bus_env \<Rightarrow> dbus_base \<Rightarrow> (bool \<times> dbus_base) res" where
  "GetMessage env b =
     rbind (initialized (mDestination b)) (\<lambda>dest.
       if dest = [] then map_res (\<lambda>m. (m, b)) (initialized (mMessage b))
       else rbind (initialized (mPath b)) (\<lambda>_. rbind (initialized (mIface b)) (\<lambda>_. rbind (initialized (mMethod b)) (\<lambda>_.
         Ok (be_message env, b\<lparr>mMessage := Some (be_message env)\<rparr>)))))"

text \<open>The request as it goes out, and the reply.\<close>

definition request_of :: "dbus_append list \<Rightarrow> dbus_base \<Rightarrow> dbus_request" where
  "request_of args b = \<lparr>rq_dest = the (mDestination b), rq_path = the (mPath b), rq_iface = the (mIface b),
     rq_method = the (mMethod b), rq_args = args\<rparr>"

definition GetReply ::
  "bus_env \<Rightarrow> dbus_append list \<Rightarrow> dbus_base \<Rightarrow> dbus_request list \<Rightarrow> dbus_value list option \<times> dbus_base \<times> dbus_request list" where
  "GetReply env args b log =
     (let rq = request_of args b; reply = be_daemon env log rq in (reply, b\<lparr>mReply := Some (reply \<noteq> None)\<rparr>, log @ [rq]))"

definition base_free :: "dbus_base \<Rightarrow> unit res" where
  "base_free b = rbind (initialized (mConnection b)) (\<lambda>_. rbind (initialized (mMessage b)) (\<lambda>_.
     rbind (initialized (mReply b)) (\<lambda>_. Ok ())))"

section \<open>The requests\<close>

text \<open>\<open>dbus_message_get_args\<close> for one \<open>int32\<close>: a reply that holds none leaves \<open>ret\<close> at 0.\<close>

definition get_int32 :: "dbus_value list \<Rightarrow> int" where
  "get_int32 vs = (case vs of DInt32 v # _ \<Rightarrow> sint v | _ \<Rightarrow> 0)"

definition reply_code ::
  "bus_env \<Rightarrow> dbus_append list \<Rightarrow> int \<Rightarrow> dbus_base \<Rightarrow> dbus_request list \<Rightarrow> int \<times> dbus_base \<times> dbus_request list" where
  "reply_code env args no_reply b log =
     (let (reply, b1, log1) = GetReply env args b log in
      (case reply of None \<Rightarrow> no_reply | Some vs \<Rightarrow> get_int32 vs, b1, log1))"

text \<open>
  What every \<open>ProcessReply\<close> does around its own part: the connection, the method, the message,
  and the clean-up on every way out.
\<close>

definition with_message ::
  "bus_env \<Rightarrow> string \<Rightarrow> dbus_base \<Rightarrow> dbus_request list
     \<Rightarrow> (dbus_base \<Rightarrow> (int \<times> dbus_base \<times> dbus_request list) res) \<Rightarrow> (int \<times> dbus_request list) res" where
  "with_message env name b log body =
     (let (connected, b1) = GetConnection env b in
      rbind (if \<not> connected then Ok (kWpantundStatus_InvalidConnection, b1, log)
             else rbind (GetMessage env (SetMethod name b1)) (\<lambda>(built, b2).
               if \<not> built then Ok (kWpantundStatus_InvalidMessage, b2, log) else body b2))
        (\<lambda>(ret, b3, log1). map_res (\<lambda>_. (ret, log1)) (base_free b3)))"

definition leave_ProcessReply :: "bus_env \<Rightarrow> dbus_base \<Rightarrow> dbus_request list \<Rightarrow> (int \<times> dbus_request list) res" where
  "leave_ProcessReply env b log =
     with_message env ''Leave'' b log (\<lambda>b1. Ok (reply_code env [] kWpantundStatus_InvalidReply b1 log))"

definition form_ProcessReply ::
  "bus_env \<Rightarrow> string \<Rightarrow> u16 \<Rightarrow> u32 \<Rightarrow> dbus_base \<Rightarrow> dbus_request list \<Rightarrow> (int \<times> dbus_request list) res" where
  "form_ProcessReply env networkName nodeType channelMask b log =
     with_message env ''Form'' b log (\<lambda>b1.
       Ok (reply_code env [AString networkName, AInt16 nodeType, AUint32 channelMask] kWpantundStatus_InvalidReply b1 log))"

text \<open>The channel is an \<open>int16_t\<close> of which a byte is appended.  Without a reply \<open>ret\<close> is still 0.\<close>

definition join_ProcessReply ::
  "bus_env \<Rightarrow> string \<Rightarrow> u16 \<Rightarrow> u16 \<Rightarrow> u64 \<Rightarrow> u16 \<Rightarrow> dbus_base \<Rightarrow> dbus_request list \<Rightarrow> (int \<times> dbus_request list) res" where
  "join_ProcessReply env networkName nodeType channel extPanId panId b log =
     with_message env ''Join'' b log (\<lambda>b1.
       if nodeType = 0 \<or> channel = 0 \<or> extPanId = 0 \<or> panId = 0 then Ok (kWpantundStatus_InvalidArgument, b1, log)
       else Ok (reply_code env [AString networkName, AInt16 nodeType, AUint64 extPanId, AUint16 panId, AByte (ucast channel)]
                  0 b1 log))"

datatype property_type = kPropertyType_String | kPropertyType_Data

definition OT_SET_MAX_DATA_SIZE :: nat where "OT_SET_MAX_DATA_SIZE = 250"

definition set_ProcessReply ::
  "bus_env \<Rightarrow> property_type \<Rightarrow> string \<Rightarrow> string \<Rightarrow> dbus_base \<Rightarrow> dbus_request list \<Rightarrow> (int \<times> dbus_request list) res" where
  "set_ProcessReply env propertyType propertyName propertyValue b log =
     with_message env ''PropSet'' b log (\<lambda>b1.
       case propertyType of
         kPropertyType_String \<Rightarrow>
           Ok (reply_code env [AString propertyName, AString propertyValue] kWpantundStatus_InvalidReply b1 log)
       | kPropertyType_Data \<Rightarrow>
           let (len, written) = Hex2Bytes propertyValue [] (length propertyValue) in
           if length written > OT_SET_MAX_DATA_SIZE then Fault Overflow
           else Ok (reply_code env [AString propertyName, ABytes written len] kWpantundStatus_InvalidReply b1 log))"

text \<open>The prefix: an address with a colon, or the first 8 of the 16 bytes in hexadecimal.\<close>

definition prefix_bytes :: "bus_env \<Rightarrow> string \<Rightarrow> byte list option" where
  "prefix_bytes env prefix =
     (if contains prefix '':'' then be_pton env prefix
      else let (len, bytes) = Hex2Bytes prefix (take 16 (be_stack env)) 8 in if len > 0 then Some bytes else None)"

definition gateway_ProcessReply ::
  "bus_env \<Rightarrow> bool \<Rightarrow> string \<Rightarrow> u32 \<Rightarrow> u32 \<Rightarrow> dbus_base \<Rightarrow> dbus_request list \<Rightarrow> (int \<times> dbus_request list) res" where
  "gateway_ProcessReply env defaultRoute prefix preferred valid b log =
     with_message env ''ConfigGateway'' b log (\<lambda>b1.
       case prefix_bytes env prefix of
         None \<Rightarrow> Ok (kWpantundStatus_InvalidArgument, b1, log)
       | Some bytes \<Rightarrow> Ok (reply_code env [ABool defaultRoute, ABytes bytes 16, AUint32 preferred, AUint32 valid]
             kWpantundStatus_InvalidReply b1 log))"

text \<open>
  The name of an interface: the items of the reply are pairs of strings; the first for the
  interface is taken, and none leaves \<open>mDBusName\<close> as it was.
\<close>

definition DBUS_MAXIMUM_NAME_LENGTH :: nat where "DBUS_MAXIMUM_NAME_LENGTH = 255"

fun find_ifname :: "string \<Rightarrow> dbus_value list \<Rightarrow> string option res" where
  "find_ifname ifname (DArray (DString name # DString dbus_name # rest) # items) =
     (if name = ifname then Ok (Some dbus_name) else find_ifname ifname items)"
| "find_ifname ifname (DArray [DString name] # items) = find_ifname ifname items"
| "find_ifname ifname (DArray other # items) = Fault NullDeref"
| "find_ifname ifname items = Ok None"

definition ifname_ProcessReply ::
  "bus_env \<Rightarrow> dbus_base \<Rightarrow> dbus_request list \<Rightarrow> (int \<times> string option \<times> dbus_request list) res" where
  "ifname_ProcessReply env b log =
     (let (connected, b1) = GetConnection env b in
      rbind (if \<not> connected then Ok (kWpantundStatus_InvalidConnection, b1, log)
             else rbind (GetMessage env (SetInterface ''com.nestlabs.WPANTunnelDriver'' (SetMethod ''GetInterfaces''
                    (SetPath ''/com/nestlabs/WPANTunnelDriver'' (SetDestination (Some ''com.nestlabs.WPANTunnelDriver'') b1)))))
               (\<lambda>(built, b2).
                 if \<not> built then Ok (kWpantundStatus_InvalidMessage, b2, log)
                 else let (reply, b3, log1) = GetReply env [] b2 log in
                   case reply of
                     None \<Rightarrow> Ok (kWpantundStatus_InvalidReply, b3, log1)
                   | Some (DArray items # rest) \<Rightarrow>
                       rbind (initialized (mInterfaceName b3)) (\<lambda>ifname.
                       map_res (\<lambda>found. (0, (case found of None \<Rightarrow> b3
                           | Some s \<Rightarrow> b3\<lparr>mDBusName := strncpy_to DBUS_MAXIMUM_NAME_LENGTH s\<rparr>), log1))
                         (find_ifname ifname items))
                   | Some vs \<Rightarrow> Ok (0, b3, log1)))
        (\<lambda>(ret, b4, log2). map_res (\<lambda>_. (ret, mDBusName b4, log2)) (base_free b4)))"

section \<open>Reading a property\<close>

definition OT_PROPERTY_VALUE_SIZE :: nat where "OT_PROPERTY_VALUE_SIZE = 512"

definition strcat_value :: "string \<Rightarrow> string \<Rightarrow> string res" where
  "strcat_value s out = (if length out + length s + 1 \<le> OT_PROPERTY_VALUE_SIZE then Ok (out @ s) else Fault Overflow)"

text \<open>
  \<open>snprintf(temp, floor(log10(abs(v))) + 2, "%d", v)\<close>: the room given is that of the digits, so a
  sign costs the last digit.  The array \<open>temp\<close> may be smaller, and the logarithm of 0 is not
  an \<open>int\<close>.
\<close>

definition signed_string :: "int \<Rightarrow> string" where
  "signed_string v = (if v < 0 then CHR ''-'' # dec_string (nat (- v)) else dec_string (nat v))"

definition number_text :: "nat \<Rightarrow> nat \<Rightarrow> int \<Rightarrow> string res" where
  "number_text cap magnitude v =
     (if magnitude = 0 then Fault Overflow
      else let s = take (length (dec_string magnitude)) (signed_string v) in
        if length s + 1 \<le> cap then Ok s else Fault Overflow)"

fun upper_hex :: "nat \<Rightarrow> string" where
  "upper_hex n = (if n < 16 then [hex_char n] else upper_hex (n div 16) @ [hex_char (n mod 16)])"

declare upper_hex.simps [simp del]

definition value_text :: "dbus_value \<Rightarrow> string res" where
  "value_text v =
     (case v of
        DString s \<Rightarrow> Ok s
      | DByte b \<Rightarrow> Ok (byte_hex b)
      | DUint16 w \<Rightarrow> Ok (''0x'' @ pad_left CHR ''0'' 4 (upper_hex (unat w)))
      | DInt16 w \<Rightarrow> number_text 5 (nat (abs (sint w))) (sint w)
      | DUint32 w \<Rightarrow> number_text 10 (unat w) (sint w)
      | DBool b \<Rightarrow> Ok (if b then ''true'' else ''false'')
      | DInt32 w \<Rightarrow> number_text 10 (nat (abs (sint w))) (sint w)
      | DUint64 w \<Rightarrow> Ok (''0x'' @ pad_left CHR ''0'' 16 (upper_hex (unat w)))
      | DOther s \<Rightarrow> Ok (take 99 (''<'' @ s @ ''>''))
      | _ \<Rightarrow> Ok [])"

fun byte_array :: "dbus_value list \<Rightarrow> bool" where
  "byte_array [] = True"
| "byte_array (DByte b # vs) = True"
| "byte_array vs = False"

fun DumpInfoFromIter :: "dbus_value \<Rightarrow> nat \<Rightarrow> string \<Rightarrow> string res"
  and dump_items :: "dbus_value list \<Rightarrow> nat \<Rightarrow> string \<Rightarrow> string res" where
  "DumpInfoFromIter (DDict k v) indent out =
     rbind (DumpInfoFromIter k (indent + 1) out) (DumpInfoFromIter v (indent + 1))"
| "DumpInfoFromIter (DArray vs) indent out =
     (let indent1 = (if byte_array vs then 0 else indent) in
      rbind (strcat_value ''['' out) (\<lambda>out1.
      rbind (dump_items vs (indent1 + 1) out1)
        (strcat_value (replicate indent1 (CHR 0x09) @ '']''))))"
| "DumpInfoFromIter (DVariant v) indent out = DumpInfoFromIter v indent out"
| "DumpInfoFromIter v indent out = rbind (value_text v) (\<lambda>s. strcat_value s out)"
| "dump_items [] indent out = Ok out"
| "dump_items (v # vs) indent out = rbind (DumpInfoFromIter v indent out) (dump_items vs indent)"

text \<open>
  \<open>ProcessReply\<close> reads the status and moves \<open>mIter\<close> to what follows, \<open>None\<close> as long as there was no
  reply; \<open>free\<close> then releases the reply \<open>mIter\<close> still points into.
\<close>

definition status_of :: "dbus_value list \<Rightarrow> int res" where
  "status_of vs = (case vs of DInt32 v # _ \<Rightarrow> Ok (sint v) | DUint32 v # _ \<Rightarrow> Ok (sint v) | _ \<Rightarrow> Fault OutOfBounds)"

definition get_ProcessReply ::
  "bus_env \<Rightarrow> string \<Rightarrow> dbus_base \<Rightarrow> dbus_request list \<Rightarrow> (int \<times> dbus_value list option \<times> dbus_request list) res" where
  "get_ProcessReply env propertyName b log =
     (let (connected, b1) = GetConnection env b in
      rbind (if \<not> connected then Ok (kWpantundStatus_InvalidConnection, None, b1, log)
             else rbind (GetMessage env (SetMethod ''PropGet'' b1)) (\<lambda>(built, b2).
               if \<not> built then Ok (kWpantundStatus_InvalidMessage, None, b2, log)
               else let (reply, b3, log1) = GetReply env [AString propertyName] b2 log in
                 case reply of
                   None \<Rightarrow> Ok (kWpantundStatus_InvalidReply, None, b3, log1)
                 | Some vs \<Rightarrow> map_res (\<lambda>ret. (ret, Some (tl vs), b3, log1)) (status_of vs)))
        (\<lambda>(ret, iter, b4, log2). map_res (\<lambda>_. (ret, iter, log2)) (base_free b4)))"

definition GetPropertyValue ::
  "bus_env \<Rightarrow> string \<Rightarrow> dbus_base \<Rightarrow> dbus_request list \<Rightarrow> (string \<times> dbus_request list) res" where
  "GetPropertyValue env aPropertyName b log =
     rbind (get_ProcessReply env aPropertyName b log) (\<lambda>(ret, iter, log1).
       if ret \<noteq> kWpantundStatus_Ok then Ok ([], log1)
       else rbind (initialized iter) (\<lambda>it. rbind (dead env it) (\<lambda>vs.
         case vs of
           [] \<Rightarrow> map_res (\<lambda>s. (s, log1)) (strcat_value (take 99 ''<invalid>'') [])
         | v # _ \<Rightarrow> map_res (\<lambda>s. (s, log1)) (DumpInfoFromIter v 0 []))))"

text \<open>
  The list of all properties.  \<open>free\<close> leaves its pointers dangling, so on every further call of the
  same object they are as good as never set.
\<close>

definition OT_LIST_MAX_LENGTH :: nat where "OT_LIST_MAX_LENGTH = 100"
definition OT_PROPERTY_NAME_SIZE :: nat where "OT_PROPERTY_NAME_SIZE = 512"

text \<open>\<open>dbus_message_iter_recurse\<close>: what is in the value \<open>mIter\<close> points to, which has to be a container.\<close>

fun container_items :: "dbus_value list \<Rightarrow> dbus_value list res" where
  "container_items (DArray vs # _) = Ok vs"
| "container_items (DVariant v # _) = Ok [v]"
| "container_items (DDict k v # _) = Ok [k, v]"
| "container_items _ = Fault OutOfBounds"

text \<open>The loop writes entry \<open>n\<close> of an array of 100 without a check.\<close>

fun property_names :: "nat \<Rightarrow> dbus_value list \<Rightarrow> string option list res" where
  "property_names n (DString pName # vs) =
     (if n < OT_LIST_MAX_LENGTH
      then map_res (Cons (strncpy_to OT_PROPERTY_NAME_SIZE pName)) (property_names (Suc n) vs)
      else Fault OutOfBounds)"
| "property_names n _ = Ok []"

definition GetAllPropertyNames ::
  "bus_env \<Rightarrow> dbus_base \<Rightarrow> dbus_request list \<Rightarrow> (string option list \<times> dbus_request list) res" where
  "GetAllPropertyNames env b log =
     rbind (get_ProcessReply env [] b log) (\<lambda>(ret, iter, log1).
     rbind (initialized iter) (\<lambda>it. rbind (dead env it) (\<lambda>vs. rbind (container_items vs) (\<lambda>items.
     map_res (\<lambda>names. (names, log1)) (property_names 0 items)))))"

fun GetAllPropertyValues ::
  "bus_env \<Rightarrow> dbus_base \<Rightarrow> string option list \<Rightarrow> dbus_request list \<Rightarrow> ((string \<times> string option) list \<times> dbus_request list) res"
where
  "GetAllPropertyValues env b [] log = Ok ([], log)"
| "GetAllPropertyValues env b (name # names) log =
     rbind (initialized name) (\<lambda>s.
     rbind (GetPropertyValue env s b log) (\<lambda>(value, log1).
     map_res (\<lambda>(rest, log2). ((s, strncpy_to OT_PROPERTY_VALUE_SIZE value) # rest, log2))
       (GetAllPropertyValues env b names log1)))"

definition GetPropertyList ::
  "bus_env \<Rightarrow> dbus_base \<Rightarrow> dbus_request list \<Rightarrow> ((string \<times> string option) list \<times> dbus_request list) res" where
  "GetPropertyList env b log =
     rbind (GetAllPropertyNames env b log) (\<lambda>(names, log1). GetAllPropertyValues env b names log1)"

section \<open>Scanning\<close>

definition OT_SCANNED_NET_BUFFER_SIZE :: nat where "OT_SCANNED_NET_BUFFER_SIZE = 250"
definition OT_NETWORK_NAME_MAX_SIZE :: nat where "OT_NETWORK_NAME_MAX_SIZE = 17"

definition kWPANTUNDProperty_NetworkName :: string where "kWPANTUNDProperty_NetworkName = ''Network:Name''"
definition kWPANTUNDProperty_NCPChannel :: string where "kWPANTUNDProperty_NCPChannel = ''NCP:Channel''"
definition kWPANTUNDProperty_NetworkPANID :: string where "kWPANTUNDProperty_NetworkPANID = ''Network:PANID''"
definition kWPANTUNDProperty_NestLabs_NetworkAllowingJoin :: string where
  "kWPANTUNDProperty_NestLabs_NetworkAllowingJoin = ''com.nestlabs.internal:Network:AllowingJoin''"
definition kWPANTUNDProperty_NetworkXPANID :: string where "kWPANTUNDProperty_NetworkXPANID = ''Network:XPANID''"
definition kWPANTUNDProperty_NCPHardwareAddress :: string where
  "kWPANTUNDProperty_NCPHardwareAddress = ''NCP:HardwareAddress''"

lemmas scan_keys = kWPANTUNDProperty_NetworkName_def kWPANTUNDProperty_NCPChannel_def kWPANTUNDProperty_NetworkPANID_def
  kWPANTUNDProperty_NestLabs_NetworkAllowingJoin_def kWPANTUNDProperty_NetworkXPANID_def kWPANTUNDProperty_NCPHardwareAddress_def

record network_info =
  ni_name :: string
  ni_allowing_join :: bool
  ni_panid :: u16
  ni_channel :: u16
  ni_xpanid :: u64
  ni_rssi :: byte
  ni_hwaddr :: "byte list"

definition zero_info :: network_info where
  "zero_info = \<lparr>ni_name = [], ni_allowing_join = False, ni_panid = 0, ni_channel = 0, ni_xpanid = 0, ni_rssi = 0,
     ni_hwaddr = replicate 8 0\<rparr>"

text \<open>
  \<open>dbus_message_iter_get_basic\<close> into a member: a value no wider than the member fits, one of
  another kind writes past it.
\<close>

definition basic_u16 :: "dbus_value \<Rightarrow> u16 res" where
  "basic_u16 v = (case v of DUint16 w \<Rightarrow> Ok w | DInt16 w \<Rightarrow> Ok w | DByte b \<Rightarrow> Ok (ucast b) | _ \<Rightarrow> Fault Overflow)"

definition basic_bool :: "dbus_value \<Rightarrow> bool res" where
  "basic_bool v = (case v of DBool b \<Rightarrow> Ok b | DUint32 w \<Rightarrow> Ok (w \<noteq> 0) | DInt32 w \<Rightarrow> Ok (w \<noteq> 0) | _ \<Rightarrow> Fault Overflow)"

definition basic_byte :: "dbus_value \<Rightarrow> byte res" where
  "basic_byte v = (case v of DByte b \<Rightarrow> Ok b | _ \<Rightarrow> Fault Overflow)"

definition basic_u64 :: "dbus_value \<Rightarrow> u64 res" where
  "basic_u64 v = (case v of DUint64 w \<Rightarrow> Ok w | _ \<Rightarrow> Fault Overflow)"

definition basic_string :: "dbus_value \<Rightarrow> string res" where
  "basic_string v = (case v of DString s \<Rightarrow> Ok s | _ \<Rightarrow> Fault NullDeref)"

fun fixed_bytes :: "dbus_value list \<Rightarrow> byte list" where
  "fixed_bytes (DByte b # vs) = b # fixed_bytes vs"
| "fixed_bytes _ = []"

text \<open>One entry of a beacon; an array without bytes is passed over.\<close>

definition set_hwaddr :: "dbus_value \<Rightarrow> network_info \<Rightarrow> network_info res" where
  "set_hwaddr v ni =
     (case v of
        DArray vs \<Rightarrow> Ok (if length (fixed_bytes vs) = 8 then ni\<lparr>ni_hwaddr := fixed_bytes vs\<rparr> else ni)
      | _ \<Rightarrow> Fault NullDeref)"

definition set_info :: "string \<Rightarrow> dbus_value \<Rightarrow> network_info \<Rightarrow> network_info res" where
  "set_info key v ni =
     (if key = kWPANTUNDProperty_NetworkName
      then map_res (\<lambda>s. ni\<lparr>ni_name := take (OT_NETWORK_NAME_MAX_SIZE - 1) s\<rparr>) (basic_string v)
      else if key = kWPANTUNDProperty_NCPChannel then map_res (\<lambda>w. ni\<lparr>ni_channel := w\<rparr>) (basic_u16 v)
      else if key = kWPANTUNDProperty_NetworkPANID then map_res (\<lambda>w. ni\<lparr>ni_panid := w\<rparr>) (basic_u16 v)
      else if key = kWPANTUNDProperty_NestLabs_NetworkAllowingJoin
      then map_res (\<lambda>w. ni\<lparr>ni_allowing_join := w\<rparr>) (basic_bool v)
      else if key = ''RSSI'' then map_res (\<lambda>w. ni\<lparr>ni_rssi := w\<rparr>) (basic_byte v)
      else if key = kWPANTUNDProperty_NetworkXPANID then map_res (\<lambda>w. ni\<lparr>ni_xpanid := w\<rparr>) (basic_u64 v)
      else if key = kWPANTUNDProperty_NCPHardwareAddress then set_hwaddr v ni
      else Ok ni)"

fun parse_entries :: "dbus_value list \<Rightarrow> network_info \<Rightarrow> network_info res" where
  "parse_entries (DDict (DString key) (DVariant v) # entries) ni = rbind (set_info key v ni) (parse_entries entries)"
| "parse_entries _ ni = Ok ni"

definition ParseNetworkInfoFromIter :: "dbus_value list \<Rightarrow> network_info res" where
  "ParseNetworkInfoFromIter vs = (case vs of DArray entries # _ \<Rightarrow> parse_entries entries zero_info | _ \<Rightarrow> parse_entries vs zero_info)"

definition DbusBeaconHandler :: "dbus_value list \<Rightarrow> network_info list \<Rightarrow> network_info list res" where
  "DbusBeaconHandler vs networks =
     map_res (\<lambda>ni. if ni_name ni \<noteq> [] \<and> length networks < OT_SCANNED_NET_BUFFER_SIZE then networks @ [ni] else networks)
       (ParseNetworkInfoFromIter vs)"

text \<open>
  The scan: the beacons that arrive until the call has completed, then its status.  A call that
  is not answered completes with an error message, whose argument is a text.
\<close>

definition scan_ProcessReply ::
  "bus_env \<Rightarrow> u32 \<Rightarrow> dbus_base \<Rightarrow> dbus_request list \<Rightarrow> (int \<times> network_info list \<times> dbus_request list) res" where
  "scan_ProcessReply env channelMask b log =
     (let (connected, b1) = GetConnection env b in
      if \<not> connected then Ok (kWpantundStatus_InvalidConnection, [], log)
      else if \<not> be_match env then Ok (kWpantundStatus_Failure, [], log)
      else rbind (GetMessage env (SetMethod ''NetScanStart'' b1)) (\<lambda>(built, b2).
        if \<not> built then Ok (kWpantundStatus_InvalidMessage, [], log)
        else if \<not> be_pending env then Ok (kWpantundStatus_Failure, [], log)
        else
          let rq = request_of [AUint32 channelMask] b2; reply = be_daemon env log rq in
          map_res (\<lambda>networks. (case reply of None \<Rightarrow> 0 | Some vs \<Rightarrow> get_int32 vs, networks, log @ [rq]))
            (fold_res DbusBeaconHandler (be_beacons env log) [])))"

section \<open>Lemmas\<close>

text \<open>A request fails before its reply only by reading the pointer to a reply it never had.\<close>

lemma with_message_ready:
  assumes "be_connection env" "be_message env" "mDestination b = Some dest" "dest \<noteq> []" "mPath b = Some path" "mIface b = Some iface"
    and "body (b\<lparr>mConnection := Some True, mMethod := Some name, mMessage := Some True\<rparr>) = Ok (ret, b1, log1)"
    and "mConnection b1 = Some c" "mMessage b1 = Some m" "mReply b1 = Some r"
  shows "with_message env name b log body = Ok (ret, log1)"
  using assms by (simp add: with_message_def GetConnection_def GetMessage_def SetMethod_def base_free_def initialized_def Let_def)

lemma with_message_unsent:
  assumes "mMessage b = None" "mReply b = None" "\<not> (be_connection env \<and> be_message env)" "mDestination b = Some dest"
    "mPath b = Some path" "mIface b = Some iface"
  shows "with_message env name b log body = Fault Uninitialized"
  using assms
  by (cases "be_connection env"; cases "dest = []")
    (simp_all add: with_message_def GetConnection_def GetMessage_def SetMethod_def base_free_def initialized_def Let_def)

lemma with_message_no_destination:
  assumes "mMessage b = None" "mDestination b = Some []"
  shows "with_message env name b log body = Fault Uninitialized"
  using assms by (simp add: with_message_def GetConnection_def GetMessage_def SetMethod_def base_free_def initialized_def Let_def)

lemma with_message_body_exit:
  assumes "mReply b = None" "mDestination b = Some dest" "dest \<noteq> []" "mPath b = Some path" "mIface b = Some iface"
    and "be_connection env" "be_message env" "\<And>b'. body b' = Ok (ret, b', log)"
  shows "with_message env name b log body = Fault Uninitialized"
  using assms
  by (simp add: with_message_def GetConnection_def GetMessage_def SetMethod_def base_free_def initialized_def Let_def)

lemma reply_code_eq:
  "reply_code env args no_reply b log =
    (case be_daemon env log (request_of args b) of None \<Rightarrow> no_reply | Some vs \<Rightarrow> get_int32 vs,
     b\<lparr>mReply := Some (be_daemon env log (request_of args b) \<noteq> None)\<rparr>, log @ [request_of args b])"
  by (simp add: reply_code_def GetReply_def Let_def)

text \<open>
  A list of at most 100 names that fit is read as it is; the 101st name is written past the array.
\<close>

lemma property_names_strings:
  assumes "list_all (\<lambda>s. length s < OT_PROPERTY_NAME_SIZE) names"
  shows "n \<le> OT_LIST_MAX_LENGTH \<Longrightarrow> property_names n (map DString names)
    = (if n + length names \<le> OT_LIST_MAX_LENGTH then Ok (map Some names) else Fault OutOfBounds)"
  using assms by (induction names arbitrary: n) (auto simp: strncpy_to_def)

lemma property_list_full:
  assumes "list_all (\<lambda>s. length s < OT_PROPERTY_NAME_SIZE) names" and "OT_LIST_MAX_LENGTH < length names"
    and "be_connection env" "be_message env" "be_dead env" "mDestination b = Some dest" "dest \<noteq> []" "mPath b = Some path" "mIface b = Some iface"
    and "\<And>rq. be_daemon env log rq = Some [DInt32 0, DArray (map DString names)]"
  shows "GetPropertyList env b log = Fault OutOfBounds"
  using assms property_names_strings [OF assms(1), of 0]
  by (simp add: GetPropertyList_def GetAllPropertyNames_def get_ProcessReply_def GetConnection_def GetMessage_def GetReply_def SetMethod_def
      base_free_def initialized_def status_of_def dead_def Let_def)

end
