(* ===== verification/WebService.thy ===== *)
theory WebService
  imports WpanDbus PskcGen Encoding
begin

text \<open>
  \<open>web/wpan-controller/wpan_controller.cpp\<close>, \<open>web/web-service/wpan_service.cpp\<close> and
  \<open>web/web-service/web_server.cpp\<close>: the web service that forms and joins networks.

  The HTTP server (Boost) and jsoncpp are not part of the repository: a \<open>jsoncpp\<close> record holds what
  the code asks of a JSON value, \<open>None\<close> where jsoncpp throws.  A response is the JSON value built,
  before it is written.  What is written to the log is left out; the static files are in
  \<open>StaticFiles\<close>.
\<close>

section \<open>The controller\<close>

definition IFNAMSIZ :: nat where "IFNAMSIZ = 16"
definition OT_ROUTER_ROLE :: u16 where "OT_ROUTER_ROLE = 2"
definition WPANTUND_DBUS_PATH :: string where "WPANTUND_DBUS_PATH = ''/org/wpantund''"
definition WPANTUND_DBUS_APIv1_INTERFACE :: string where "WPANTUND_DBUS_APIv1_INTERFACE = ''org.wpantund.v1''"
definition WPAN_TUNNEL_DBUS_PATH :: string where "WPAN_TUNNEL_DBUS_PATH = ''/com/nestlabs/WPANTunnelDriver''"
definition WPAN_TUNNEL_DBUS_INTERFACE :: string where "WPAN_TUNNEL_DBUS_INTERFACE = ''com.nestlabs.WPANTunnelDriver''"

text \<open>\<open>mIfName\<close> is what \<open>strncpy\<close> put into the array: a name that fills it has no terminator.\<close>

record wpan_controller =
  mIfName :: string
  mScannedNetworks :: "network_info list"

definition new_WPANController :: "string \<Rightarrow> wpan_controller" where
  "new_WPANController ifname = \<lparr>mIfName = take IFNAMSIZ ifname, mScannedNetworks = []\<rparr>"

definition if_name :: "wpan_controller \<Rightarrow> string res" where
  "if_name c = (if length (mIfName c) < IFNAMSIZ then Ok (mIfName c) else Fault OutOfBounds)"

text \<open>The result is a null pointer, or one into the frame of the function.\<close>

definition GetDBusInterfaceName ::
  "bus_env \<Rightarrow> wpan_controller \<Rightarrow> dbus_request list \<Rightarrow> (string option option \<times> dbus_request list) res" where
  "GetDBusInterfaceName env c log =
     rbind (if_name c) (\<lambda>ifname.
       map_res (\<lambda>(ret, name, log1). (if ret \<noteq> kWpantundStatus_Ok then None else Some name, log1))
         (ifname_ProcessReply env (SetInterfaceName ifname new_DBusBase) log))"

definition dbus_path :: "string \<Rightarrow> string \<Rightarrow> string" where
  "dbus_path prefix ifname = take DBUS_MAXIMUM_NAME_LENGTH (prefix @ ''/'' @ ifname)"

text \<open>The members every request sets: the interface, the path, and the destination it looks up.\<close>

definition request_base ::
  "bus_env \<Rightarrow> string \<Rightarrow> string \<Rightarrow> wpan_controller \<Rightarrow> dbus_request list \<Rightarrow> (dbus_base \<times> dbus_request list) res" where
  "request_base env path iface c log =
     rbind (if_name c) (\<lambda>ifname.
     rbind (GetDBusInterfaceName env c log) (\<lambda>(ptr, log1).
     let b = SetInterface iface (SetPath (dbus_path path ifname) (SetInterfaceName ifname new_DBusBase)) in
     case ptr of
       None \<Rightarrow> Ok (SetDestination None b, log1)
     | Some array \<Rightarrow> rbind (dead env array) (\<lambda>name. rbind (initialized name) (\<lambda>s. Ok (SetDestination (Some s) b, log1)))))"

definition wc_Scan :: "bus_env \<Rightarrow> wpan_controller \<Rightarrow> dbus_request list \<Rightarrow> (int \<times> wpan_controller \<times> dbus_request list) res" where
  "wc_Scan env c log =
     rbind (request_base env WPANTUND_DBUS_PATH WPANTUND_DBUS_APIv1_INTERFACE c log) (\<lambda>(b, log1).
     rbind (scan_ProcessReply env 0 b log1) (\<lambda>(ret, networks, log2).
       if ret \<noteq> 0 then Ok (ret, c, log2)
       else if networks = [] then Ok (kWpantundStatus_NetworkNotFound, c, log2)
       else Ok (ret, c\<lparr>mScannedNetworks := networks\<rparr>, log2)))"

definition wc_Leave :: "bus_env \<Rightarrow> wpan_controller \<Rightarrow> dbus_request list \<Rightarrow> (int \<times> dbus_request list) res" where
  "wc_Leave env c log =
     rbind (request_base env WPANTUND_DBUS_PATH WPANTUND_DBUS_APIv1_INTERFACE c log) (\<lambda>(b, log1). leave_ProcessReply env b log1)"

definition channel_ok :: "u16 \<Rightarrow> bool" where
  "channel_ok aChannel \<longleftrightarrow> aChannel \<le> 26 \<and> aChannel \<ge> 11"

definition wc_Form :: "bus_env \<Rightarrow> string \<Rightarrow> u16 \<Rightarrow> wpan_controller \<Rightarrow> dbus_request list \<Rightarrow> (int \<times> dbus_request list) res" where
  "wc_Form env aNetworkName aChannel c log =
     (if \<not> channel_ok aChannel then Ok (kWpantundStatus_InvalidArgument, log)
      else rbind (request_base env WPAN_TUNNEL_DBUS_PATH WPAN_TUNNEL_DBUS_INTERFACE c log) (\<lambda>(b, log1).
        form_ProcessReply env aNetworkName OT_ROUTER_ROLE (push_bit (unat aChannel) 1) b log1))"

definition wc_Join ::
  "bus_env \<Rightarrow> string \<Rightarrow> u16 \<Rightarrow> u64 \<Rightarrow> u16 \<Rightarrow> wpan_controller \<Rightarrow> dbus_request list \<Rightarrow> (int \<times> dbus_request list) res" where
  "wc_Join env aNetworkName aChannel aExtPanId aPanId c log =
     (if \<not> channel_ok aChannel \<or> aExtPanId = 0 \<or> aPanId = 0xffff then Ok (kWpantundStatus_InvalidArgument, log)
      else rbind (request_base env WPAN_TUNNEL_DBUS_PATH WPAN_TUNNEL_DBUS_INTERFACE c log) (\<lambda>(b, log1).
        join_ProcessReply env aNetworkName OT_ROUTER_ROLE aChannel aExtPanId aPanId b log1))"

text \<open>The text is in a member of the local object, read by the caller.\<close>

definition wc_Get :: "bus_env \<Rightarrow> string \<Rightarrow> wpan_controller \<Rightarrow> dbus_request list \<Rightarrow> (string \<times> dbus_request list) res" where
  "wc_Get env aPropertyName c log =
     rbind (request_base env WPANTUND_DBUS_PATH WPANTUND_DBUS_APIv1_INTERFACE c log) (\<lambda>(b, log1).
     rbind (GetPropertyValue env aPropertyName b log1) (\<lambda>(value, log2). map_res (\<lambda>s. (s, log2)) (dead env value)))"

definition wc_Set ::
  "bus_env \<Rightarrow> property_type \<Rightarrow> string \<Rightarrow> string \<Rightarrow> wpan_controller \<Rightarrow> dbus_request list \<Rightarrow> (int \<times> dbus_request list) res" where
  "wc_Set env aType aPropertyName aPropertyValue c log =
     rbind (request_base env WPANTUND_DBUS_PATH WPANTUND_DBUS_APIv1_INTERFACE c log) (\<lambda>(b, log1).
       set_ProcessReply env aType aPropertyName aPropertyValue b log1)"

definition wc_AddGateway :: "bus_env \<Rightarrow> string \<Rightarrow> bool \<Rightarrow> wpan_controller \<Rightarrow> dbus_request list \<Rightarrow> (int \<times> dbus_request list) res" where
  "wc_AddGateway env aPrefix aIsDefaultRoute c log =
     rbind (request_base env WPANTUND_DBUS_PATH WPANTUND_DBUS_APIv1_INTERFACE c log) (\<lambda>(b, log1).
       gateway_ProcessReply env aIsDefaultRoute aPrefix 0xffffffff 0xffffffff b log1)"

definition wc_RemoveGateway :: "bus_env \<Rightarrow> string \<Rightarrow> wpan_controller \<Rightarrow> dbus_request list \<Rightarrow> (int \<times> dbus_request list) res" where
  "wc_RemoveGateway env aPrefix c log =
     rbind (request_base env WPANTUND_DBUS_PATH WPANTUND_DBUS_APIv1_INTERFACE c log) (\<lambda>(b, log1).
       gateway_ProcessReply env True aPrefix 0 0 b log1)"

section \<open>JSON\<close>

record 'j jsoncpp =
  js_parse :: "string \<Rightarrow> 'j option"
  js_member :: "'j \<Rightarrow> string \<Rightarrow> 'j option"
  js_asString :: "'j \<Rightarrow> string option"
  js_asUInt :: "'j \<Rightarrow> u32 option"
  js_asBool :: "'j \<Rightarrow> bool option"

text \<open>What jsoncpp documents: a string is its text, a bool itself, an unsigned number itself.\<close>

definition js_field :: "'j jsoncpp \<Rightarrow> ('j \<Rightarrow> 'a option) \<Rightarrow> 'j \<Rightarrow> string \<Rightarrow> 'a option" where
  "js_field js conv root key = Option.bind (js_member js root key) conv"

datatype web_json = WStr string | WInt int | WObj "(string \<times> web_json) list" | WArr "web_json list"

text \<open>How a handler ends: with a response, or by an exception of jsoncpp or of \<open>std::string\<close>.\<close>

datatype web_outcome = Response web_json | Threw

section \<open>The service\<close>

definition OT_EXTENDED_PANID_LENGTH :: nat where "OT_EXTENDED_PANID_LENGTH = 8"
definition OT_HEX_PREFIX_LENGTH :: nat where "OT_HEX_PREFIX_LENGTH = 2"
definition OT_PSKC_MAX_LENGTH :: nat where "OT_PSKC_MAX_LENGTH = 16"
definition kNetworksSize :: nat where "kNetworksSize = 255"

definition kWpanStatus_OK :: int where "kWpanStatus_OK = 0"
definition kWpanStatus_Associating :: int where "kWpanStatus_Associating = 1"
definition kWpanStatus_Down :: int where "kWpanStatus_Down = 2"
definition kWpanStatus_Offline :: int where "kWpanStatus_Offline = 3"
definition kWpanStatus_Uninitialized :: int where "kWpanStatus_Uninitialized = 4"
definition kWpanStatus_ParseRequestFailed :: int where "kWpanStatus_ParseRequestFailed = 5"
definition kWpanStatus_GetPropertyFailed :: int where "kWpanStatus_GetPropertyFailed = 6"

lemmas wpan_status = kWpanStatus_OK_def kWpanStatus_Associating_def kWpanStatus_Down_def kWpanStatus_Offline_def
  kWpanStatus_Uninitialized_def kWpanStatus_ParseRequestFailed_def kWpanStatus_GetPropertyFailed_def

text \<open>\<open>mNetworks\<close> is the part of the array that scans have filled; the rest was never written.\<close>

record wpan_service =
  ws_ifname :: string
  ws_networks :: "network_info list"

definition ws_SetInterfaceName :: "string \<Rightarrow> wpan_service \<Rightarrow> wpan_service" where
  "ws_SetInterfaceName aIfName s = s\<lparr>ws_ifname := take IFNAMSIZ aIfName\<rparr>"

text \<open>\<open>wpanController.SetInterfaceName(mIfName)\<close> copies at most the size of the array.\<close>

definition ws_controller :: "wpan_service \<Rightarrow> wpan_controller" where
  "ws_controller s = new_WPANController (ws_ifname s)"

text \<open>\<open>index\<close> is an \<open>int\<close> set from an unsigned number.\<close>

definition ws_network :: "wpan_service \<Rightarrow> u32 \<Rightarrow> network_info res" where
  "ws_network s index =
     (let i = sint index in
      if i < 0 \<or> i \<ge> int kNetworksSize then Fault OutOfBounds
      else if nat i < length (ws_networks s) then Ok (ws_networks s ! nat i) else Fault Uninitialized)"

text \<open>\<open>ret\<close> and the strings of a response.\<close>

definition result_response :: "int \<Rightarrow> web_json" where
  "result_response ret = WObj [(''result'', WStr (if ret \<noteq> kWpantundStatus_Ok then ''failed'' else ''successful'')), (''error'', WInt ret)]"

definition fail_response :: "int \<Rightarrow> web_json" where
  "fail_response ret = WObj [(''result'', WStr ''failed''), (''error'', WInt ret)]"

text \<open>A chain of calls, each left with its own code when the call does not succeed.\<close>

type_synonym dbus_call = "dbus_request list \<Rightarrow> (int \<times> dbus_request list) res"

fun run_calls :: "(dbus_call \<times> int) list \<Rightarrow> dbus_call" where
  "run_calls [] log = Ok (kWpantundStatus_Ok, log)"
| "run_calls ((call, failed) # calls) log =
     rbind (call log) (\<lambda>(ret, log1). if ret \<noteq> kWpantundStatus_Ok then Ok (failed, log1) else run_calls calls log1)"

definition join_calls ::
  "bus_env \<Rightarrow> wpan_service \<Rightarrow> u32 \<Rightarrow> string \<Rightarrow> string \<Rightarrow> bool \<Rightarrow> (dbus_call \<times> int) list" where
  "join_calls env s index networkKey prefix defaultRoute =
     (let c = ws_controller s in
      [(wc_Leave env c, kWpantundStatus_LeaveFailed),
       (wc_Set env kPropertyType_Data ''Network:Key'' (c_str networkKey) c, kWpantundStatus_SetFailed),
       (\<lambda>log. rbind (ws_network s index) (\<lambda>ni. wc_Join env (ni_name ni) (ni_channel ni) (ni_xpanid ni) (ni_panid ni) c log),
          kWpantundStatus_JoinFailed),
       (wc_AddGateway env (c_str prefix) defaultRoute c, kWpantundStatus_SetGatewayFailed)])"

definition HandleJoinNetworkRequest ::
  "'j jsoncpp \<Rightarrow> bus_env \<Rightarrow> string \<Rightarrow> wpan_service \<Rightarrow> dbus_request list \<Rightarrow> (web_outcome \<times> dbus_request list) res" where
  "HandleJoinNetworkRequest js env aJoinRequest s log =
     (case js_parse js (c_str aJoinRequest) of
        None \<Rightarrow> Ok (Response (result_response kWpanStatus_ParseRequestFailed), log)
      | Some root \<Rightarrow>
          (case (js_field js (js_asUInt js) root ''index'', js_field js (js_asString js) root ''networkKey'',
                 js_field js (js_asString js) root ''prefix'', js_field js (js_asBool js) root ''defaultRoute'') of
             (Some index, Some networkKey, Some prefix, Some defaultRoute) \<Rightarrow>
               map_res (\<lambda>(ret, log1). (Response (result_response ret), log1))
                 (run_calls (join_calls env s index networkKey prefix defaultRoute) log)
           | _ \<Rightarrow> Ok (Threw, log)))"

text \<open>The key of a new network; \<open>extPanIdBytes\<close> keeps what the frame held where nothing is decoded.\<close>

definition form_pskc ::
  "(byte list \<Rightarrow> byte list \<Rightarrow> byte list) \<Rightarrow> bus_env \<Rightarrow> string \<Rightarrow> string \<Rightarrow> string \<Rightarrow> string res" where
  "form_pskc prf env extPanId networkName passphrase =
     (let xpan = snd (Hex2Bytes extPanId (take OT_EXTENDED_PANID_LENGTH (be_stack env)) OT_EXTENDED_PANID_LENGTH) in
      map_res (\<lambda>k. Bytes2Hex (take OT_PSKC_MAX_LENGTH k)) (ComputePskc prf xpan networkName passphrase fresh_Pskc))"

definition kWPANTUNDProperty_NetworkKey :: string where "kWPANTUNDProperty_NetworkKey = ''Network:Key''"
definition kWPANTUNDProperty_NetworkPSKc :: string where "kWPANTUNDProperty_NetworkPSKc = ''Network:PSKc''"

record form_request =
  fr_networkKey :: string
  fr_prefix :: string
  fr_channel :: u32
  fr_networkName :: string
  fr_passphrase :: string
  fr_panId :: string
  fr_extPanId :: string
  fr_defaultRoute :: bool

definition form_fields :: "'j jsoncpp \<Rightarrow> 'j \<Rightarrow> form_request option" where
  "form_fields js root =
     (let str = js_field js (js_asString js) root in
      case (str ''networkKey'', str ''prefix'', js_field js (js_asUInt js) root ''channel'', str ''networkName'',
            str ''passphrase'', str ''panId'', str ''extPanId'', js_field js (js_asBool js) root ''defaultRoute'') of
        (Some networkKey, Some prefix, Some channel, Some networkName, Some passphrase, Some panId, Some extPanId, Some route) \<Rightarrow>
          Some \<lparr>fr_networkKey = c_str networkKey, fr_prefix = c_str prefix, fr_channel = channel, fr_networkName = c_str networkName,
            fr_passphrase = c_str passphrase, fr_panId = c_str panId, fr_extPanId = c_str extPanId, fr_defaultRoute = route\<rparr>
      | _ \<Rightarrow> None)"

definition form_calls ::
  "(byte list \<Rightarrow> byte list \<Rightarrow> byte list) \<Rightarrow> bus_env \<Rightarrow> form_request \<Rightarrow> wpan_controller \<Rightarrow> (dbus_call \<times> int) list" where
  "form_calls prf env r c =
     [(wc_Leave env c, kWpantundStatus_LeaveFailed),
      (wc_Set env kPropertyType_Data kWPANTUNDProperty_NetworkKey (fr_networkKey r) c, kWpantundStatus_SetFailed),
      (wc_Set env kPropertyType_String kWPANTUNDProperty_NetworkPANID (fr_panId r) c, kWpantundStatus_SetFailed),
      (wc_Set env kPropertyType_Data kWPANTUNDProperty_NetworkXPANID (fr_extPanId r) c, kWpantundStatus_SetFailed),
      (\<lambda>log. rbind (form_pskc prf env (fr_extPanId r) (fr_networkName r) (fr_passphrase r)) (\<lambda>pskc.
         wc_Set env kPropertyType_Data kWPANTUNDProperty_NetworkPSKc pskc c log), kWpantundStatus_SetFailed),
      (wc_Form env (fr_networkName r) (ucast (fr_channel r)) c, kWpantundStatus_FormFailed),
      (wc_AddGateway env (fr_prefix r) (fr_defaultRoute r) c, kWpantundStatus_SetGatewayFailed)]"

definition HandleFormNetworkRequest ::
  "'j jsoncpp \<Rightarrow> (byte list \<Rightarrow> byte list \<Rightarrow> byte list) \<Rightarrow> bus_env \<Rightarrow> string \<Rightarrow> wpan_service \<Rightarrow> dbus_request list
     \<Rightarrow> (web_outcome \<times> dbus_request list) res" where
  "HandleFormNetworkRequest js prf env aFormRequest s log =
     (case js_parse js (c_str aFormRequest) of
        None \<Rightarrow> Ok (Response (result_response kWpanStatus_ParseRequestFailed), log)
      | Some root \<Rightarrow>
          (case form_fields js root of
             None \<Rightarrow> Ok (Threw, log)
           | Some r \<Rightarrow> map_res (\<lambda>(ret, log1). (Response (result_response ret), log1))
               (run_calls (form_calls prf env r (ws_controller s)) log)))"

definition HandleAddPrefixRequest ::
  "'j jsoncpp \<Rightarrow> bus_env \<Rightarrow> string \<Rightarrow> wpan_service \<Rightarrow> dbus_request list \<Rightarrow> (web_outcome \<times> dbus_request list) res" where
  "HandleAddPrefixRequest js env aAddPrefixRequest s log =
     (case js_parse js (c_str aAddPrefixRequest) of
        None \<Rightarrow> Ok (Response (result_response kWpanStatus_ParseRequestFailed), log)
      | Some root \<Rightarrow>
          (case (js_field js (js_asString js) root ''prefix'', js_field js (js_asBool js) root ''defaultRoute'') of
             (Some prefix, Some defaultRoute) \<Rightarrow>
               map_res (\<lambda>(ret, log1). (Response (result_response ret), log1))
                 (run_calls [(wc_AddGateway env (c_str prefix) defaultRoute (ws_controller s), kWpantundStatus_SetGatewayFailed)] log)
           | _ \<Rightarrow> Ok (Threw, log)))"

definition HandleDeletePrefixRequest ::
  "'j jsoncpp \<Rightarrow> bus_env \<Rightarrow> string \<Rightarrow> wpan_service \<Rightarrow> dbus_request list \<Rightarrow> (web_outcome \<times> dbus_request list) res" where
  "HandleDeletePrefixRequest js env aDeleteRequest s log =
     (case js_parse js (c_str aDeleteRequest) of
        None \<Rightarrow> Ok (Response (result_response kWpanStatus_ParseRequestFailed), log)
      | Some root \<Rightarrow>
          (case js_field js (js_asString js) root ''prefix'' of
             Some prefix \<Rightarrow>
               map_res (\<lambda>(ret, log1). (Response (result_response ret), log1))
                 (run_calls [(wc_RemoveGateway env (c_str prefix) (ws_controller s), kWpantundStatus_SetGatewayFailed)] log)
           | None \<Rightarrow> Ok (Threw, log)))"

section \<open>Status and scan\<close>

definition status_properties :: "string list" where
  "status_properties = [''NCP:State'', ''Daemon:Enabled'', ''NCP:Version'', ''Daemon:Version'', ''Config:NCP:DriverName'',
     ''NCP:HardwareAddress'', ''NCP:Channel'', ''Network:NodeType'', ''Network:Name'', ''Network:XPANID'', ''Network:PANID'',
     ''IPv6:LinkLocalAddress'', ''IPv6:MeshLocalAddress'', ''IPv6:MeshLocalPrefix'']"

definition kWPANTUNDStateAssociated :: string where "kWPANTUNDStateAssociated = ''associated''"
definition kWPANTUNDStateOffline :: string where "kWPANTUNDStateOffline = ''offline''"
definition kWPANTUNDStateAssociating :: string where "kWPANTUNDStateAssociating = ''associating''"
definition kWPANTUNDStateUninitialized :: string where "kWPANTUNDStateUninitialized = ''uninitialized''"

text \<open>The status, or an exception: \<open>substr\<close> throws when the text is shorter than the prefix.\<close>

definition GetWpanServiceStatus ::
  "bus_env \<Rightarrow> wpan_service \<Rightarrow> dbus_request list \<Rightarrow> (int option \<times> dbus_request list) res" where
  "GetWpanServiceStatus env s log =
     (let c = ws_controller s in
      rbind (wc_Get env ''NCP:State'' c log) (\<lambda>(state, log1).
        if state = [] then Ok (Some kWpanStatus_Down, log1)
        else if state = kWPANTUNDStateAssociated then
          rbind (wc_Get env kWPANTUNDProperty_NetworkName c log1) (\<lambda>(name, log2).
          rbind (wc_Get env kWPANTUNDProperty_NetworkXPANID c log2) (\<lambda>(xpanid, log3).
            Ok (if length xpanid < OT_HEX_PREFIX_LENGTH then None else Some kWpanStatus_OK, log3)))
        else if contains state kWPANTUNDStateOffline then Ok (Some kWpanStatus_Offline, log1)
        else if contains state kWPANTUNDStateAssociating then Ok (Some kWpanStatus_Associating, log1)
        else Ok (Some kWpanStatus_Uninitialized, log1)))"

text \<open>One property after another, until one is empty.\<close>

fun get_properties ::
  "bus_env \<Rightarrow> wpan_controller \<Rightarrow> string list \<Rightarrow> dbus_request list \<Rightarrow> ((string \<times> web_json) list option \<times> dbus_request list) res" where
  "get_properties env c [] log = Ok (Some [], log)"
| "get_properties env c (key # keys) log =
     rbind (wc_Get env key c log) (\<lambda>(value, log1).
       if value = [] then Ok (None, log1)
       else map_res (\<lambda>(vals, log2). (map_option ((#) (key, WStr value)) vals, log2)) (get_properties env c keys log1))"

definition HandleStatusRequest ::
  "bus_env \<Rightarrow> wpan_service \<Rightarrow> dbus_request list \<Rightarrow> (web_outcome \<times> dbus_request list) res" where
  "HandleStatusRequest env s log =
     rbind (GetWpanServiceStatus env s log) (\<lambda>(status, log1).
       case status of
         None \<Rightarrow> Ok (Threw, log1)
       | Some st \<Rightarrow>
           if st = kWpanStatus_OK then
             map_res (\<lambda>(vals, log2).
               (Response (case vals of
                  None \<Rightarrow> fail_response kWpanStatus_GetPropertyFailed
                | Some kvs \<Rightarrow> WObj [(''result'', WObj (kvs @ [(''mDNS service'', WStr ''up'')])), (''error'', WInt 0)]), log2))
               (get_properties env (ws_controller s) status_properties log1)
           else if st = kWpanStatus_Offline then
             Ok (Response (WObj [(''result'', WObj [(''WPAN service'', WStr kWPANTUNDStateOffline), (''mDNS service'', WStr ''down'')]),
               (''error'', WInt 0)]), log1)
           else
             Ok (Response (WObj [(''result'', WObj [(''wpantund'', WStr ''down''), (''WPAN service'', WStr kWPANTUNDStateUninitialized),
               (''mDNS service'', WStr ''down'')]), (''error'', WInt 0)]), log1))"

definition network_json :: "network_info \<Rightarrow> web_json" where
  "network_json ni = WObj
     [(''nn'', WStr (ni_name ni)), (''xp'', WStr (Long2Hex (BigEndian_HostSwap64 (ni_xpanid ni)))),
      (''pi'', WStr (''0x'' @ upper_hex (unat (ni_panid ni)))), (''ch'', WInt (int (unat (ni_channel ni)))),
      (''ha'', WStr (Bytes2Hex (ni_hwaddr ni)))]"

definition HandleAvailableNetworkRequest ::
  "bus_env \<Rightarrow> wpan_service \<Rightarrow> dbus_request list \<Rightarrow> (web_outcome \<times> wpan_service \<times> dbus_request list) res" where
  "HandleAvailableNetworkRequest env s log =
     rbind (wc_Scan env (ws_controller s) log) (\<lambda>(ret, c, log1).
       if ret \<noteq> kWpantundStatus_Ok then Ok (Response (fail_response kWpantundStatus_ScanFailed), s, log1)
       else let networks = mScannedNetworks c in
         Ok (Response (WObj [(''result'', WArr (map network_json networks)), (''error'', WInt kWpantundStatus_Ok)]),
             s\<lparr>ws_networks := networks @ drop (length networks) (ws_networks s)\<rparr>, log1))"

section \<open>The server\<close>

definition crlf :: string where "crlf = [CHR 0x0D, CHR 0x0A]"

text \<open>The bytes written for a response; an exception's text is answered with status 400.\<close>

definition HandleHttpRequest :: "(web_json \<Rightarrow> string) \<Rightarrow> string \<Rightarrow> web_outcome \<Rightarrow> string" where
  "HandleHttpRequest js_write what out =
     (let (status, body) = (case out of
            Response root \<Rightarrow> (''HTTP/1.1 200 OK'', js_write root) | Threw \<Rightarrow> (''HTTP/1.1 400 Bad Request'', what)) in
      status @ crlf @ ''Content-Length: '' @ dec_string (length body) @ crlf @ crlf @ body)"

datatype web_route = RouteJoin | RouteForm | RouteAddPrefix | RouteDeletePrefix | RouteStatus | RouteAvailable

text \<open>The resources, by the pattern of the path and the method.\<close>

definition web_resources :: "(string \<times> string \<times> web_route) list" where
  "web_resources =
     [(''^/join_network$'', ''POST'', RouteJoin), (''^/form_network$'', ''POST'', RouteForm),
      (''^/add_prefix'', ''POST'', RouteAddPrefix), (''^/delete_prefix'', ''POST'', RouteDeletePrefix),
      (''^/get_properties$'', ''GET'', RouteStatus), (''^/available_network$'', ''GET'', RouteAvailable)]"

definition handle_route ::
  "'j jsoncpp \<Rightarrow> (byte list \<Rightarrow> byte list \<Rightarrow> byte list) \<Rightarrow> bus_env \<Rightarrow> web_route \<Rightarrow> string \<Rightarrow> wpan_service \<Rightarrow> dbus_request list
     \<Rightarrow> (web_outcome \<times> wpan_service \<times> dbus_request list) res" where
  "handle_route js prf env route content s log =
     (let keep = map_res (\<lambda>(out, log1). (out, s, log1)) in
      case route of
        RouteJoin \<Rightarrow> keep (HandleJoinNetworkRequest js env content s log)
      | RouteForm \<Rightarrow> keep (HandleFormNetworkRequest js prf env content s log)
      | RouteAddPrefix \<Rightarrow> keep (HandleAddPrefixRequest js env content s log)
      | RouteDeletePrefix \<Rightarrow> keep (HandleDeletePrefixRequest js env content s log)
      | RouteStatus \<Rightarrow> keep (HandleStatusRequest env s log)
      | RouteAvailable \<Rightarrow> HandleAvailableNetworkRequest env s log)"

text \<open>
  The start: the status is asked for before the server runs, where nothing catches an exception.
\<close>

definition StartWebServer ::
  "bus_env \<Rightarrow> string \<Rightarrow> wpan_service \<Rightarrow> dbus_request list \<Rightarrow> (wpan_service \<times> (string \<times> string \<times> web_route) list \<times> dbus_request list) res" where
  "StartWebServer env aIfName s log =
     (let s1 = ws_SetInterfaceName aIfName s in
      rbind (GetWpanServiceStatus env s1 log) (\<lambda>(status, log1).
        if status = None then Fault Aborted else Ok (s1, web_resources, log1)))"

section \<open>A bus that works\<close>

definition bus_up :: "bus_env \<Rightarrow> bool" where
  "bus_up env \<longleftrightarrow> be_connection env \<and> be_message env \<and> be_pending env \<and> be_match env \<and> be_dead env"

text \<open>The lookup of the destination that goes before every request, and its answer.\<close>

definition ifname_request :: dbus_request where
  "ifname_request = \<lparr>rq_dest = ''com.nestlabs.WPANTunnelDriver'', rq_path = ''/com/nestlabs/WPANTunnelDriver'',
     rq_iface = ''com.nestlabs.WPANTunnelDriver'', rq_method = ''GetInterfaces'', rq_args = []\<rparr>"

definition daemon_knows :: "bus_env \<Rightarrow> string \<Rightarrow> string \<Rightarrow> bool" where
  "daemon_knows env ifname dest \<longleftrightarrow> dest \<noteq> [] \<and> length dest < 255 \<and> length ifname < 16
     \<and> (\<forall>log. \<exists>items rest. be_daemon env log ifname_request = Some (DArray items # rest) \<and> find_ifname ifname items = Ok (Some dest))"

definition wpan_request :: "string \<Rightarrow> string \<Rightarrow> string \<Rightarrow> dbus_append list \<Rightarrow> dbus_request" where
  "wpan_request ifname dest method args = \<lparr>rq_dest = dest, rq_path = ''/org/wpantund/'' @ ifname, rq_iface = ''org.wpantund.v1'',
     rq_method = method, rq_args = args\<rparr>"

definition tunnel_request :: "string \<Rightarrow> string \<Rightarrow> string \<Rightarrow> dbus_append list \<Rightarrow> dbus_request" where
  "tunnel_request ifname dest method args = \<lparr>rq_dest = dest, rq_path = ''/com/nestlabs/WPANTunnelDriver/'' @ ifname,
     rq_iface = ''com.nestlabs.WPANTunnelDriver'', rq_method = method, rq_args = args\<rparr>"

text \<open>The base of a request, set up to be sent.\<close>

definition ready_base :: "string \<Rightarrow> string \<Rightarrow> string \<Rightarrow> string \<Rightarrow> dbus_base" where
  "ready_base ifname dest path iface =
     new_DBusBase\<lparr>mDestination := Some dest, mPath := Some path, mIface := Some iface, mInterfaceName := Some ifname\<rparr>"

lemma request_base_eq:
  assumes "bus_up env" "daemon_knows env ifname dest" "mIfName c = ifname" "length path + length ifname < 255" "length iface < 256"
  shows "request_base env path iface c log = Ok (ready_base ifname dest (path @ ''/'' @ ifname) iface, log @ [ifname_request])"
proof -
  obtain items rest where reply: "be_daemon env log ifname_request = Some (DArray items # rest)" "find_ifname ifname items = Ok (Some dest)"
    using assms(2) unfolding daemon_knows_def by blast
  have "GetDBusInterfaceName env c log = Ok (Some (Some dest), log @ [ifname_request])"
    using assms(1-3) reply
    by (simp add: GetDBusInterfaceName_def if_name_def IFNAMSIZ_def ifname_ProcessReply_def GetConnection_def GetMessage_def
        SetDestination_def SetPath_def SetMethod_def SetInterface_def SetInterfaceName_def strncpy_to_def DBUS_NAME_SIZE_def
        DBUS_MAXIMUM_NAME_LENGTH_def GetReply_def request_of_def base_free_def initialized_def new_DBusBase_def daemon_knows_def
        ifname_request_def [symmetric] bus_up_def Let_def wpantund_status)
  then show ?thesis
    using assms
    by (simp add: request_base_def if_name_def IFNAMSIZ_def dead_def bus_up_def initialized_def daemon_knows_def ready_base_def
        SetDestination_def SetPath_def SetInterface_def SetInterfaceName_def strncpy_to_def DBUS_NAME_SIZE_def dbus_path_def
        DBUS_MAXIMUM_NAME_LENGTH_def new_DBusBase_def Let_def)
qed

text \<open>What a request comes back with: the daemon's code, or another without a reply.\<close>

definition answer :: "bus_env \<Rightarrow> int \<Rightarrow> dbus_request \<Rightarrow> dbus_request list \<Rightarrow> int" where
  "answer env no_reply rq log = (case be_daemon env log rq of None \<Rightarrow> no_reply | Some vs \<Rightarrow> get_int32 vs)"

lemma ready_call:
  assumes "bus_up env" "dest \<noteq> []"
    and "rq = \<lparr>rq_dest = dest, rq_path = path, rq_iface = iface, rq_method = name, rq_args = args\<rparr>"
    and "\<And>b. body b = Ok (reply_code env args no_reply b log)"
  shows "with_message env name (ready_base ifname dest path iface) log body = Ok (answer env no_reply rq log, log @ [rq])"
  using assms
  by (simp add: with_message_def GetConnection_def GetMessage_def SetMethod_def base_free_def initialized_def bus_up_def Let_def
      ready_base_def new_DBusBase_def reply_code_eq request_of_def answer_def)

text \<open>The lookup of the interface succeeds, with the name \<open>dest\<close>.\<close>

definition bus_ready :: "bus_env \<Rightarrow> string \<Rightarrow> string \<Rightarrow> wpan_controller \<Rightarrow> bool" where
  "bus_ready env ifname dest c \<longleftrightarrow> bus_up env \<and> daemon_knows env ifname dest \<and> mIfName c = ifname"

lemma bus_readyD:
  assumes "bus_ready env ifname dest c"
  shows "bus_up env" "dest \<noteq> []" "length ifname < 16"
  using assms by (simp_all add: bus_ready_def daemon_knows_def)

definition wpan_ready :: "string \<Rightarrow> string \<Rightarrow> dbus_base" where
  "wpan_ready ifname dest = ready_base ifname dest (''/org/wpantund/'' @ ifname) ''org.wpantund.v1''"

definition tunnel_ready :: "string \<Rightarrow> string \<Rightarrow> dbus_base" where
  "tunnel_ready ifname dest = ready_base ifname dest (''/com/nestlabs/WPANTunnelDriver/'' @ ifname) ''com.nestlabs.WPANTunnelDriver''"

lemma wpan_base:
  assumes "bus_ready env ifname dest c"
  shows "request_base env WPANTUND_DBUS_PATH WPANTUND_DBUS_APIv1_INTERFACE c log
     = Ok (wpan_ready ifname dest, log @ [ifname_request])"
  using assms request_base_eq [of env ifname dest c WPANTUND_DBUS_PATH WPANTUND_DBUS_APIv1_INTERFACE] bus_readyD [OF assms]
  by (simp add: WPANTUND_DBUS_PATH_def WPANTUND_DBUS_APIv1_INTERFACE_def bus_ready_def wpan_ready_def)

lemma tunnel_base:
  assumes "bus_ready env ifname dest c"
  shows "request_base env WPAN_TUNNEL_DBUS_PATH WPAN_TUNNEL_DBUS_INTERFACE c log
     = Ok (tunnel_ready ifname dest, log @ [ifname_request])"
  using assms request_base_eq [of env ifname dest c WPAN_TUNNEL_DBUS_PATH WPAN_TUNNEL_DBUS_INTERFACE] bus_readyD [OF assms]
  by (simp add: WPAN_TUNNEL_DBUS_PATH_def WPAN_TUNNEL_DBUS_INTERFACE_def bus_ready_def tunnel_ready_def)

text \<open>A call looks the destination up and sends its request: its result and the log.\<close>

definition sent :: "bus_env \<Rightarrow> int \<Rightarrow> dbus_request \<Rightarrow> dbus_request list \<Rightarrow> (int \<times> dbus_request list) res" where
  "sent env no_reply rq log = Ok (answer env no_reply rq (log @ [ifname_request]), log @ [ifname_request, rq])"

lemma wpan_call:
  assumes "bus_ready env ifname dest c" and "\<And>b. body b = Ok (reply_code env args no_reply b (log @ [ifname_request]))"
  shows "with_message env name (wpan_ready ifname dest) (log @ [ifname_request]) body
    = sent env no_reply (wpan_request ifname dest name args) log"
  unfolding wpan_ready_def sent_def
  by (subst ready_call [OF bus_readyD(1,2) [OF assms(1)] wpan_request_def assms(2)]) simp

lemma tunnel_call:
  assumes "bus_ready env ifname dest c" and "\<And>b. body b = Ok (reply_code env args no_reply b (log @ [ifname_request]))"
  shows "with_message env name (tunnel_ready ifname dest) (log @ [ifname_request]) body
    = sent env no_reply (tunnel_request ifname dest name args) log"
  unfolding tunnel_ready_def sent_def
  by (subst ready_call [OF bus_readyD(1,2) [OF assms(1)] tunnel_request_def assms(2)]) simp

lemma Leave_sends:
  assumes "bus_ready env ifname dest c"
  shows "wc_Leave env c log = sent env kWpantundStatus_InvalidReply (wpan_request ifname dest ''Leave'' []) log"
  unfolding wc_Leave_def leave_ProcessReply_def wpan_base [OF assms]
  by (simp add: wpan_call [OF assms])

lemma Set_String_sends:
  assumes "bus_ready env ifname dest c"
  shows "wc_Set env kPropertyType_String key v c log
    = sent env kWpantundStatus_InvalidReply (wpan_request ifname dest ''PropSet'' [AString key, AString v]) log"
  unfolding wc_Set_def set_ProcessReply_def wpan_base [OF assms]
  by (simp add: wpan_call [OF assms])

text \<open>The bytes of a text in hexadecimal, and the count that goes with them.\<close>

definition hex_arg :: "string \<Rightarrow> dbus_append" where
  "hex_arg s = (let (len, written) = Hex2Bytes s [] (length s) in ABytes written len)"

lemma Hex2Bytes_written: "length (snd (Hex2Bytes s [] (length s))) \<le> (length s + 1) div 2"
proof -
  obtain r w where w: "hex_loop s (length s mod 2) 0 [] = (r, w)" by fastforce
  have "length w \<le> (length s + length s mod 2) div 2" using hex_loop_length [OF w] by simp
  also have "\<dots> \<le> (length s + 1) div 2" by (intro div_le_mono) auto
  finally show ?thesis by (simp add: Hex2Bytes_def w)
qed

lemma Set_Data_sends:
  assumes "bus_ready env ifname dest c" and "length v \<le> 500"
  shows "wc_Set env kPropertyType_Data key v c log
    = sent env kWpantundStatus_InvalidReply (wpan_request ifname dest ''PropSet'' [AString key, hex_arg v]) log"
proof -
  obtain n written where hex: "Hex2Bytes v [] (length v) = (n, written)" by fastforce
  have "length written \<le> (length v + 1) div 2" using Hex2Bytes_written [of v] hex by simp
  also have "\<dots> \<le> 501 div 2" using assms(2) by (intro div_le_mono) simp
  finally have "length written \<le> 250" by simp
  then show ?thesis
    unfolding wc_Set_def set_ProcessReply_def wpan_base [OF assms(1)]
    by (simp add: wpan_call [OF assms(1)] hex hex_arg_def OT_SET_MAX_DATA_SIZE_def)
qed

lemma Form_sends:
  assumes "bus_ready env ifname dest c" and "channel_ok ch"
  shows "wc_Form env name ch c log = sent env kWpantundStatus_InvalidReply
    (tunnel_request ifname dest ''Form'' [AString name, AInt16 2, AUint32 (push_bit (unat ch) 1)]) log"
  using assms(2) unfolding wc_Form_def form_ProcessReply_def tunnel_base [OF assms(1)]
  by (simp add: tunnel_call [OF assms(1)] OT_ROUTER_ROLE_def)

lemma Join_sends:
  assumes "bus_ready env ifname dest c" and "channel_ok ch" "xpanid \<noteq> 0" "panid \<noteq> 0" "panid \<noteq> 0xffff"
  shows "wc_Join env name ch xpanid panid c log = sent env 0
    (tunnel_request ifname dest ''Join'' [AString name, AInt16 2, AUint64 xpanid, AUint16 panid, AByte (ucast ch)]) log"
proof -
  have "ch \<noteq> 0" using assms(2) by (auto simp: channel_ok_def)
  then show ?thesis
    using assms(2-5) unfolding wc_Join_def join_ProcessReply_def tunnel_base [OF assms(1)]
    by (simp add: tunnel_call [OF assms(1)] OT_ROUTER_ROLE_def)
qed

lemma AddGateway_sends:
  assumes "bus_ready env ifname dest c" and "prefix_bytes env prefix = Some bytes"
  shows "wc_AddGateway env prefix route c log = sent env kWpantundStatus_InvalidReply
    (wpan_request ifname dest ''ConfigGateway'' [ABool route, ABytes bytes 16, AUint32 0xffffffff, AUint32 0xffffffff]) log"
  unfolding wc_AddGateway_def gateway_ProcessReply_def wpan_base [OF assms(1)]
  by (simp add: wpan_call [OF assms(1)] assms(2))

section \<open>Forming a network\<close>

text \<open>
  A transaction with the daemon: requests in order, each after the lookup, until one is not
  answered with 0; each with the code for no answer and the code the service then reports.
\<close>

fun transact :: "bus_env \<Rightarrow> (dbus_request \<times> int \<times> int) list \<Rightarrow> dbus_request list \<Rightarrow> int \<times> dbus_request list" where
  "transact env [] log = (kWpantundStatus_Ok, log)"
| "transact env ((rq, no_reply, failed) # rqs) log =
     (let log1 = log @ [ifname_request, rq] in
      if answer env no_reply rq (log @ [ifname_request]) \<noteq> 0 then (failed, log1) else transact env rqs log1)"

lemma run_calls_transact:
  assumes "list_all2 (\<lambda>(call, failed) (rq, no_reply, failed'). failed' = failed \<and> (\<forall>log. call log = sent env no_reply rq log)) calls rqs"
  shows "run_calls calls log = Ok (transact env rqs log)"
  using assms
proof (induction calls rqs arbitrary: log rule: list_all2_induct)
  case Nil
  then show ?case by simp
next
  case (Cons call calls rq rqs)
  then show ?case
    by (cases call; cases rq) (auto simp: sent_def Let_def kWpantundStatus_Ok_def)
qed

text \<open>The seven requests that form a network.\<close>

definition form_plan :: "string \<Rightarrow> string \<Rightarrow> form_request \<Rightarrow> string \<Rightarrow> byte list \<Rightarrow> (dbus_request \<times> int \<times> int) list" where
  "form_plan ifname dest r pskc prefix =
     (let req = wpan_request ifname dest; ir = kWpantundStatus_InvalidReply in
      [(req ''Leave'' [], ir, kWpantundStatus_LeaveFailed),
       (req ''PropSet'' [AString ''Network:Key'', hex_arg (fr_networkKey r)], ir, kWpantundStatus_SetFailed),
       (req ''PropSet'' [AString ''Network:PANID'', AString (fr_panId r)], ir, kWpantundStatus_SetFailed),
       (req ''PropSet'' [AString ''Network:XPANID'', hex_arg (fr_extPanId r)], ir, kWpantundStatus_SetFailed),
       (req ''PropSet'' [AString ''Network:PSKc'', hex_arg pskc], ir, kWpantundStatus_SetFailed),
       (tunnel_request ifname dest ''Form'' [AString (fr_networkName r), AInt16 2, AUint32 (push_bit (unat (fr_channel r)) 1)],
          ir, kWpantundStatus_FormFailed),
       (req ''ConfigGateway'' [ABool (fr_defaultRoute r), ABytes prefix 16, AUint32 0xffffffff, AUint32 0xffffffff],
          ir, kWpantundStatus_SetGatewayFailed)])"

definition form_valid :: "bus_env \<Rightarrow> form_request \<Rightarrow> byte list \<Rightarrow> bool" where
  "form_valid env r prefix \<longleftrightarrow> length (fr_networkKey r) \<le> 500 \<and> length (fr_extPanId r) \<le> 500
     \<and> fr_networkName r \<noteq> [] \<and> length (fr_networkName r) \<le> 16 \<and> 11 \<le> fr_channel r \<and> fr_channel r \<le> 26
     \<and> prefix_bytes env (fr_prefix r) = Some prefix \<and> length (be_stack env) \<ge> 16"

lemma Hex2Bytes_dest_length: "length dest = n \<Longrightarrow> length (snd (Hex2Bytes s dest n)) = n"
proof (cases "(length s + 1) div 2 > n")
  case False
  assume "length dest = n"
  obtain r w where w: "hex_loop s (length s mod 2) 0 [] = (r, w)" by fastforce
  have "length w \<le> (length s + length s mod 2) div 2" using hex_loop_length [OF w] by simp
  also have "\<dots> \<le> (length s + 1) div 2" by (intro div_le_mono) auto
  finally show ?thesis using False \<open>length dest = n\<close> by (simp add: Hex2Bytes_def w)
qed (simp add: Hex2Bytes_def)

lemma form_pskc_Ok:
  assumes "name \<noteq> []" "length name \<le> 16" "length (be_stack env) \<ge> 16"
  shows "\<exists>pskc. form_pskc prf env xp name pass = Ok pskc \<and> length pskc \<le> 32"
proof -
  let ?xpan = "snd (Hex2Bytes xp (take OT_EXTENDED_PANID_LENGTH (be_stack env)) OT_EXTENDED_PANID_LENGTH)"
  have "length ?xpan = 8"
    using assms(3) Hex2Bytes_dest_length [of "take OT_EXTENDED_PANID_LENGTH (be_stack env)" OT_EXTENDED_PANID_LENGTH xp]
    by (simp add: OT_EXTENDED_PANID_LENGTH_def)
  then have "\<exists>k. ComputePskc prf ?xpan name pass fresh_Pskc = Ok k"
    using assms(1,2)
    by (simp add: ComputePskc_def SetSalt_def put_bytes_def saltPrefix_def read_bytes_def pskc_consts Let_def)
  then obtain k where "ComputePskc prf ?xpan name pass fresh_Pskc = Ok k" by blast
  then show ?thesis by (simp add: form_pskc_def Let_def OT_PSKC_MAX_LENGTH_def)
qed

lemma form_channel: "11 \<le> ch \<Longrightarrow> ch \<le> 26 \<Longrightarrow> channel_ok (ucast (ch :: u32)) \<and> unat (ucast ch :: u16) = unat ch"
proof -
  assume ch: "11 \<le> ch" "ch \<le> 26"
  then have "unat ch \<le> 26" "11 \<le> unat ch" by (simp_all add: word_le_nat_alt)
  then have "unat (ucast ch :: u16) = unat ch" by (simp add: unsigned_ucast_eq take_bit_nat_eq_self)
  with \<open>unat ch \<le> 26\<close> \<open>11 \<le> unat ch\<close> show ?thesis by (simp add: channel_ok_def word_le_nat_alt)
qed


section \<open>Joining a scanned network\<close>

text \<open>A beacon as wpantund announces a network.\<close>

definition beacon_of :: "network_info \<Rightarrow> dbus_value list" where
  "beacon_of ni = [DArray
     [DDict (DString kWPANTUNDProperty_NetworkName) (DVariant (DString (ni_name ni))),
      DDict (DString kWPANTUNDProperty_NetworkXPANID) (DVariant (DUint64 (ni_xpanid ni))),
      DDict (DString kWPANTUNDProperty_NetworkPANID) (DVariant (DUint16 (ni_panid ni))),
      DDict (DString kWPANTUNDProperty_NCPChannel) (DVariant (DUint16 (ni_channel ni))),
      DDict (DString ''RSSI'') (DVariant (DByte (ni_rssi ni))),
      DDict (DString kWPANTUNDProperty_NestLabs_NetworkAllowingJoin) (DVariant (DBool (ni_allowing_join ni))),
      DDict (DString kWPANTUNDProperty_NCPHardwareAddress) (DVariant (DArray (map DByte (ni_hwaddr ni))))]]"

definition network_wf :: "network_info \<Rightarrow> bool" where
  "network_wf ni \<longleftrightarrow> ni_name ni \<noteq> [] \<and> length (ni_name ni) \<le> 16 \<and> length (ni_hwaddr ni) = 8"

lemma fixed_bytes_map: "fixed_bytes (map DByte bs) = bs"
  by (induction bs) auto

lemma beacon_parsed: "network_wf ni \<Longrightarrow> ParseNetworkInfoFromIter (beacon_of ni) = Ok ni"
  by (simp add: ParseNetworkInfoFromIter_def beacon_of_def set_info_def scan_keys basic_string_def basic_u64_def basic_u16_def
      basic_byte_def basic_bool_def set_hwaddr_def fixed_bytes_map network_wf_def zero_info_def OT_NETWORK_NAME_MAX_SIZE_def)

lemma beacons_collected:
  assumes "list_all network_wf nis"
  shows "fold_res DbusBeaconHandler (map beacon_of nis) known = Ok (known @ take (OT_SCANNED_NET_BUFFER_SIZE - length known) nis)"
  using assms
proof (induction nis arbitrary: known)
  case Nil
  then show ?case by simp
next
  case (Cons ni nis)
  then have ni: "ParseNetworkInfoFromIter (beacon_of ni) = Ok ni" "ni_name ni \<noteq> []"
    using beacon_parsed by (auto simp: network_wf_def)
  show ?case
  proof (cases "length known < OT_SCANNED_NET_BUFFER_SIZE")
    case True
    then have "OT_SCANNED_NET_BUFFER_SIZE - length known = Suc (OT_SCANNED_NET_BUFFER_SIZE - length (known @ [ni]))" by simp
    with True ni Cons show ?thesis by (simp add: DbusBeaconHandler_def)
  next
    case False
    with ni Cons show ?thesis by (simp add: DbusBeaconHandler_def)
  qed
qed

definition scan_request :: "string \<Rightarrow> string \<Rightarrow> dbus_request" where
  "scan_request ifname dest = wpan_request ifname dest ''NetScanStart'' [AUint32 0]"

lemma Scan_sends:
  assumes "bus_ready env ifname dest c" and "be_beacons env (log @ [ifname_request]) = map beacon_of nis" and "list_all network_wf nis"
    and "answer env 0 (scan_request ifname dest) (log @ [ifname_request]) = 0" and "nis \<noteq> []"
  shows "wc_Scan env c log = Ok (0, c\<lparr>mScannedNetworks := take 250 nis\<rparr>, log @ [ifname_request, scan_request ifname dest])"
proof -
  have up: "be_connection env" "be_message env" "be_pending env" "be_match env" "dest \<noteq> []"
    using bus_readyD [OF assms(1)] by (simp_all add: bus_up_def)
  have rq: "request_of [AUint32 0] (wpan_ready ifname dest\<lparr>mConnection := Some True, mMethod := Some ''NetScanStart'', mMessage := Some True\<rparr>)
      = scan_request ifname dest"
    by (simp add: request_of_def wpan_ready_def ready_base_def scan_request_def wpan_request_def)
  have base: "mDestination (wpan_ready ifname dest) = Some dest" "mPath (wpan_ready ifname dest) \<noteq> None" "mIface (wpan_ready ifname dest) \<noteq> None"
    by (simp_all add: wpan_ready_def ready_base_def)
  have "GetMessage env (SetMethod ''NetScanStart'' ((wpan_ready ifname dest)\<lparr>mConnection := Some True\<rparr>))
      = Ok (True, wpan_ready ifname dest\<lparr>mConnection := Some True, mMethod := Some ''NetScanStart'', mMessage := Some True\<rparr>)"
    using base up by (auto simp: GetMessage_def SetMethod_def initialized_def)
  then have "scan_ProcessReply env 0 (wpan_ready ifname dest) (log @ [ifname_request])
      = Ok (0, take 250 nis, log @ [ifname_request, scan_request ifname dest])"
    using up assms(2,4) beacons_collected [OF assms(3), of "[]"]
    by (simp add: scan_ProcessReply_def GetConnection_def Let_def rq answer_def OT_SCANNED_NET_BUFFER_SIZE_def)
  then show ?thesis using assms(5) unfolding wc_Scan_def wpan_base [OF assms(1)] by simp
qed

definition join_plan ::
  "string \<Rightarrow> string \<Rightarrow> string \<Rightarrow> network_info \<Rightarrow> bool \<Rightarrow> byte list \<Rightarrow> (dbus_request \<times> int \<times> int) list" where
  "join_plan ifname dest networkKey ni defaultRoute prefix =
     (let req = wpan_request ifname dest; ir = kWpantundStatus_InvalidReply in
      [(req ''Leave'' [], ir, kWpantundStatus_LeaveFailed),
       (req ''PropSet'' [AString ''Network:Key'', hex_arg networkKey], ir, kWpantundStatus_SetFailed),
       (tunnel_request ifname dest ''Join'' [AString (ni_name ni), AInt16 2, AUint64 (ni_xpanid ni), AUint16 (ni_panid ni),
          AByte (ucast (ni_channel ni))], 0, kWpantundStatus_JoinFailed),
       (req ''ConfigGateway'' [ABool defaultRoute, ABytes prefix 16, AUint32 0xffffffff, AUint32 0xffffffff],
          ir, kWpantundStatus_SetGatewayFailed)])"

definition join_fields :: "'j jsoncpp \<Rightarrow> 'j \<Rightarrow> u32 \<Rightarrow> string \<Rightarrow> string \<Rightarrow> bool \<Rightarrow> bool" where
  "join_fields js root index networkKey prefix defaultRoute \<longleftrightarrow>
     js_field js (js_asUInt js) root ''index'' = Some index \<and> js_field js (js_asString js) root ''networkKey'' = Some networkKey
     \<and> js_field js (js_asString js) root ''prefix'' = Some prefix \<and> js_field js (js_asBool js) root ''defaultRoute'' = Some defaultRoute"

lemma Join_request_run:
  assumes "js_parse js (c_str body) = Some root" and "join_fields js root index networkKey prefix defaultRoute"
  shows "HandleJoinNetworkRequest js env body s log
    = map_res (\<lambda>(ret, log1). (Response (result_response ret), log1)) (run_calls (join_calls env s index networkKey prefix defaultRoute) log)"
  using assms by (simp add: HandleJoinNetworkRequest_def join_fields_def)

definition joinable :: "network_info \<Rightarrow> bool" where
  "joinable ni \<longleftrightarrow> channel_ok (ni_channel ni) \<and> ni_xpanid ni \<noteq> 0 \<and> ni_panid ni \<noteq> 0 \<and> ni_panid ni \<noteq> 0xffff"

lemma small_index:
  assumes "unat (index :: u32) < 250"
  shows "0 \<le> sint index" "sint index < 255" "nat (sint index) = unat index"
proof -
  have "int (unat index) < 250" using assms by linarith
  then have small: "uint index < 250" by simp
  then have "signed_take_bit 31 (uint index) = uint index"
    by (intro signed_take_bit_int_eq_self) (simp_all add: order_trans [OF _ uint_ge_0])
  then have "sint index = uint index" by (simp add: sint_uint)
  with small show "0 \<le> sint index" "sint index < 255" "nat (sint index) = unat index" by simp_all
qed


text \<open>
  A prefix that is neither an IPv6 address nor hexadecimal digits, in a request to add one,
  is not answered with an error: the early exit releases the pointer to a reply that was never
  received and never initialised.
\<close>

theorem add_prefix_invalid:
  assumes "js_parse js (c_str body) = Some root" and "js_field js (js_asString js) root ''prefix'' = Some prefix"
    and "js_field js (js_asBool js) root ''defaultRoute'' = Some defaultRoute"
    and "bus_ready env ifname dest (ws_controller s)" and "prefix_bytes env (c_str prefix) = None"
  shows "HandleAddPrefixRequest js env body s log = Fault Uninitialized"
proof -
  have "be_connection env" "be_message env" "dest \<noteq> []" using bus_readyD [OF assms(4)] by (simp_all add: bus_up_def)
  then have "gateway_ProcessReply env route (c_str prefix) pref valid (wpan_ready ifname dest) log1 = Fault Uninitialized" for route pref valid log1
    unfolding gateway_ProcessReply_def
    by (intro with_message_body_exit [of _ dest]) (simp_all add: wpan_ready_def ready_base_def new_DBusBase_def assms(5))
  then have "wc_AddGateway env (c_str prefix) defaultRoute (ws_controller s) log = Fault Uninitialized"
    unfolding wc_AddGateway_def wpan_base [OF assms(4)] by simp
  then show ?thesis using assms(1-3) by (simp add: HandleAddPrefixRequest_def)
qed

section \<open>A concrete bus and documents\<close>

datatype demo_json = DemoObj "(string \<times> demo_json) list" | DemoStr string | DemoUInt u32 | DemoBool bool

definition demo_js :: "demo_json \<Rightarrow> demo_json jsoncpp" where
  "demo_js doc = \<lparr>js_parse = (\<lambda>_. Some doc),
     js_member = (\<lambda>j k. case j of DemoObj kvs \<Rightarrow> map_of kvs k | _ \<Rightarrow> None),
     js_asString = (\<lambda>j. case j of DemoStr s \<Rightarrow> Some s | _ \<Rightarrow> None),
     js_asUInt = (\<lambda>j. case j of DemoUInt n \<Rightarrow> Some n | _ \<Rightarrow> None),
     js_asBool = (\<lambda>j. case j of DemoBool b \<Rightarrow> Some b | _ \<Rightarrow> None)\<rparr>"

definition demo_network :: network_info where
  "demo_network = \<lparr>ni_name = ''home'', ni_allowing_join = True, ni_panid = 0x1234, ni_channel = 15, ni_xpanid = 0xdead00beef00cafe,
     ni_rssi = 0xc8, ni_hwaddr = [1, 2, 3, 4, 5, 6, 7, 8]\<rparr>"

definition demo_bus :: bus_env where
  "demo_bus = \<lparr>be_connection = True, be_message = True, be_pending = True, be_match = True,
     be_daemon = (\<lambda>log rq. Some (if rq_method rq = ''GetInterfaces'' then [DArray [DArray [DString ''wpan0'', DString '':1.7'']]] else [DInt32 0])),
     be_beacons = (\<lambda>log. map beacon_of [demo_network]), be_dead = True, be_stack = replicate 16 0, be_pton = (\<lambda>_. None)\<rparr>"

definition demo_prf :: "byte list \<Rightarrow> byte list \<Rightarrow> byte list" where
  "demo_prf k m = replicate 16 (last m)"

definition demo_service :: wpan_service where
  "demo_service = \<lparr>ws_ifname = ''wpan0'', ws_networks = []\<rparr>"

lemma demo_ready: "bus_ready demo_bus ''wpan0'' '':1.7'' (ws_controller demo_service)"
  by (simp add: bus_ready_def bus_up_def daemon_knows_def demo_bus_def ws_controller_def demo_service_def new_WPANController_def
      IFNAMSIZ_def ifname_request_def)

lemma demo_prefix: "prefix_bytes demo_bus ''FD00'' = Some [0xfd, 0, 0, 0, 0, 0, 0, 0, 0, 0, 0, 0, 0, 0, 0, 0]"
  by code_simp

definition demo_join :: demo_json where
  "demo_join = DemoObj [(''index'', DemoUInt 0), (''networkKey'', DemoStr ''00112233''), (''prefix'', DemoStr ''FD00''),
     (''defaultRoute'', DemoBool True)]"


definition demo_form :: "string \<Rightarrow> demo_json" where
  "demo_form key = DemoObj [(''networkKey'', DemoStr key), (''prefix'', DemoStr ''FD00''), (''channel'', DemoUInt 15),
     (''networkName'', DemoStr ''home''), (''passphrase'', DemoStr ''secret''), (''panId'', DemoStr ''0x1234''),
     (''extPanId'', DemoStr ''DEAD00BEEF00CAFE''), (''defaultRoute'', DemoBool True)]"

definition demo_fields :: "string \<Rightarrow> form_request" where
  "demo_fields key = \<lparr>fr_networkKey = key, fr_prefix = ''FD00'', fr_channel = 15, fr_networkName = ''home'',
     fr_passphrase = ''secret'', fr_panId = ''0x1234'', fr_extPanId = ''DEAD00BEEF00CAFE'', fr_defaultRoute = True\<rparr>"

lemma demo_form_fields: "c_str key = key \<Longrightarrow> form_fields (demo_js (demo_form key)) (demo_form key) = Some (demo_fields key)"
proof -
  have "c_str ''FD00'' = ''FD00''" "c_str ''home'' = ''home''" "c_str ''secret'' = ''secret''" "c_str ''0x1234'' = ''0x1234''"
    "c_str ''DEAD00BEEF00CAFE'' = ''DEAD00BEEF00CAFE''" by code_simp+
  then show "c_str key = key \<Longrightarrow> ?thesis"
    by (simp add: form_fields_def demo_js_def demo_form_def demo_fields_def js_field_def Let_def)
qed


text \<open>
  A network key of more than 250 bytes in a request to form a network overflows the array on
  the stack into which it is decoded, after the old network was left.
\<close>

theorem form_key_overflow:
  assumes "js_parse js (c_str body) = Some root" and "form_fields js root = Some r"
    and "fr_networkKey r = Bytes2Hex key" and "length key > 250"
    and "bus_ready env ifname dest (ws_controller s)"
    and "answer env kWpantundStatus_InvalidReply (wpan_request ifname dest ''Leave'' []) (log @ [ifname_request]) = 0"
  shows "HandleFormNetworkRequest js prf env body s log = Fault Overflow"
proof -
  have up: "be_connection env" "be_message env" "dest \<noteq> []" using bus_readyD [OF assms(5)] by (simp_all add: bus_up_def)
  obtain n where hex: "Hex2Bytes (Bytes2Hex key) [] (length (Bytes2Hex key)) = (n, key)"
    using hex_loop_Bytes2Hex [of key "[]" "[]"] by (simp add: Hex2Bytes_def)
  have "set_ProcessReply env kPropertyType_Data name (Bytes2Hex key) (wpan_ready ifname dest) log1 = Fault Overflow" for name log1
    using up assms(4) hex
    by (simp add: set_ProcessReply_def with_message_def GetConnection_def GetMessage_def SetMethod_def initialized_def Let_def
        wpan_ready_def ready_base_def OT_SET_MAX_DATA_SIZE_def)
  then have "wc_Set env kPropertyType_Data kWPANTUNDProperty_NetworkKey (fr_networkKey r) (ws_controller s) log1 = Fault Overflow" for log1
    unfolding wc_Set_def wpan_base [OF assms(5)] by (simp add: assms(3))
  then show ?thesis
    using assms(1,2,6) by (simp add: HandleFormNetworkRequest_def form_calls_def Leave_sends [OF assms(5)] sent_def kWpantundStatus_Ok_def)
qed

theorem form_key_overflow_witness:
  "HandleFormNetworkRequest (demo_js (demo_form (Bytes2Hex (replicate 251 0xff)))) demo_prf demo_bus [] demo_service [] = Fault Overflow"
proof -
  let ?key = "Bytes2Hex (replicate 251 0xff)"
  have "c_str ?key = ?key" by code_simp
  from demo_form_fields [OF this]
  have fields: "form_fields (demo_js (demo_form ?key)) (demo_form ?key) = Some (demo_fields ?key)" .
  have parse: "js_parse (demo_js (demo_form ?key)) (c_str []) = Some (demo_form ?key)" by (simp add: demo_js_def)
  have "answer demo_bus kWpantundStatus_InvalidReply (wpan_request ''wpan0'' '':1.7'' ''Leave'' []) ([] @ [ifname_request]) = 0"
    by (simp add: answer_def demo_bus_def get_int32_def wpan_request_def)
  from form_key_overflow [OF parse fields _ _ demo_ready this, of "replicate 251 0xff"] show ?thesis
    by (simp add: demo_fields_def)
qed

theorem add_prefix_invalid_witness:
  "HandleAddPrefixRequest (demo_js (DemoObj [(''prefix'', DemoStr ''x''), (''defaultRoute'', DemoBool True)])) demo_bus [] demo_service []
     = Fault Uninitialized"
proof -
  let ?doc = "DemoObj [(''prefix'', DemoStr ''x''), (''defaultRoute'', DemoBool True)]"
  have c: "c_str ''x'' = ''x''" by code_simp
  have "prefix_bytes demo_bus ''x'' = None" by code_simp
  then have bad: "prefix_bytes demo_bus (c_str ''x'') = None" by (simp only: c)
  show ?thesis
    by (rule add_prefix_invalid [OF _ _ _ demo_ready bad, where root = ?doc]) (simp_all add: demo_js_def js_field_def)
qed

end
