(* ===== verification/StaticFiles.thy ===== *)
theory StaticFiles
  imports WebService "HOL-Library.Sublist"
begin

text \<open>
  The static files of \<open>web/web-service/web_server.cpp\<close>: what the server answers to a request for no
  resource of its own.

  The file system is a parameter: a path is the list of its elements, \<open>canonical\<close> resolves links
  and dots or throws.  A file is the text read from it; the sends of a long file succeed or not.
\<close>

section \<open>The file system\<close>

record file_system =
  fs_root :: "string list option"
  fs_canonical :: "string list \<Rightarrow> string \<Rightarrow> string list option"
  fs_directory :: "string list \<Rightarrow> bool"
  fs_regular :: "string list \<Rightarrow> bool"
  fs_open :: "string list \<Rightarrow> string option"

text \<open>\<open>boost::filesystem::extension\<close>: from the last dot of the last element on.\<close>

definition path_extension :: "string list \<Rightarrow> string" where
  "path_extension path =
     (let f = (if path = [] then [] else last path) in
      if f = ''.'' \<or> f = ''..'' \<or> CHR ''.'' \<notin> set f then [] else CHR ''.'' # rev (takeWhile (\<lambda>c. c \<noteq> CHR ''.'') (rev f)))"

section \<open>The answer\<close>

definition OT_BUFFER_SIZE :: nat where "OT_BUFFER_SIZE = 1024"

text \<open>
  \<open>DefaultResourceSend\<close>: the bytes written to the response.  A full buffer is sent before the next
  is read; \<open>send_ok\<close> tells whether the connection still was there.
\<close>

function DefaultResourceSend :: "(nat \<Rightarrow> bool) \<Rightarrow> nat \<Rightarrow> string \<Rightarrow> string" where
  "DefaultResourceSend send_ok k ifs =
     (let buffer = take OT_BUFFER_SIZE ifs in
      if length buffer > 0
      then buffer @ (if length buffer = OT_BUFFER_SIZE \<and> send_ok k
                     then DefaultResourceSend send_ok (Suc k) (drop OT_BUFFER_SIZE ifs) else [])
      else [])"
  by pat_completeness auto
termination
  by (relation "measure (\<lambda>(send_ok, k, ifs). length ifs)") (auto simp: OT_BUFFER_SIZE_def)

declare DefaultResourceSend.simps [simp del]

definition failure_response :: string where
  "failure_response =
     (let content = ''Could not open path'' in
      ''HTTP/1.1 400 Bad Request'' @ crlf @ ''Content-Length: '' @ dec_string (length content) @ crlf @ crlf @ content)"

definition file_header :: "string list \<Rightarrow> nat \<Rightarrow> string" where
  "file_header path len =
     ''HTTP/1.1 200 OK'' @ crlf @ ''Content-Length: '' @ dec_string len
       @ (if path_extension path = ''.css'' then crlf @ ''Content-Type: text/css'' else []) @ crlf @ crlf"

text \<open>What is written, and the path of the file that was opened; \<open>None\<close> is any of the exceptions.\<close>

definition file_to_send :: "file_system \<Rightarrow> string \<Rightarrow> (string list \<times> string) option" where
  "file_to_send fs request_path =
     (case fs_root fs of
        None \<Rightarrow> None
      | Some webRootPath \<Rightarrow>
          (case fs_canonical fs webRootPath request_path of
             None \<Rightarrow> None
           | Some path0 \<Rightarrow>
               if length webRootPath > length path0 \<or> take (length webRootPath) path0 \<noteq> webRootPath then None
               else let path = (if fs_directory fs path0 then path0 @ [''index.html''] else path0) in
                 if \<not> fs_regular fs path then None else map_option (Pair path) (fs_open fs path)))"

definition DefaultHttpResponse :: "file_system \<Rightarrow> (nat \<Rightarrow> bool) \<Rightarrow> string \<Rightarrow> string" where
  "DefaultHttpResponse fs send_ok request_path =
     (case file_to_send fs request_path of
        None \<Rightarrow> failure_response
      | Some (path, content) \<Rightarrow> file_header path (length content) @ DefaultResourceSend send_ok 0 content)"

section \<open>Properties\<close>

lemma send_all: "\<forall>j\<ge>k. send_ok j \<Longrightarrow> DefaultResourceSend send_ok k ifs = ifs"
proof (induction send_ok k ifs rule: DefaultResourceSend.induct)
  case (1 send_ok k ifs)
  show ?case
  proof (cases "length ifs < OT_BUFFER_SIZE")
    case True
    then show ?thesis by (subst DefaultResourceSend.simps) (simp add: OT_BUFFER_SIZE_def)
  next
    case False
    then have n: "length (take OT_BUFFER_SIZE ifs) = OT_BUFFER_SIZE" by simp
    have "DefaultResourceSend send_ok (Suc k) (drop OT_BUFFER_SIZE ifs) = drop OT_BUFFER_SIZE ifs"
      using "1.prems" n by (intro "1.IH" [OF refl]) (auto simp: OT_BUFFER_SIZE_def)
    then show ?thesis using n "1.prems"
      by (subst DefaultResourceSend.simps) (auto simp: Let_def OT_BUFFER_SIZE_def)
  qed
qed

lemma send_prefix: "prefix (DefaultResourceSend send_ok k ifs) ifs"
proof (induction send_ok k ifs rule: DefaultResourceSend.induct)
  case (1 send_ok k ifs)
  show ?case
  proof (cases "length (take OT_BUFFER_SIZE ifs) = OT_BUFFER_SIZE \<and> send_ok k")
    case True
    then have "prefix (DefaultResourceSend send_ok (Suc k) (drop OT_BUFFER_SIZE ifs)) (drop OT_BUFFER_SIZE ifs)"
      by (intro "1.IH" [OF refl]) (auto simp: OT_BUFFER_SIZE_def)
    then have "prefix (take OT_BUFFER_SIZE ifs @ DefaultResourceSend send_ok (Suc k) (drop OT_BUFFER_SIZE ifs))
      (take OT_BUFFER_SIZE ifs @ drop OT_BUFFER_SIZE ifs)" by (simp only: same_prefix_prefix)
    moreover have "DefaultResourceSend send_ok k ifs
      = take OT_BUFFER_SIZE ifs @ DefaultResourceSend send_ok (Suc k) (drop OT_BUFFER_SIZE ifs)"
      using True by (subst DefaultResourceSend.simps) (auto simp: Let_def OT_BUFFER_SIZE_def)
    ultimately show ?thesis by simp
  next
    case False
    then show ?thesis by (subst DefaultResourceSend.simps) (auto simp: Let_def take_is_prefix)
  qed
qed



end
