(* ===== verification/CmdLine.thy ===== *)
theory CmdLine
  imports Constants HexCodec Logging PskcGen
begin

text \<open>
  \<open>commissioner/commissioner_argcargv.cpp\<close>: the command line of the stand-alone commissioner.

  \<open>cmd_args\<close> is the \<open>CommissionerArgs\<close> the caller passes, whatever it holds; a character array is
  \<open>None\<close> until it is written.  \<open>mErr\<close> is what has been printed on \<open>stderr\<close>, \<open>mLog\<close> the global state
  of the log.  The table of options is the list of the entries in use.  Handlers answer 1 for an
  error, 0 otherwise, and every usage error prints the table.
\<close>

section \<open>State\<close>

definition PATH_MAX :: nat where "PATH_MAX = 4096"
definition max_opts :: nat where "max_opts = 40"

record cmd_args =
  mAgentPort_ascii :: "string option"
  mAgentAddress_ascii :: "string option"
  mJoinerHashmacAscii :: "string option"
  mJoinerHashmacBin :: "byte list"
  mHasJoinerHashMac :: bool
  mJoinerEui64Ascii :: "string option"
  mJoinerEui64Bin :: "byte list"
  mAllowAllJoiners :: bool
  mJoinerPSKdAscii :: "string option"
  mSteeringLength :: int
  mNeedSendCommKA :: bool
  mSendCommKATxRate :: int
  mEnvelopeTimeout :: int
  mPSKcAscii :: "string option"
  mPSKcBin :: "byte list"
  mHasPSKc :: bool
  mXpanidAscii :: "string option"
  mXpanidBin :: "byte list"
  mNetworkName :: "string option"
  mPassPhrase :: "string option"
  mNeedComputePSKc :: bool
  mNeedComputeJoinerHashMac :: bool
  mNeedComputeJoinerSteering :: bool
  mNeedCommissionDevice :: bool
  mDebugLevel :: int

text \<open>The handler functions.\<close>

datatype arg_handler =
  H_eui64 | H_pskd | H_netname | H_xpanid | H_agent_passphrase | H_ip_addr | H_ip_port | H_pskc_bin |
  H_hashmac | H_steering_length | H_allow_all_joiners | H_log_filename | H_compute_pskc |
  H_compute_hashmac | H_compute_steering | H_comm_ka_disabled | H_comm_ka_rate | H_no_syslog |
  H_comm_envelope_timeout | H_commission_device | H_debug_level

record argc_argv_opt =
  opt_name :: string
  opt_handler :: arg_handler
  opt_valuehelp :: string
  opt_helptext :: string

record argc_argv =
  mARGV :: "string list"
  mARGx :: nat
  arg_values :: cmd_args
  mOpts :: "argc_argv_opt list"
  mErr :: string
  mLog :: logger

definition mARGC :: "argc_argv \<Rightarrow> nat" where
  "mARGC st = length (mARGV st)"

definition new_ArgcArgv :: "string list \<Rightarrow> cmd_args \<Rightarrow> string \<Rightarrow> logger \<Rightarrow> argc_argv" where
  "new_ArgcArgv argv user_args err lg =
     \<lparr>mARGV = argv, mARGx = 1, arg_values = user_args, mOpts = [], mErr = err, mLog = lg\<rparr>"

text \<open>
  The search for a free entry ends at the first one, or leaves \<open>opt\<close> at the last entry of a full
  table, which is overwritten after the message.
\<close>

definition AddOption ::
  "u64 \<Rightarrow> string \<Rightarrow> arg_handler \<Rightarrow> string \<Rightarrow> string \<Rightarrow> argc_argv \<Rightarrow> argc_argv res" where
  "AddOption now name handler valuehelp helptext st =
     (let opt = \<lparr>opt_name = name, opt_handler = handler, opt_valuehelp = valuehelp, opt_helptext = helptext\<rparr> in
      if length (mOpts st) < max_opts then Ok (st\<lparr>mOpts := mOpts st @ [opt]\<rparr>)
      else rbind (otbrLog now OTBR_LOG_ERR (''internal error: Too many cmdline opts!'' @ [CHR 0x0A]) (mLog st)) (\<lambda>lg.
        Ok (st\<lparr>mOpts := (mOpts st)[max_opts - 1 := opt], mLog := lg\<rparr>)))"

section \<open>Usage\<close>

definition int_string :: "int \<Rightarrow> string" where
  "int_string n = (if n < 0 then CHR ''-'' # dec_string (nat (- n)) else dec_string (nat n))"

definition put_err :: "string \<Rightarrow> argc_argv \<Rightarrow> argc_argv" where
  "put_err s st = st\<lparr>mErr := mErr st @ s\<rparr>"

definition put_line :: "string \<Rightarrow> argc_argv \<Rightarrow> argc_argv" where
  "put_line s st = put_err (s @ [CHR 0x0A]) st"

text \<open>\<open>%*s\<close> with the width \<open>30 - n\<close>: a negative width pads on the other side of the empty text.\<close>

definition opt_line :: "argc_argv_opt \<Rightarrow> string" where
  "opt_line opt =
     (let name = ''    '' @ opt_name opt @ '' '' @ opt_valuehelp opt;
          n = int (length name)
      in name @ replicate (nat \<bar>30 - n\<bar>) CHR '' '' @ opt_helptext opt)"

text \<open>The loop over the table needs an entry that is not in use to stop at.\<close>

definition usage :: "string \<Rightarrow> argc_argv \<Rightarrow> argc_argv res" where
  "usage message st =
     (if mARGV st = [] then Fault NullDeref
      else
        let st1 = fold put_line [[], ''Usage: '' @ hd (mARGV st) @ '' OPTIONS....'', [], ''Where OPTIONS are:'', []]
              (put_err message st);
            st2 = fold (\<lambda>opt. put_line (opt_line opt)) (mOpts st1) st1
        in if length (mOpts st) \<ge> max_opts then Fault OutOfBounds
           else Ok (fold put_line
             [[], ''Note the order of options is important'',
              ''Example, the option --compute-pskc, has prerequistes of'', ''   --network-name NAME'',
              ''   --xpanid VALUE'', ''   --agent-passphrase VALUE'', []] st2))"

definition usage_error :: "string \<Rightarrow> 'a \<Rightarrow> argc_argv \<Rightarrow> ('a \<times> argc_argv) res" where
  "usage_error message v st = map_res (Pair v) (usage message st)"

section \<open>Parameters\<close>

text \<open>\<open>mARGV[mARGx - 2]\<close> and \<open>mARGV[mARGx - 1]\<close> in the messages.\<close>

definition arg_back :: "nat \<Rightarrow> argc_argv \<Rightarrow> string" where
  "arg_back k st = mARGV st ! (mARGx st - k)"

definition newline :: string where "newline = [CHR 0x0A]"

text \<open>The text of the parameter; what is saved where is left to the caller.\<close>

definition StrParam :: "nat \<Rightarrow> argc_argv \<Rightarrow> (string option \<times> argc_argv) res" where
  "StrParam bufsiz st0 =
     (let st = st0\<lparr>mARGx := mARGx st0 + 1\<rparr> in
      if mARGx st > mARGC st then usage_error (''Missing: '' @ arg_back 2 st @ '' VALUE'' @ newline) None st
      else let cp = arg_back 1 st in
           if length cp + 1 > bufsiz
           then usage_error (''Too long: '' @ arg_back 2 st @ '' '' @ cp @ newline) None st
           else Ok (Some cp, st))"

text \<open>The result (1 on error), the new text and the new bytes.\<close>

definition HexParam ::
  "string option \<Rightarrow> byte list \<Rightarrow> nat \<Rightarrow> argc_argv \<Rightarrow> ((int \<times> string option \<times> byte list) \<times> argc_argv) res" where
  "HexParam ascii bin bin_len st =
     rbind (StrParam (bin_len * 2 + 1) st) (\<lambda>(p, st1).
       case p of
         None \<Rightarrow> Ok ((1, ascii, bin), st1)
       | Some cp \<Rightarrow>
           (case Hex2Bytes cp bin bin_len of
              (n, bin') \<Rightarrow>
                if n \<noteq> int bin_len
                then usage_error (''Param: '' @ arg_back 2 st1 @ '', invalid hex value '' @ arg_back 1 st1 @ newline)
                       (1, Some cp, bin') st1
                else Ok ((0, Some cp, bin'), st1)))"

text \<open>
  \<open>strtol(s, &ep, 0)\<close> of C11 on a 64-bit \<open>long\<close>: white space, a sign, the base by prefix, the digits, the
  value saturated.  The result is the value and the text at \<open>ep\<close>, the whole \<open>s\<close> when there is no
  number; \<open>0x\<close> without a digit is the number 0 followed by \<open>x\<close>.
\<close>

definition is_space :: "char \<Rightarrow> bool" where
  "is_space c \<longleftrightarrow> c = CHR '' '' \<or> c \<in> {CHR 0x09, CHR 0x0A, CHR 0x0B, CHR 0x0C, CHR 0x0D}"

definition char_between :: "char \<Rightarrow> char \<Rightarrow> char \<Rightarrow> bool" where
  "char_between lo hi c \<longleftrightarrow> (of_char lo :: nat) \<le> of_char c \<and> (of_char c :: nat) \<le> of_char hi"

definition digit_val :: "char \<Rightarrow> nat option" where
  "digit_val c =
     (let v = (of_char c :: nat) in
      if char_between CHR ''0'' CHR ''9'' c then Some (v - 48)
      else if char_between CHR ''A'' CHR ''Z'' c then Some (v - 55)
      else if char_between CHR ''a'' CHR ''z'' c then Some (v - 87)
      else None)"

definition base_digit :: "nat \<Rightarrow> char \<Rightarrow> nat option" where
  "base_digit base c = (case digit_val c of None \<Rightarrow> None | Some d \<Rightarrow> if d < base then Some d else None)"

fun digits_loop :: "nat \<Rightarrow> nat \<Rightarrow> string \<Rightarrow> nat \<times> string" where
  "digits_loop base acc [] = (acc, [])"
| "digits_loop base acc (c # cs) =
     (case base_digit base c of
        None \<Rightarrow> (acc, c # cs)
      | Some d \<Rightarrow> digits_loop base (acc * base + d) cs)"

definition LONG_MAX :: int where "LONG_MAX = 2 ^ 63 - 1"
definition LONG_MIN :: int where "LONG_MIN = - (2 ^ 63)"

fun strtol_prefix :: "string \<Rightarrow> nat \<times> string" where
  "strtol_prefix (z # x # d # cs) =
     (if z = CHR ''0''
      then if x \<in> {CHR ''x'', CHR ''X''} \<and> base_digit 16 d \<noteq> None then (16, d # cs) else (8, z # x # d # cs)
      else (10, z # x # d # cs))"
| "strtol_prefix (z # cs) = (if z = CHR ''0'' then 8 else 10, z # cs)"
| "strtol_prefix [] = (10, [])"

definition strtol :: "string \<Rightarrow> int \<times> string" where
  "strtol s =
     (let s1 = dropWhile is_space s;
          negative = (s1 \<noteq> [] \<and> hd s1 = CHR ''-'');
          s2 = (if s1 \<noteq> [] \<and> hd s1 \<in> {CHR ''-'', CHR ''+''} then tl s1 else s1)
      in case strtol_prefix s2 of
           (base, s3) \<Rightarrow>
             (case digits_loop base 0 s3 of
                (v, rest) \<Rightarrow>
                  if rest = s3 then (0, s)
                  else (max LONG_MIN (min LONG_MAX (if negative then - int v else int v)), rest)))"

text \<open>The conversion of the \<open>long\<close> to \<open>int\<close>.\<close>

definition to_int :: "int \<Rightarrow> int" where
  "to_int v = sint (word_of_int v :: u32)"

definition NumParam :: "argc_argv \<Rightarrow> (int \<times> argc_argv) res" where
  "NumParam st =
     rbind (StrParam 100 st) (\<lambda>(p, st1).
       case p of
         None \<Rightarrow> Ok (-1, st1)
       | Some s \<Rightarrow>
           (case strtol s of
              (v, ep) \<Rightarrow>
                if ep = s \<or> ep \<noteq> []
                then usage_error (''Not a number: '' @ arg_back 2 st1 @ '' '' @ arg_back 1 st1 @ newline) (-1) st1
                else Ok (to_int v, st1)))"

section \<open>Handlers\<close>

definition set_values :: "(cmd_args \<Rightarrow> cmd_args) \<Rightarrow> argc_argv \<Rightarrow> argc_argv" where
  "set_values f st = st\<lparr>arg_values := f (arg_values st)\<rparr>"

text \<open>A handler that saves a text, one that sets a flag, one that reads a number in a range.\<close>

definition text_handler ::
  "nat \<Rightarrow> (string \<Rightarrow> cmd_args \<Rightarrow> cmd_args) \<Rightarrow> argc_argv \<Rightarrow> (int \<times> argc_argv) res" where
  "text_handler bufsiz save st =
     rbind (StrParam bufsiz st) (\<lambda>(p, st1).
       case p of None \<Rightarrow> Ok (1, st1) | Some cp \<Rightarrow> Ok (0, set_values (save cp) st1))"

definition hex_handler ::
  "(cmd_args \<Rightarrow> string option) \<Rightarrow> (cmd_args \<Rightarrow> byte list) \<Rightarrow> nat \<Rightarrow> (string option \<Rightarrow> byte list \<Rightarrow> cmd_args \<Rightarrow> cmd_args)
     \<Rightarrow> argc_argv \<Rightarrow> (int \<times> argc_argv) res" where
  "hex_handler ascii bin bin_len save st =
     map_res (\<lambda>((ret, cp, bytes), st1). (ret, set_values (save cp bytes) st1))
       (HexParam (ascii (arg_values st)) (bin (arg_values st)) bin_len st)"

definition number_handler ::
  "(int \<Rightarrow> bool) \<Rightarrow> (int \<Rightarrow> string) \<Rightarrow> (int \<Rightarrow> argc_argv \<Rightarrow> argc_argv res) \<Rightarrow> argc_argv \<Rightarrow> (int \<times> argc_argv) res" where
  "number_handler bad message save st =
     rbind (NumParam st) (\<lambda>(v, st1).
       if v = -1 then Ok (1, st1)
       else if bad v then usage_error (message v) 1 st1
       else map_res (Pair 0) (save v st1))"

text \<open>The characters of a PSKd, and what is wrong with one.\<close>

fun pskd_scan :: "string \<Rightarrow> string option" where
  "pskd_scan [] = None"
| "pskd_scan (ch # cs) =
     (if ch \<in> {CHR ''Z'', CHR ''I'', CHR ''O'', CHR ''Q''} then Some ''Letters I, O, Q and Z are not allowed''
      else if char_between CHR ''A'' CHR ''Z'' ch \<or> char_between CHR ''0'' CHR ''9'' ch then pskd_scan cs
      else Some ''contains non-uppercase or non-digit'')"

definition pskd_whybad :: "string \<Rightarrow> string option" where
  "pskd_whybad s =
     (if length s < 6 \<or> length s > 32 then Some ''invalid length (range: 6..32)'' else pskd_scan s)"

definition handle_pskd :: "argc_argv \<Rightarrow> (int \<times> argc_argv) res" where
  "handle_pskd st =
     rbind (StrParam (kPSKdLength + 1) st) (\<lambda>(p, st1).
       case p of
         None \<Rightarrow> Ok (1, st1)
       | Some s \<Rightarrow>
           (case pskd_whybad s of
              Some whybad \<Rightarrow>
                usage_error (''Illegal PSKd: \"'' @ s @ ''\", '' @ whybad @ newline) 1 st1
            | None \<Rightarrow> Ok (0, set_values (\<lambda>a. a\<lparr>mJoinerPSKdAscii := Some s\<rparr>) st1)))"

definition handle_log_filename :: "(string \<Rightarrow> bool) \<Rightarrow> argc_argv \<Rightarrow> (int \<times> argc_argv) res" where
  "handle_log_filename fopen_ok st =
     rbind (StrParam PATH_MAX st) (\<lambda>(p, st1).
       case p of
         None \<Rightarrow> Ok (1, st1)
       | Some filename \<Rightarrow>
           map_res (\<lambda>lg. (0, st1\<lparr>mLog := lg\<rparr>)) (otbrLogSetFilename (fopen_ok filename) (mLog st1)))"

definition handle_debug_level :: "argc_argv \<Rightarrow> (int \<times> argc_argv) res" where
  "handle_debug_level =
     number_handler (\<lambda>n. n < OTBR_LOG_EMERG)
       (\<lambda>n. ''invalid log level, must be >= '' @ int_string OTBR_LOG_EMERG @ newline)
       (\<lambda>n st. map_res (\<lambda>lg. st\<lparr>mLog := lg\<rparr>)
          (otbrLogSetLevel (if n > OTBR_LOG_DEBUG then OTBR_LOG_DEBUG else n) (mLog st)))"

definition handle_steering_length :: "argc_argv \<Rightarrow> (int \<times> argc_argv) res" where
  "handle_steering_length =
     number_handler (\<lambda>v. v < 1 \<or> v > 16) (\<lambda>v. ''invalid steering length: '' @ int_string v)
       (\<lambda>v st. Ok (set_values (\<lambda>a. a\<lparr>mSteeringLength := v\<rparr>) st))"

definition handle_comm_ka_rate :: "argc_argv \<Rightarrow> (int \<times> argc_argv) res" where
  "handle_comm_ka_rate =
     number_handler (\<lambda>n. n < 3 \<or> n > 86400)
       (\<lambda>n. ''comm-ka rate must be (n>3) && (n < 86400), not: '' @ int_string n @ newline)
       (\<lambda>n st. Ok (set_values (\<lambda>a. a\<lparr>mSendCommKATxRate := n\<rparr>) st))"

definition handle_comm_envelope_timeout :: "argc_argv \<Rightarrow> (int \<times> argc_argv) res" where
  "handle_comm_envelope_timeout =
     number_handler (\<lambda>n. n < 1 \<or> n > 86400)
       (\<lambda>n. ''Invalid envelope time, range: 1 <= n <= 86400, not '' @ int_string n @ newline)
       (\<lambda>n st. Ok (set_values (\<lambda>a. a\<lparr>mEnvelopeTimeout := n\<rparr>) st))"

definition flag_handler :: "(cmd_args \<Rightarrow> cmd_args) \<Rightarrow> argc_argv \<Rightarrow> (int \<times> argc_argv) res" where
  "flag_handler f st = Ok (0, set_values f st)"

definition handle_ip_addr :: "argc_argv \<Rightarrow> (int \<times> argc_argv) res" where
  "handle_ip_addr =
     text_handler kIPAddrNameBufSize (\<lambda>s a. a\<lparr>mAgentAddress_ascii := Some s\<rparr>)"

definition handle_ip_port :: "argc_argv \<Rightarrow> (int \<times> argc_argv) res" where
  "handle_ip_port =
     text_handler kPortNameBufSize (\<lambda>s a. a\<lparr>mAgentPort_ascii := Some s\<rparr>)"

definition handle_hashmac :: "argc_argv \<Rightarrow> (int \<times> argc_argv) res" where
  "handle_hashmac =
     hex_handler mJoinerHashmacAscii mJoinerHashmacBin kEui64Len
       (\<lambda>s b a. a\<lparr>mJoinerHashmacAscii := s, mJoinerHashmacBin := b\<rparr>)"

definition handle_eui64 :: "argc_argv \<Rightarrow> (int \<times> argc_argv) res" where
  "handle_eui64 =
     hex_handler mJoinerEui64Ascii mJoinerEui64Bin kEui64Len
       (\<lambda>s b a. a\<lparr>mJoinerEui64Ascii := s, mJoinerEui64Bin := b\<rparr>)"

definition handle_pskc_bin :: "argc_argv \<Rightarrow> (int \<times> argc_argv) res" where
  "handle_pskc_bin st =
     map_res (\<lambda>(ret, st1). if ret = 0 then (0, set_values (\<lambda>a. a\<lparr>mHasPSKc := True\<rparr>) st1) else (1, st1))
       (hex_handler mPSKcAscii mPSKcBin OT_PSKC_LENGTH (\<lambda>s b a. a\<lparr>mPSKcAscii := s, mPSKcBin := b\<rparr>) st)"

definition handle_xpanid :: "argc_argv \<Rightarrow> (int \<times> argc_argv) res" where
  "handle_xpanid =
     hex_handler mXpanidAscii mXpanidBin kXpanidLength (\<lambda>s b a. a\<lparr>mXpanidAscii := s, mXpanidBin := b\<rparr>)"

definition handle_netname :: "argc_argv \<Rightarrow> (int \<times> argc_argv) res" where
  "handle_netname =
     text_handler (kNetworkNameLenMax + 1) (\<lambda>s a. a\<lparr>mNetworkName := Some s\<rparr>)"

definition handle_agent_passphrase :: "argc_argv \<Rightarrow> (int \<times> argc_argv) res" where
  "handle_agent_passphrase =
     text_handler (kBorderRouterPassPhraseLen + 1) (\<lambda>s a. a\<lparr>mPassPhrase := Some s\<rparr>)"

definition handle_compute_pskc :: "argc_argv \<Rightarrow> (int \<times> argc_argv) res" where
  "handle_compute_pskc =
     flag_handler (\<lambda>a. a\<lparr>mNeedComputePSKc := True\<rparr>)"

definition handle_commission_device :: "argc_argv \<Rightarrow> (int \<times> argc_argv) res" where
  "handle_commission_device =
     flag_handler (\<lambda>a. a\<lparr>mNeedCommissionDevice := True\<rparr>)"

definition handle_compute_hashmac :: "argc_argv \<Rightarrow> (int \<times> argc_argv) res" where
  "handle_compute_hashmac =
     flag_handler (\<lambda>a. a\<lparr>mNeedComputeJoinerHashMac := True\<rparr>)"

definition handle_compute_steering :: "argc_argv \<Rightarrow> (int \<times> argc_argv) res" where
  "handle_compute_steering =
     flag_handler (\<lambda>a. a\<lparr>mNeedComputeJoinerSteering := True\<rparr>)"

definition handle_allow_all_joiners :: "argc_argv \<Rightarrow> (int \<times> argc_argv) res" where
  "handle_allow_all_joiners =
     flag_handler (\<lambda>a. a\<lparr>mAllowAllJoiners := True\<rparr>)"

definition handle_comm_ka_disabled :: "argc_argv \<Rightarrow> (int \<times> argc_argv) res" where
  "handle_comm_ka_disabled =
     flag_handler (\<lambda>a. a\<lparr>mNeedSendCommKA := False\<rparr>)"

definition handle_no_syslog :: "argc_argv \<Rightarrow> (int \<times> argc_argv) res" where
  "handle_no_syslog st = Ok (0, st\<lparr>mLog := otbrLogEnableSyslog False (mLog st)\<rparr>)"

lemmas plain_handlers = handle_ip_addr_def handle_ip_port_def handle_hashmac_def handle_eui64_def
  handle_pskc_bin_def handle_xpanid_def handle_netname_def handle_agent_passphrase_def
  handle_compute_pskc_def handle_commission_device_def handle_compute_hashmac_def
  handle_compute_steering_def handle_allow_all_joiners_def handle_comm_ka_disabled_def handle_no_syslog_def

text \<open>The call \<open>(*(opt->handler))(this, args)\<close>.\<close>

fun run_handler :: "(string \<Rightarrow> bool) \<Rightarrow> arg_handler \<Rightarrow> argc_argv \<Rightarrow> (int \<times> argc_argv) res" where
  "run_handler fopen_ok H_eui64 = handle_eui64"
| "run_handler fopen_ok H_pskd = handle_pskd"
| "run_handler fopen_ok H_netname = handle_netname"
| "run_handler fopen_ok H_xpanid = handle_xpanid"
| "run_handler fopen_ok H_agent_passphrase = handle_agent_passphrase"
| "run_handler fopen_ok H_ip_addr = handle_ip_addr"
| "run_handler fopen_ok H_ip_port = handle_ip_port"
| "run_handler fopen_ok H_pskc_bin = handle_pskc_bin"
| "run_handler fopen_ok H_hashmac = handle_hashmac"
| "run_handler fopen_ok H_steering_length = handle_steering_length"
| "run_handler fopen_ok H_allow_all_joiners = handle_allow_all_joiners"
| "run_handler fopen_ok H_log_filename = handle_log_filename fopen_ok"
| "run_handler fopen_ok H_compute_pskc = handle_compute_pskc"
| "run_handler fopen_ok H_compute_hashmac = handle_compute_hashmac"
| "run_handler fopen_ok H_compute_steering = handle_compute_steering"
| "run_handler fopen_ok H_comm_ka_disabled = handle_comm_ka_disabled"
| "run_handler fopen_ok H_comm_ka_rate = handle_comm_ka_rate"
| "run_handler fopen_ok H_no_syslog = handle_no_syslog"
| "run_handler fopen_ok H_comm_envelope_timeout = handle_comm_envelope_timeout"
| "run_handler fopen_ok H_commission_device = handle_commission_device"
| "run_handler fopen_ok H_debug_level = handle_debug_level"

section \<open>Parsing\<close>

text \<open>\<open>ArgcArgv::ParseArgs\<close>, one option: -1 at the end, 1 on an error or for help.\<close>

definition parse_one :: "(string \<Rightarrow> bool) \<Rightarrow> argc_argv \<Rightarrow> (int \<times> argc_argv) res" where
  "parse_one fopen_ok st =
     (if mARGx st \<ge> mARGC st then Ok (-1, st)
      else let arg = mARGV st ! mARGx st; st1 = st\<lparr>mARGx := mARGx st + 1\<rparr> in
        if arg \<in> {''-h'', ''-?'', ''-help'', ''--help''} then usage_error (''Help...'' @ newline) 1 st1
        else (case find (\<lambda>opt. opt_name opt = arg) (mOpts st1) of
                None \<Rightarrow>
                  if length (mOpts st1) \<ge> max_opts then Fault OutOfBounds
                  else usage_error (''Unknown option: '' @ arg) 1 st1
              | Some opt \<Rightarrow>
                  map_res (\<lambda>(ret, st2). (if ret \<noteq> 0 then 1 else 0, st2)) (run_handler fopen_ok (opt_handler opt) st1)))"

definition default_args :: "cmd_args \<Rightarrow> cmd_args" where
  "default_args a = a\<lparr>mEnvelopeTimeout := 5 * 60, mAllowAllJoiners := False, mNeedSendCommKA := True,
     mSendCommKATxRate := 15, mSteeringLength := int kSteeringDefaultLength, mNeedComputePSKc := False,
     mNeedComputeJoinerSteering := False, mNeedComputeJoinerHashMac := False, mNeedCommissionDevice := True,
     mHasPSKc := False\<rparr>"

definition option_list :: "(string \<times> arg_handler \<times> string \<times> string) list" where
  "option_list =
     [(''--joiner-eui64'', H_eui64, ''VALUE'', ''joiner EUI64 value''),
      (''--joiner-passphrase'', H_pskd, ''VALUE'', ''PSKd for joiner''),
      (''--network-name'', H_netname, ''VALUE'', ''UTF8 encoded network name''),
      (''--xpanid'', H_xpanid, ''VALUE'', ''xpanid in hex''),
      (''--agent-passphrase'', H_agent_passphrase, ''VALUE'', ''Pass phrase for agent''),
      (''--agent-addr'', H_ip_addr, ''VALUE'', ''ip address of border router agent''),
      (''--agent-port'', H_ip_port, ''VALUE'', ''ip port used by border router agent''),
      (''--pskc-bin'', H_pskc_bin, ''VALUE'', ''Precomputed PSKc in hex notation''),
      (''--hashmac'', H_hashmac, ''VALUE'', ''joiner HASHMAC value''),
      (''--steering-length'', H_steering_length, ''NUMBER'', ''Length of steering data 1..15''),
      (''--allow-all-joiners'', H_allow_all_joiners, '''', ''Allow any device to join''),
      (''--log-filename'', H_log_filename, ''FILENAME'', ''set logfilename''),
      (''--compute-pskc'', H_compute_pskc, '''', ''compute and print the pskc from parameters''),
      (''--compute-hashmac'', H_compute_hashmac, '''', ''compute and print the hashmac of the given eui64''),
      (''--compute-steering'', H_compute_steering, '''', ''compute and print steering data''),
      (''--comm-ka-disabled'', H_comm_ka_disabled, '''', ''Disable COMM_KA transmissions''),
      (''--comm-ka-rate'', H_comm_ka_rate, '''', ''Set COMM_KA transmission rate''),
      (''--disable-syslog'', H_no_syslog, '''', ''Disable log via syslog''),
      (''--comm-envelope-timeout'', H_comm_envelope_timeout, ''VALUE'',
         ''Set the total envelope timeout for commissioning''),
      (''--commission-device'', H_commission_device, '''', ''Enable device commissioning''),
      (''--debug-level'', H_debug_level, ''NUMBER'', ''Enable debug output at level VALUE (higher=more)'')]"

definition add_options :: "u64 \<Rightarrow> argc_argv \<Rightarrow> argc_argv res" where
  "add_options now =
     fold_res (\<lambda>(name, handler, valuehelp, helptext). AddOption now name handler valuehelp helptext) option_list"

text \<open>
  The loop of \<open>ParseArgs\<close>: \<open>None\<close> when it does not end.  \<open>ParseArgs\<close> answers 0 or 1 and leaves
  the values in the caller's structure.
\<close>

partial_function (option) parse_loop :: "(string \<Rightarrow> bool) \<Rightarrow> argc_argv \<Rightarrow> (int \<times> argc_argv) res option" where
  "parse_loop fopen_ok st =
     (case parse_one fopen_ok st of
        Fault e \<Rightarrow> Some (Fault e)
      | Ok (ret, st1) \<Rightarrow>
          if ret = -1 then Some (Ok (0, st1))
          else if ret = 1 then Some (Ok (1, st1))
          else parse_loop fopen_ok st1)"

definition ParseArgs ::
  "u64 \<Rightarrow> (string \<Rightarrow> bool) \<Rightarrow> string list \<Rightarrow> cmd_args \<Rightarrow> string \<Rightarrow> logger \<Rightarrow> (int \<times> argc_argv) res option" where
  "ParseArgs now fopen_ok argv user_args err lg =
     (case add_options now (set_values default_args (new_ArgcArgv argv user_args err lg)) of
        Fault e \<Rightarrow> Some (Fault e)
      | Ok st \<Rightarrow>
          if length argv = 1 then Some (usage_error (''No parameters!'' @ newline) 1 st)
          else parse_loop fopen_ok st)"

section \<open>What a step keeps\<close>

text \<open>The parser can print its usage message: there is a program name, and room in the table.\<close>

definition can_report :: "argc_argv \<Rightarrow> bool" where
  "can_report st \<longleftrightarrow> mARGV st \<noteq> [] \<and> length (mOpts st) < max_opts"

text \<open>The values a caller can rely on.\<close>

definition fits :: "nat \<Rightarrow> string option \<Rightarrow> bool" where
  "fits cap x \<longleftrightarrow> (case x of None \<Rightarrow> True | Some s \<Rightarrow> length s < cap)"

definition pskd_ok :: "string \<Rightarrow> bool" where
  "pskd_ok s \<longleftrightarrow> 6 \<le> length s \<and> length s \<le> 32
     \<and> (\<forall>c\<in>set s. c \<in> set ''0123456789ABCDEFGHJKLMNPRSTUVWXY'')"

definition args_typed :: "cmd_args \<Rightarrow> bool" where
  "args_typed a \<longleftrightarrow>
     fits 6 (mAgentPort_ascii a) \<and> fits 46 (mAgentAddress_ascii a)
     \<and> fits 17 (mJoinerHashmacAscii a) \<and> length (mJoinerHashmacBin a) = 8
     \<and> fits 17 (mJoinerEui64Ascii a) \<and> length (mJoinerEui64Bin a) = 8
     \<and> (\<forall>s. mJoinerPSKdAscii a = Some s \<longrightarrow> pskd_ok s)
     \<and> fits 33 (mPSKcAscii a) \<and> length (mPSKcBin a) = 16
     \<and> fits 17 (mXpanidAscii a) \<and> length (mXpanidBin a) = 8
     \<and> fits 17 (mNetworkName a) \<and> fits 65 (mPassPhrase a)
     \<and> 1 \<le> mSteeringLength a \<and> mSteeringLength a \<le> 16
     \<and> 3 \<le> mSendCommKATxRate a \<and> mSendCommKATxRate a \<le> 86400
     \<and> 1 \<le> mEnvelopeTimeout a \<and> mEnvelopeTimeout a \<le> 86400"

definition state_typed :: "argc_argv \<Rightarrow> bool" where
  "state_typed st \<longleftrightarrow> args_typed (arg_values st) \<and> level_ok (sLevel (mLog st))"

text \<open>
  A step that reads parameters: it goes forward on the same line and keeps the types.  It may
  end the program when \<open>ab\<close>, that is, when a log file cannot be opened.
\<close>

definition step_to :: "argc_argv \<Rightarrow> argc_argv \<Rightarrow> bool" where
  "step_to st st' \<longleftrightarrow> mARGV st' = mARGV st \<and> mOpts st' = mOpts st \<and> mARGx st \<le> mARGx st'
     \<and> (state_typed st \<longrightarrow> state_typed st')"

definition step_ok :: "bool \<Rightarrow> argc_argv \<Rightarrow> (int \<times> argc_argv) res \<Rightarrow> bool" where
  "step_ok ab st r \<longleftrightarrow>
     (case r of Ok (ret, st') \<Rightarrow> ret \<in> {0, 1} \<and> step_to st st' | Fault e \<Rightarrow> ab \<and> e = Aborted)"

lemma step_okI: "ret \<in> {0, 1} \<Longrightarrow> step_to st st' \<Longrightarrow> step_ok ab st (Ok (ret, st'))"
  by (simp add: step_ok_def)

lemma put_err_fields [simp]:
  "mARGV (put_err s st) = mARGV st" "mOpts (put_err s st) = mOpts st"
  "put_err s (put_err t st) = put_err (t @ s) st" "arg_values (put_err s st) = arg_values st"
  by (simp_all add: put_err_def)

lemma fold_put_line: "\<exists>s. fold (\<lambda>x. put_line (f x)) xs (put_err t st) = put_err s st"
  by (induction xs arbitrary: t) (auto simp: put_line_def)

lemma fold_put_line': "\<exists>s. fold put_line xs (put_err t st) = put_err s st"
  using fold_put_line [of id xs t st] by (simp add: id_def)

lemma usage_eq:
  assumes "can_report st"
  shows "\<exists>s. usage message st = Ok (put_err s st)"
proof -
  obtain a where a: "fold put_line [[], ''Usage: '' @ hd (mARGV st) @ '' OPTIONS....'', [], ''Where OPTIONS are:'', []]
      (put_err message st) = put_err a st"
    using fold_put_line' by blast
  obtain b where b: "fold (\<lambda>opt. put_line (opt_line opt)) (mOpts st) (put_err a st) = put_err b st"
    using fold_put_line by blast
  obtain c where c: "fold put_line
      [[], ''Note the order of options is important'', ''Example, the option --compute-pskc, has prerequistes of'',
       ''   --network-name NAME'', ''   --xpanid VALUE'', ''   --agent-passphrase VALUE'', []] (put_err b st) = put_err c st"
    using fold_put_line' by blast
  have "mARGV st \<noteq> []" "\<not> max_opts \<le> length (mOpts st)" using assms by (auto simp: can_report_def)
  then have "usage message st = Ok (put_err c st)"
    by (simp only: usage_def Let_def a b c put_err_fields if_False)
  then show ?thesis by blast
qed

lemma usage_error_eq: "can_report st \<Longrightarrow> \<exists>s. usage_error message v st = Ok (v, put_err s st)"
  using usage_eq [of st message] by (auto simp: usage_error_def)

lemma StrParam_cases:
  assumes "can_report st"
  obtains (missing) s where "StrParam n st = Ok (None, put_err s (st\<lparr>mARGx := mARGx st + 1\<rparr>))"
  | (given) cp where "StrParam n st = Ok (Some cp, st\<lparr>mARGx := mARGx st + 1\<rparr>)"
      "mARGx st < mARGC st" "cp = mARGV st ! mARGx st" "length cp < n"
proof (cases "mARGx st < mARGC st \<and> length (mARGV st ! mARGx st) < n")
  case True
  then have "StrParam n st = Ok (Some (mARGV st ! mARGx st), st\<lparr>mARGx := mARGx st + 1\<rparr>)"
    by (simp add: StrParam_def mARGC_def arg_back_def Let_def)
  with given True show ?thesis by blast
next
  case False
  have "can_report (st\<lparr>mARGx := mARGx st + 1\<rparr>)" using assms by (simp add: can_report_def)
  note report = usage_error_eq [OF this, simplified]
  have "\<exists>s. StrParam n st = Ok (None, put_err s (st\<lparr>mARGx := mARGx st + 1\<rparr>))"
  proof (cases "mARGx st < mARGC st")
    case True
    with False show ?thesis by (simp add: StrParam_def mARGC_def arg_back_def Let_def report)
  next
    case False
    then show ?thesis by (simp add: StrParam_def mARGC_def arg_back_def Let_def report)
  qed
  with missing show ?thesis by blast
qed

lemma step_to_refl: "step_to st st"
  by (simp add: step_to_def)

lemma step_to_trans: "step_to st st' \<Longrightarrow> step_to st' st'' \<Longrightarrow> step_to st st''"
  by (simp add: step_to_def)

lemma step_to_put_err: "step_to st (put_err s st)"
  by (simp add: step_to_def state_typed_def put_err_def)

lemma step_to_next: "step_to st (st\<lparr>mARGx := mARGx st + 1\<rparr>)"
  by (simp add: step_to_def state_typed_def)

lemma step_to_missing: "step_to st (put_err s (st\<lparr>mARGx := Suc (mARGx st)\<rparr>))"
  by (simp add: step_to_def state_typed_def put_err_def)

lemma step_to_set_values:
  "(args_typed (arg_values st) \<Longrightarrow> args_typed (f (arg_values st))) \<Longrightarrow> step_to st (set_values f st)"
  by (simp add: step_to_def state_typed_def set_values_def)

lemma step_to_log: "(level_ok (sLevel (mLog st)) \<Longrightarrow> level_ok (sLevel lg)) \<Longrightarrow> step_to st (st\<lparr>mLog := lg\<rparr>)"
  by (simp add: step_to_def state_typed_def)

lemma can_report_step: "step_to st st' \<Longrightarrow> can_report st \<Longrightarrow> can_report st'"
  by (simp add: step_to_def can_report_def)

text \<open>A parameter that is read, and what is done with it.\<close>

lemma StrParam_step:
  assumes "can_report st"
    and "\<And>st'. step_to st st' \<Longrightarrow> step_ok ab st (f (None, st'))"
    and "\<And>cp st'. step_to st st' \<Longrightarrow> arg_values st' = arg_values st \<Longrightarrow> length cp < n \<Longrightarrow> step_ok ab st (f (Some cp, st'))"
  shows "step_ok ab st (rbind (StrParam n st) f)"
  using assms(1)
proof (cases rule: StrParam_cases [of st n])
  case (missing s)
  with assms(2) show ?thesis using step_to_trans [OF step_to_next step_to_put_err] by auto
next
  case (given cp)
  with assms(3) [OF step_to_next] show ?thesis by simp
qed

lemma usage_error_step:
  assumes "can_report st" and "step_to st st'" and "ret \<in> {0, 1}"
  shows "step_ok ab st (usage_error message ret st')"
  using usage_error_eq [OF can_report_step [OF assms(2,1)], of message ret] assms(3)
    step_to_trans [OF assms(2) step_to_put_err] by (auto simp: step_ok_def)

lemma text_handler_step:
  assumes "can_report st" and "\<And>s. args_typed (arg_values st) \<Longrightarrow> length s < n \<Longrightarrow> args_typed (save s (arg_values st))"
  shows "step_ok ab st (text_handler n save st)"
  unfolding text_handler_def using assms(1)
proof (rule StrParam_step)
  fix cp :: string and st' assume st': "step_to st st'" "arg_values st' = arg_values st" "length cp < n"
  then have "step_to st' (set_values (save cp) st')" using assms(2) by (intro step_to_set_values) simp
  with st'(1) show "step_ok ab st (case (Some cp, st') of (p, st1) \<Rightarrow>
      case p of None \<Rightarrow> Ok (1, st1) | Some cp \<Rightarrow> Ok (0, set_values (save cp) st1))"
    by (auto intro: step_okI step_to_trans)
qed (auto intro: step_okI)

lemma HexParam_result:
  assumes "can_report st" and "n \<le> length bin"
  obtains ret cp b st' where "HexParam ascii bin n st = Ok ((ret, cp, b), st')" "ret \<in> {0, 1}" "step_to st st'"
    "arg_values st' = arg_values st" "length b = length bin" "cp = ascii \<or> fits (n * 2 + 1) cp"
  using assms(1)
proof (cases rule: StrParam_cases [of st "n * 2 + 1"])
  case (missing s)
  then have "HexParam ascii bin n st = Ok ((1, ascii, bin), put_err s (st\<lparr>mARGx := mARGx st + 1\<rparr>))"
    by (simp add: HexParam_def)
  then show thesis
    by (rule that) (simp_all add: step_to_missing)
next
  case (given cp)
  let ?st = "st\<lparr>mARGx := mARGx st + 1\<rparr>"
  obtain m b where b: "Hex2Bytes cp bin n = (m, b)" by fastforce
  then have len: "length b = length bin" using Hex2Bytes_length [OF assms(2), of cp] by simp
  have fit: "fits (n * 2 + 1) (Some cp)" using given by (simp add: fits_def)
  obtain t where t: "usage_error (''Param: '' @ arg_back 2 ?st @ '', invalid hex value '' @ arg_back 1 ?st @ newline)
      (1 :: int, Some cp, b) ?st = Ok ((1, Some cp, b), put_err t ?st)"
    by (rule exE [OF usage_error_eq [OF can_report_step [OF step_to_next assms(1)]]])
  show thesis
  proof (cases "m = int n")
    case True
    with given(1) b have "HexParam ascii bin n st = Ok ((0, Some cp, b), ?st)" by (simp add: HexParam_def)
    then show thesis by (rule that) (simp_all add: len fit [simplified] step_to_next [simplified])
  next
    case False
    with given(1) b t have "HexParam ascii bin n st = Ok ((1, Some cp, b), put_err t ?st)"
      by (simp add: HexParam_def del: append.simps)
    then show thesis
      by (rule that) (simp_all add: len fit [simplified] step_to_missing)
  qed
qed

lemma hex_handler_step:
  assumes "can_report st" and "n \<le> length (bin (arg_values st))"
    and "\<And>s b. args_typed (arg_values st) \<Longrightarrow> fits (n * 2 + 1) s \<or> s = ascii (arg_values st)
      \<Longrightarrow> length b = length (bin (arg_values st)) \<Longrightarrow> args_typed (save s b (arg_values st))"
  shows "step_ok ab st (hex_handler ascii bin n save st)"
proof -
  obtain ret cp b st' where r: "HexParam (ascii (arg_values st)) (bin (arg_values st)) n st = Ok ((ret, cp, b), st')"
    "ret \<in> {0, 1}" "step_to st st'" "arg_values st' = arg_values st" "length b = length (bin (arg_values st))"
    "cp = ascii (arg_values st) \<or> fits (n * 2 + 1) cp"
    using HexParam_result [OF assms(1,2)] by metis
  then have "step_to st' (set_values (save cp b) st')" using assms(3) by (intro step_to_set_values) auto
  with r step_to_trans show ?thesis by (auto simp: hex_handler_def intro!: step_okI)
qed

lemma NumParam_result:
  assumes "can_report st"
  obtains v st' where "NumParam st = Ok (v, st')" "step_to st st'" "arg_values st' = arg_values st" "mLog st' = mLog st"
  using assms
proof (cases rule: StrParam_cases [of st 100])
  case (missing s)
  then have "NumParam st = Ok (-1, put_err s (st\<lparr>mARGx := mARGx st + 1\<rparr>))" by (simp add: NumParam_def)
  then show thesis by (rule that) (simp_all add: step_to_missing, simp add: put_err_def)
next
  case (given cp)
  let ?st = "st\<lparr>mARGx := mARGx st + 1\<rparr>"
  obtain v ep where v: "strtol cp = (v, ep)" by fastforce
  obtain t where t: "usage_error (''Not a number: '' @ arg_back 2 ?st @ '' '' @ arg_back 1 ?st @ newline)
      (-1 :: int) ?st = Ok (-1, put_err t ?st)"
    by (rule exE [OF usage_error_eq [OF can_report_step [OF step_to_next assms]]])
  show thesis
  proof (cases "ep = cp \<or> ep \<noteq> []")
    case True
    with given(1) v t have "NumParam st = Ok (-1, put_err t ?st)" by (auto simp: NumParam_def simp del: append.simps)
    then show thesis by (rule that) (simp_all add: step_to_missing, simp add: put_err_def)
  next
    case False
    with given(1) v have "NumParam st = Ok (to_int v, ?st)" by (auto simp: NumParam_def)
    then show thesis by (rule that) (simp_all add: step_to_next [simplified])
  qed
qed

lemma number_handler_step:
  assumes "can_report st" and "\<And>v. \<not> bad v \<Longrightarrow> args_typed (arg_values st) \<Longrightarrow> args_typed (save v (arg_values st))"
  shows "step_ok ab st (number_handler bad message (\<lambda>v st. Ok (set_values (save v) st)) st)"
proof -
  obtain v st' where r: "NumParam st = Ok (v, st')" "step_to st st'" "arg_values st' = arg_values st"
    using NumParam_result [OF assms(1)] by metis
  have "step_ok ab st (usage_error (message v) 1 st')" using usage_error_step [OF assms(1) r(2)] by simp
  moreover have "step_ok ab st (Ok (0, set_values (save v) st'))" if "\<not> bad v"
    using that assms(2) r by (intro step_okI step_to_trans [OF r(2)] step_to_set_values) simp_all
  ultimately show ?thesis using r by (auto simp: number_handler_def intro: step_okI)
qed

lemma handle_debug_level_step:
  assumes "can_report st"
  shows "step_ok ab st (handle_debug_level st)"
proof -
  obtain v st' where r: "NumParam st = Ok (v, st')" "step_to st st'" "mLog st' = mLog st"
    using NumParam_result [OF assms(1)] by metis
  have u: "step_ok ab st (usage_error m 1 st')" for m using usage_error_step [OF assms(1) r(2)] by simp
  have ok: "step_ok ab st (Ok (0, st'\<lparr>mLog := (mLog st')\<lparr>sLevel := n\<rparr>\<rparr>))" if "level_ok n" for n
    using that by (intro step_okI step_to_trans [OF r(2)] step_to_log) simp_all
  show ?thesis
    using r u ok step_okI [OF _ r(2)]
    by (auto simp: handle_debug_level_def number_handler_def otbrLogSetLevel_def guard_def level_ok_def log_levels)
qed

text \<open>The characters between two others, one by one.\<close>

lemma char_between_chars: "char_between lo hi c \<longleftrightarrow> c \<in> set (map char_of [of_char lo..<Suc (of_char hi)])"
proof -
  have "c \<in> char_of ` {of_char lo..of_char hi :: nat}" if "char_between lo hi c"
    using that unfolding char_between_def by (intro image_eqI [where x = "of_char c"]) simp_all
  moreover have "(of_char (char_of n :: char) :: nat) = n" if "n \<le> of_char hi" for n
    using le_less_trans [OF that nat_of_char_less_256] by (simp add: of_char_of)
  moreover have "set (map char_of [of_char lo..<Suc (of_char hi)]) = (char_of ` {of_char lo..of_char hi :: nat} :: char set)"
    by (simp add: atLeastLessThanSuc_atLeastAtMost del: upt_Suc)
  ultimately show ?thesis by (auto simp: char_between_def)
qed

lemma upper_chars: "char_between CHR ''A'' CHR ''Z'' c \<longleftrightarrow> c \<in> set ''ABCDEFGHIJKLMNOPQRSTUVWXYZ''"
  unfolding char_between_chars by (simp add: upt_rec char_of_def bit_Suc_0_iff)

lemma digit_chars: "char_between CHR ''0'' CHR ''9'' c \<longleftrightarrow> c \<in> set ''0123456789''"
  unfolding char_between_chars by (simp add: upt_rec char_of_def bit_Suc_0_iff)

lemma pskd_char: "pskd_scan [c] = None \<longleftrightarrow> c \<in> set ''0123456789ABCDEFGHJKLMNPRSTUVWXY''"
  by (auto simp: upper_chars digit_chars)

lemma pskd_scan_ok: "pskd_scan s = None \<longleftrightarrow> (\<forall>c\<in>set s. c \<in> set ''0123456789ABCDEFGHJKLMNPRSTUVWXY'')"
proof (induction s)
  case Nil
  then show ?case by simp
next
  case (Cons c s)
  have "pskd_scan (c # s) = None \<longleftrightarrow> pskd_scan [c] = None \<and> pskd_scan s = None" by auto
  with Cons pskd_char show ?case by auto
qed

lemma pskd_whybad_ok: "pskd_whybad s = None \<longleftrightarrow> pskd_ok s"
  by (auto simp: pskd_whybad_def pskd_ok_def pskd_scan_ok)

lemma handle_pskd_step:
  assumes "can_report st"
  shows "step_ok ab st (handle_pskd st)"
  unfolding handle_pskd_def using assms
proof (rule StrParam_step)
  fix st' assume "step_to st st'"
  then show "step_ok ab st (case (None, st') of (p, st1) \<Rightarrow> case p of None \<Rightarrow> Ok (1, st1) | Some s \<Rightarrow>
      (case pskd_whybad s of
         Some whybad \<Rightarrow> usage_error (''Illegal PSKd: \"'' @ s @ ''\", '' @ whybad @ newline) 1 st1
       | None \<Rightarrow> Ok (0, set_values (\<lambda>a. a\<lparr>mJoinerPSKdAscii := Some s\<rparr>) st1)))"
    by (simp add: step_okI)
next
  fix cp st' assume st': "step_to st st'"
  have "step_ok ab st (Ok (0, set_values (\<lambda>a. a\<lparr>mJoinerPSKdAscii := Some cp\<rparr>) st'))" if "pskd_ok cp"
    using that st' by (intro step_okI step_to_trans [OF st'] step_to_set_values) (simp_all add: args_typed_def)
  moreover have "step_ok ab st (usage_error m 1 st')" for m using usage_error_step [OF assms st'] by simp
  ultimately show "step_ok ab st (case (Some cp, st') of (p, st1) \<Rightarrow> case p of None \<Rightarrow> Ok (1, st1) | Some s \<Rightarrow>
      (case pskd_whybad s of
         Some whybad \<Rightarrow> usage_error (''Illegal PSKd: \"'' @ s @ ''\", '' @ whybad @ newline) 1 st1
       | None \<Rightarrow> Ok (0, set_values (\<lambda>a. a\<lparr>mJoinerPSKdAscii := Some s\<rparr>) st1)))"
    by (simp add: pskd_whybad_ok [symmetric] split: option.split del: append.simps)
qed

lemma handle_log_filename_step:
  assumes "can_report st" and "\<exists>f. \<not> fopen_ok f \<Longrightarrow> ab"
  shows "step_ok ab st (handle_log_filename fopen_ok st)"
  unfolding handle_log_filename_def using assms(1)
proof (rule StrParam_step)
  fix cp :: string and st' assume st': "step_to st st'"
  have "step_to st (st'\<lparr>mLog := (mLog st')\<lparr>sLogFp := Some []\<rparr>\<rparr>)"
    by (rule step_to_trans [OF st' step_to_log]) simp
  then show "step_ok ab st (case (Some cp, st') of (p, st1) \<Rightarrow> case p of None \<Rightarrow> Ok (1, st1) | Some filename \<Rightarrow>
      map_res (\<lambda>lg. (0, st1\<lparr>mLog := lg\<rparr>)) (otbrLogSetFilename (fopen_ok filename) (mLog st1)))"
    using assms(2) by (auto simp: otbrLogSetFilename_def step_ok_def)
qed (simp add: step_okI)

lemma flag_handler_step:
  "(args_typed (arg_values st) \<Longrightarrow> args_typed (f (arg_values st))) \<Longrightarrow> step_ok ab st (flag_handler f st)"
  unfolding flag_handler_def by (intro step_okI step_to_set_values) simp_all

lemma hex_pskc_step:
  assumes "can_report st" and "length (mPSKcBin (arg_values st)) = 16"
  shows "step_ok ab st (run_handler fopen_ok H_pskc_bin st)"
proof -
  let ?r = "hex_handler mPSKcAscii mPSKcBin OT_PSKC_LENGTH (\<lambda>s b a. a\<lparr>mPSKcAscii := s, mPSKcBin := b\<rparr>) st"
  have ok: "step_ok ab st ?r"
    using assms by (intro hex_handler_step) (auto simp: args_typed_def OT_PSKC_LENGTH_def)
  have flag: "step_to st' (set_values (\<lambda>a. a\<lparr>mHasPSKc := True\<rparr>) st')" for st'
    by (rule step_to_set_values) (simp add: args_typed_def)
  show ?thesis
  proof (cases ?r)
    case (Ok x)
    with ok obtain ret st' where x: "x = (ret, st')" "ret \<in> {0, 1}" "step_to st st'"
      by (cases x) (auto simp: step_ok_def)
    from Ok x(2,3) flag [of st'] show ?thesis
      by (auto simp: plain_handlers x(1) intro!: step_okI elim: step_to_trans)
  next
    case (Fault e)
    with ok show ?thesis by (simp add: plain_handlers step_ok_def)
  qed
qed

text \<open>The byte arrays of the caller's structure have their size.\<close>

definition arrays_sized :: "cmd_args \<Rightarrow> bool" where
  "arrays_sized a \<longleftrightarrow> length (mJoinerHashmacBin a) = 8 \<and> length (mJoinerEui64Bin a) = 8
     \<and> length (mPSKcBin a) = 16 \<and> length (mXpanidBin a) = 8"

lemma run_handler_step:
  assumes "can_report st" and "arrays_sized (arg_values st)" and "\<exists>f. \<not> fopen_ok f \<Longrightarrow> ab"
  shows "step_ok ab st (run_handler fopen_ok h st)"
proof (cases h)
  case H_pskc_bin
  with assms hex_pskc_step show ?thesis by (simp add: arrays_sized_def)
next
  case H_debug_level
  with handle_debug_level_step [OF assms(1)] show ?thesis by (simp add: plain_handlers)
next
  case H_pskd
  with handle_pskd_step [OF assms(1)] show ?thesis by (simp add: plain_handlers)
next
  case H_log_filename
  with handle_log_filename_step [OF assms(1,3)] show ?thesis by (simp add: plain_handlers)
next
  case H_no_syslog
  have "step_to st (st\<lparr>mLog := otbrLogEnableSyslog False (mLog st)\<rparr>)"
    by (rule step_to_log) (simp add: otbrLogEnableSyslog_def)
  with H_no_syslog show ?thesis by (simp add: plain_handlers step_okI)
qed (use assms(1,2) in \<open>auto simp: plain_handlers handle_steering_length_def handle_comm_ka_rate_def
      handle_comm_envelope_timeout_def arrays_sized_def args_typed_def fits_def kIPAddrNameBufSize_def
      kPortNameBufSize_def kEui64Len_def kXpanidLength_def kNetworkNameLenMax_def kBorderRouterPassPhraseLen_def
      intro!: text_handler_step hex_handler_step number_handler_step flag_handler_step\<close>)

lemma typed_sized: "state_typed st \<Longrightarrow> arrays_sized (arg_values st)"
  by (simp add: state_typed_def args_typed_def arrays_sized_def)

lemma parse_one_end: "mARGx st \<ge> mARGC st \<Longrightarrow> parse_one fopen_ok st = Ok (-1, st)"
  by (simp add: parse_one_def)

lemma parse_one_step:
  assumes "can_report st" and "arrays_sized (arg_values st)" and "mARGx st < mARGC st" and "\<exists>f. \<not> fopen_ok f \<Longrightarrow> ab"
  shows "step_ok ab (st\<lparr>mARGx := mARGx st + 1\<rparr>) (parse_one fopen_ok st)"
proof -
  let ?st = "st\<lparr>mARGx := mARGx st + 1\<rparr>"
  have rep: "can_report ?st" using assms(1) by (simp add: can_report_def)
  have u: "step_ok ab ?st (usage_error m 1 ?st)" for m using usage_error_step [OF rep step_to_refl] by simp
  have h: "step_ok ab ?st (run_handler fopen_ok k ?st)" for k using run_handler_step [OF rep _ assms(4)] assms(2) by simp
  have h': "step_ok ab ?st (map_res (\<lambda>(ret, st2). (if ret \<noteq> 0 then 1 else 0, st2)) (run_handler fopen_ok k ?st))" for k
    using h [of k] by (cases "run_handler fopen_ok k ?st") (auto simp: step_ok_def)
  show ?thesis
    using assms(1,3) u h' by (simp add: parse_one_def Let_def can_report_def split: option.split del: append.simps)
qed

lemma parse_loop_result:
  assumes "can_report st" and "state_typed st"
  shows "parse_loop fopen_ok st = Some (Fault Aborted) \<and> (\<exists>f. \<not> fopen_ok f)
    \<or> (\<exists>ret st'. parse_loop fopen_ok st = Some (Ok (ret, st')) \<and> ret \<in> {0, 1} \<and> step_to st st'
        \<and> (ret = 0 \<longrightarrow> mARGC st \<le> mARGx st'))"
  using assms
proof (induction "mARGC st - mARGx st" arbitrary: st rule: less_induct)
  case less
  show ?case
  proof (cases "mARGx st < mARGC st")
    case False
    then show ?thesis using step_to_refl [of st]
      by (subst (1 2) parse_loop.simps) (simp add: parse_one_end)
  next
    case True
    note step = parse_one_step [OF less.prems(1) typed_sized [OF less.prems(2)] True, of fopen_ok "\<exists>f. \<not> fopen_ok f"]
    show ?thesis
    proof (cases "parse_one fopen_ok st")
      case (Fault e)
      with step show ?thesis by (subst (1 2) parse_loop.simps) (simp add: step_ok_def)
    next
      case (Ok x)
      then obtain ret st1 where x: "x = (ret, st1)" "ret \<in> {0, 1}" "step_to (st\<lparr>mARGx := mARGx st + 1\<rparr>) st1"
        using step by (cases x) (simp add: step_ok_def)
      have to: "step_to st st1" by (rule step_to_trans [OF step_to_next x(3)])
      show ?thesis
      proof (cases "ret = 1")
        case True
        with Ok x(1) to show ?thesis by (subst (1 2) parse_loop.simps) simp
      next
        case False
        have "mARGC st1 = mARGC st" "mARGx st < mARGx st1" using x(3) by (simp_all add: step_to_def mARGC_def)
        then have "mARGC st1 - mARGx st1 < mARGC st - mARGx st" using True by simp
        moreover have "can_report st1" "state_typed st1"
          using can_report_step [OF to] less.prems to by (simp_all add: step_to_def)
        ultimately have "parse_loop fopen_ok st1 = Some (Fault Aborted) \<and> (\<exists>f. \<not> fopen_ok f)
          \<or> (\<exists>ret st'. parse_loop fopen_ok st1 = Some (Ok (ret, st')) \<and> ret \<in> {0, 1} \<and> step_to st1 st'
              \<and> (ret = 0 \<longrightarrow> mARGC st \<le> mARGx st'))"
          using less.hyps \<open>mARGC st1 = mARGC st\<close> by metis
        moreover have "parse_loop fopen_ok st = parse_loop fopen_ok st1"
          using False Ok x(1,2) by (subst parse_loop.simps) simp
        ultimately show ?thesis using step_to_trans [OF to] by auto
      qed
    qed
  qed
qed

definition option_table :: "argc_argv_opt list" where
  "option_table = map (\<lambda>(name, handler, valuehelp, helptext).
     \<lparr>opt_name = name, opt_handler = handler, opt_valuehelp = valuehelp, opt_helptext = helptext\<rparr>) option_list"

lemma add_options_eq: "mOpts st = [] \<Longrightarrow> add_options now st = Ok (st\<lparr>mOpts := option_table\<rparr>)"
proof -
  have "fold_res (\<lambda>(name, handler, valuehelp, helptext). AddOption now name handler valuehelp helptext) opts st
      = Ok (st\<lparr>mOpts := mOpts st @ map (\<lambda>(name, handler, valuehelp, helptext).
     \<lparr>opt_name = name, opt_handler = handler, opt_valuehelp = valuehelp, opt_helptext = helptext\<rparr>) opts\<rparr>)"
    if "length (mOpts st) + length opts < max_opts" for opts st
    using that by (induction opts arbitrary: st) (auto simp: AddOption_def Let_def)
  from this [of st option_list] show "mOpts st = [] \<Longrightarrow> add_options now st = Ok (st\<lparr>mOpts := option_table\<rparr>)"
    by (simp add: add_options_def option_table_def max_opts_def) (simp add: option_list_def)
qed

text \<open>A structure nothing has been written to.\<close>

definition fresh_args :: "cmd_args \<Rightarrow> bool" where
  "fresh_args a \<longleftrightarrow> arrays_sized a
     \<and> (\<forall>f\<in>{mAgentPort_ascii, mAgentAddress_ascii, mJoinerHashmacAscii, mJoinerEui64Ascii, mJoinerPSKdAscii,
           mPSKcAscii, mXpanidAscii, mNetworkName, mPassPhrase}. f a = None)"

lemma fresh_args_typed: "fresh_args a \<Longrightarrow> args_typed (default_args a)"
  by (simp add: fresh_args_def args_typed_def arrays_sized_def default_args_def fits_def kSteeringDefaultLength_def)

lemma ParseArgs_result:
  assumes "argv \<noteq> []" and "fresh_args user_args" and "level_ok (sLevel lg)"
  shows "ParseArgs now fopen_ok argv user_args err lg = Some (Fault Aborted) \<and> (\<exists>f. \<not> fopen_ok f)
    \<or> (\<exists>ret st. ParseArgs now fopen_ok argv user_args err lg = Some (Ok (ret, st)) \<and> ret \<in> {0, 1}
        \<and> state_typed st \<and> mARGV st = argv \<and> (ret = 0 \<longrightarrow> length argv \<le> mARGx st))"
proof -
  define st where "st = (set_values default_args (new_ArgcArgv argv user_args err lg))\<lparr>mOpts := option_table\<rparr>"
  have add: "add_options now (set_values default_args (new_ArgcArgv argv user_args err lg)) = Ok st"
    unfolding st_def by (rule add_options_eq) (simp add: set_values_def new_ArgcArgv_def)
  have fields: "mARGV st = argv" "mARGC st = length argv" "mLog st = lg" "arg_values st = default_args user_args"
    by (simp_all add: st_def set_values_def new_ArgcArgv_def mARGC_def)
  have rep: "can_report st" using assms(1) fields
    by (simp add: can_report_def st_def max_opts_def) (simp add: option_table_def option_list_def)
  have typed: "state_typed st" using assms(2,3) fresh_args_typed fields by (simp add: state_typed_def)
  obtain s where s: "usage_error (''No parameters!'' @ newline) (1 :: int) st = Ok (1, put_err s st)"
    by (rule exE [OF usage_error_eq [OF rep]])
  have "state_typed (put_err s st)" using typed step_to_put_err [of st s] by (simp add: step_to_def)
  then have one: "ParseArgs now fopen_ok argv user_args err lg = Some (Ok (1, put_err s st)) \<and> state_typed (put_err s st)"
    if "length argv = 1"
    using that s by (simp add: ParseArgs_def add del: append.simps)
  have more: "ParseArgs now fopen_ok argv user_args err lg = parse_loop fopen_ok st" if "length argv \<noteq> 1"
    using that by (simp add: ParseArgs_def add)
  show ?thesis
  proof (cases "length argv = 1")
    case True
    with one show ?thesis by (auto simp: fields)
  next
    case False
    with more parse_loop_result [OF rep typed, of fopen_ok] typed show ?thesis
      by (auto simp: step_to_def fields)
  qed
qed

section \<open>Command lines\<close>

text \<open>What a well-formed command line says, how it is written and what it sets.\<close>

datatype arg_item =
  OptEui64 "byte list" | OptPskd string | OptNetworkName string | OptXpanid "byte list" |
  OptPassphrase string | OptAddr string | OptPort string | OptPskcBin "byte list" | OptHashmac "byte list" |
  OptSteering nat | OptAllowAll | OptLogFile string | OptComputePskc | OptComputeHashmac |
  OptComputeSteering | OptKaDisabled | OptKaRate nat | OptNoSyslog | OptEnvelope nat | OptCommission | OptDebug nat

fun item_text :: "arg_item \<Rightarrow> string list" where
  "item_text (OptEui64 b) = [''--joiner-eui64'', Bytes2Hex b]"
| "item_text (OptPskd s) = [''--joiner-passphrase'', s]"
| "item_text (OptNetworkName s) = [''--network-name'', s]"
| "item_text (OptXpanid b) = [''--xpanid'', Bytes2Hex b]"
| "item_text (OptPassphrase s) = [''--agent-passphrase'', s]"
| "item_text (OptAddr s) = [''--agent-addr'', s]"
| "item_text (OptPort s) = [''--agent-port'', s]"
| "item_text (OptPskcBin b) = [''--pskc-bin'', Bytes2Hex b]"
| "item_text (OptHashmac b) = [''--hashmac'', Bytes2Hex b]"
| "item_text (OptSteering n) = [''--steering-length'', dec_string n]"
| "item_text OptAllowAll = [''--allow-all-joiners'']"
| "item_text (OptLogFile s) = [''--log-filename'', s]"
| "item_text OptComputePskc = [''--compute-pskc'']"
| "item_text OptComputeHashmac = [''--compute-hashmac'']"
| "item_text OptComputeSteering = [''--compute-steering'']"
| "item_text OptKaDisabled = [''--comm-ka-disabled'']"
| "item_text (OptKaRate n) = [''--comm-ka-rate'', dec_string n]"
| "item_text OptNoSyslog = [''--disable-syslog'']"
| "item_text (OptEnvelope n) = [''--comm-envelope-timeout'', dec_string n]"
| "item_text OptCommission = [''--commission-device'']"
| "item_text (OptDebug n) = [''--debug-level'', dec_string n]"

fun item_ok :: "(string \<Rightarrow> bool) \<Rightarrow> arg_item \<Rightarrow> bool" where
  "item_ok fopen_ok (OptEui64 b) \<longleftrightarrow> length b = 8"
| "item_ok fopen_ok (OptPskd s) \<longleftrightarrow> pskd_ok s"
| "item_ok fopen_ok (OptNetworkName s) \<longleftrightarrow> length s \<le> 16"
| "item_ok fopen_ok (OptXpanid b) \<longleftrightarrow> length b = 8"
| "item_ok fopen_ok (OptPassphrase s) \<longleftrightarrow> length s \<le> 64"
| "item_ok fopen_ok (OptAddr s) \<longleftrightarrow> length s \<le> 45"
| "item_ok fopen_ok (OptPort s) \<longleftrightarrow> length s \<le> 5"
| "item_ok fopen_ok (OptPskcBin b) \<longleftrightarrow> length b = 16"
| "item_ok fopen_ok (OptHashmac b) \<longleftrightarrow> length b = 8"
| "item_ok fopen_ok (OptSteering n) \<longleftrightarrow> 1 \<le> n \<and> n \<le> 16"
| "item_ok fopen_ok (OptLogFile s) \<longleftrightarrow> length s < 4096 \<and> fopen_ok s"
| "item_ok fopen_ok (OptKaRate n) \<longleftrightarrow> 3 \<le> n \<and> n \<le> 86400"
| "item_ok fopen_ok (OptEnvelope n) \<longleftrightarrow> 1 \<le> n \<and> n \<le> 86400"
| "item_ok fopen_ok (OptDebug n) \<longleftrightarrow> n \<le> 7"
| "item_ok fopen_ok _ \<longleftrightarrow> True"

fun item_values :: "arg_item \<Rightarrow> cmd_args \<Rightarrow> cmd_args" where
  "item_values (OptEui64 b) a = a\<lparr>mJoinerEui64Ascii := Some (Bytes2Hex b), mJoinerEui64Bin := b\<rparr>"
| "item_values (OptPskd s) a = a\<lparr>mJoinerPSKdAscii := Some s\<rparr>"
| "item_values (OptNetworkName s) a = a\<lparr>mNetworkName := Some s\<rparr>"
| "item_values (OptXpanid b) a = a\<lparr>mXpanidAscii := Some (Bytes2Hex b), mXpanidBin := b\<rparr>"
| "item_values (OptPassphrase s) a = a\<lparr>mPassPhrase := Some s\<rparr>"
| "item_values (OptAddr s) a = a\<lparr>mAgentAddress_ascii := Some s\<rparr>"
| "item_values (OptPort s) a = a\<lparr>mAgentPort_ascii := Some s\<rparr>"
| "item_values (OptPskcBin b) a = a\<lparr>mPSKcAscii := Some (Bytes2Hex b), mPSKcBin := b, mHasPSKc := True\<rparr>"
| "item_values (OptHashmac b) a = a\<lparr>mJoinerHashmacAscii := Some (Bytes2Hex b), mJoinerHashmacBin := b\<rparr>"
| "item_values (OptSteering n) a = a\<lparr>mSteeringLength := int n\<rparr>"
| "item_values OptAllowAll a = a\<lparr>mAllowAllJoiners := True\<rparr>"
| "item_values OptComputePskc a = a\<lparr>mNeedComputePSKc := True\<rparr>"
| "item_values OptComputeHashmac a = a\<lparr>mNeedComputeJoinerHashMac := True\<rparr>"
| "item_values OptComputeSteering a = a\<lparr>mNeedComputeJoinerSteering := True\<rparr>"
| "item_values OptKaDisabled a = a\<lparr>mNeedSendCommKA := False\<rparr>"
| "item_values (OptKaRate n) a = a\<lparr>mSendCommKATxRate := int n\<rparr>"
| "item_values (OptEnvelope n) a = a\<lparr>mEnvelopeTimeout := int n\<rparr>"
| "item_values OptCommission a = a\<lparr>mNeedCommissionDevice := True\<rparr>"
| "item_values _ a = a"

fun item_log :: "arg_item \<Rightarrow> logger \<Rightarrow> logger" where
  "item_log (OptLogFile s) lg = lg\<lparr>sLogFp := Some []\<rparr>"
| "item_log OptNoSyslog lg = lg\<lparr>sSyslogEnabled := False\<rparr>"
| "item_log (OptDebug n) lg = lg\<lparr>sLevel := int n\<rparr>"
| "item_log _ lg = lg"

text \<open>Numbers: \<open>strtol\<close> reads back what is printed, saturated.\<close>

lemma less_ten: "(d :: nat) < 10 \<longleftrightarrow> d \<in> {0, 1, 2, 3, 4, 5, 6, 7, 8, 9}"
  by auto

lemma digit_char_val: "d < 10 \<Longrightarrow> base_digit 10 (''0123456789abcdef'' ! d) = Some d"
  by (auto simp: less_ten base_digit_def digit_val_def char_between_def)

lemma dec_char_facts:
  "0 < d \<Longrightarrow> d < 10 \<Longrightarrow> ''0123456789abcdef'' ! d \<notin> {CHR ''0'', CHR ''-'', CHR ''+''} \<and> \<not> is_space (''0123456789abcdef'' ! d)"
  by (auto simp: less_ten is_space_def)

lemma digits_loop_base:
  "digits_loop 10 acc (base_string 10 n @ cs) = digits_loop 10 (acc * 10 ^ length (base_string 10 n) + n) cs"
proof (induction n arbitrary: cs rule: less_induct)
  case (less n)
  show ?case
  proof (cases "n < 10")
    case True
    then have "base_string 10 n = [''0123456789abcdef'' ! n]" by (subst base_string.simps) simp
    with True digit_char_val show ?thesis by simp
  next
    case False
    then have split: "base_string 10 n = base_string 10 (n div 10) @ [''0123456789abcdef'' ! (n mod 10)]"
      by (subst base_string.simps) simp
    have "acc * (10 * 10 ^ k) + n div 10 * 10 + n mod 10 = acc * (10 * 10 ^ k) + n" for k
      by (simp only: add.assoc div_mult_mod_eq)
    with less [of "n div 10"] False digit_char_val [of "n mod 10"] show ?thesis
      by (simp add: split algebra_simps)
  qed
qed

lemma base_string_first: "0 < n \<Longrightarrow> \<exists>d cs. base_string 10 n = (''0123456789abcdef'' ! d) # cs \<and> 0 < d \<and> d < 10"
proof (induction n rule: less_induct)
  case (less n)
  show ?case
  proof (cases "n < 10")
    case True
    then have "base_string 10 n = [''0123456789abcdef'' ! n]" by (subst base_string.simps) simp
    with True less.prems show ?thesis by blast
  next
    case False
    then have "base_string 10 n = base_string 10 (n div 10) @ [''0123456789abcdef'' ! (n mod 10)]"
      by (subst base_string.simps) simp
    moreover have "0 < n div 10" "n div 10 < n" using False by auto
    with less.IH obtain d cs where "base_string 10 (n div 10) = (''0123456789abcdef'' ! d) # cs" "0 < d" "d < 10"
      by blast
    ultimately have "base_string 10 n = (''0123456789abcdef'' ! d) # cs @ [''0123456789abcdef'' ! (n mod 10)]"
      by simp
    with \<open>0 < d\<close> \<open>d < 10\<close> show ?thesis by blast
  qed
qed

lemma strtol_dec: "strtol (dec_string n) = (min LONG_MAX (int n), [])"
proof (cases "n = 0")
  case True
  have "dec_string 0 = ''0''" by (simp add: dec_string_def base_string.simps)
  then show ?thesis using True
    by (simp add: strtol_def is_space_def base_digit_def digit_val_def char_between_def LONG_MIN_def LONG_MAX_def)
next
  case False
  then obtain d cs where d: "dec_string n = (''0123456789abcdef'' ! d) # cs" "0 < d" "d < 10"
    using base_string_first [of n] unfolding dec_string_def by blast
  let ?c = "''0123456789abcdef'' ! d"
  note c = dec_char_facts [OF d(2,3)]
  have "strtol_prefix (?c # cs) = (10, ?c # cs)"
    using c by (cases "(?c # cs)" rule: strtol_prefix.cases) auto
  moreover have "digits_loop 10 0 (?c # cs) = (n, [])"
    using digits_loop_base [of 0 n "[]"] d(1) by (simp add: dec_string_def)
  ultimately show ?thesis
    using c by (simp add: strtol_def d(1) Let_def del: digits_loop.simps) (simp add: LONG_MIN_def LONG_MAX_def)
qed

lemma to_int_small: "0 \<le> v \<Longrightarrow> v < 2 ^ 31 \<Longrightarrow> to_int v = v"
  by (simp add: to_int_def signed_of_int signed_take_bit_int_eq_self)

text \<open>One item at the front of what is left to read.\<close>

lemma option_names: "distinct (map opt_name option_table)"
  by code_simp

lemma find_option:
  "(name, h, v, t) \<in> set option_list
     \<Longrightarrow> find (\<lambda>opt. opt_name opt = name) option_table = Some \<lparr>opt_name = name, opt_handler = h, opt_valuehelp = v, opt_helptext = t\<rparr>"
  using find_distinct [OF option_names, of "\<lparr>opt_name = name, opt_handler = h, opt_valuehelp = v, opt_helptext = t\<rparr>"]
  by (force simp: option_table_def)

lemma parse_one_option:
  assumes "mOpts st = option_table" and "mARGx st < mARGC st" and "(mARGV st ! mARGx st, h, v, t) \<in> set option_list"
  shows "parse_one fopen_ok st = map_res (\<lambda>(ret, st2). (if ret \<noteq> 0 then 1 else 0, st2))
     (run_handler fopen_ok h (st\<lparr>mARGx := mARGx st + 1\<rparr>))"
proof -
  have "mARGV st ! mARGx st \<notin> {''-h'', ''-?'', ''-help'', ''--help''}"
    using assms(3) by (auto simp: option_list_def)
  then show ?thesis using assms(1,2) by (simp add: parse_one_def Let_def find_option [OF assms(3)])
qed

lemma StrParam_given:
  "mARGx st < mARGC st \<Longrightarrow> mARGV st ! mARGx st = cp \<Longrightarrow> length cp < n
     \<Longrightarrow> StrParam n st = Ok (Some cp, st\<lparr>mARGx := mARGx st + 1\<rparr>)"
  by (simp add: StrParam_def mARGC_def arg_back_def Let_def)

lemma text_handler_given:
  "mARGx st < mARGC st \<Longrightarrow> mARGV st ! mARGx st = cp \<Longrightarrow> length cp < n
     \<Longrightarrow> text_handler n save st = Ok (0, set_values (save cp) (st\<lparr>mARGx := mARGx st + 1\<rparr>))"
  by (simp add: text_handler_def StrParam_given)

lemma Hex2Bytes_printed: "length bs = n \<Longrightarrow> length dest = n \<Longrightarrow> Hex2Bytes (Bytes2Hex bs) dest n = (int n, bs)"
  using hex_loop_Bytes2Hex [of bs "[]" "[]"] by (auto simp: Hex2Bytes_def)

lemma hex_handler_given:
  "mARGx st < mARGC st \<Longrightarrow> mARGV st ! mARGx st = Bytes2Hex bs \<Longrightarrow> length bs = n \<Longrightarrow> length (bin (arg_values st)) = n
     \<Longrightarrow> hex_handler ascii bin n save st = Ok (0, set_values (save (Some (Bytes2Hex bs)) bs) (st\<lparr>mARGx := mARGx st + 1\<rparr>))"
  by (simp add: hex_handler_def HexParam_def StrParam_given Hex2Bytes_printed)

lemma NumParam_given:
  assumes "mARGx st < mARGC st" and "mARGV st ! mARGx st = dec_string n" and "length (dec_string n) < 100"
  shows "NumParam st = Ok (to_int (min LONG_MAX (int n)), st\<lparr>mARGx := mARGx st + 1\<rparr>)"
proof -
  have "dec_string n \<noteq> []" by (simp add: dec_string_def)
  with assms show ?thesis by (simp add: NumParam_def StrParam_given strtol_dec)
qed

lemma length_dec_small: "n < 10 ^ k \<Longrightarrow> 0 < k \<Longrightarrow> length (dec_string n) \<le> k"
proof (induction k arbitrary: n)
  case 0
  then show ?case by simp
next
  case (Suc k)
  show ?case
  proof (cases "n < 10")
    case True
    then show ?thesis by (simp add: dec_string_def base_string.simps [of 10 n])
  next
    case False
    with Suc.prems have "k \<noteq> 0" by (cases k) auto
    moreover have "n div 10 < 10 ^ k" using Suc.prems by (simp add: less_mult_imp_div_less mult.commute)
    moreover have "length (dec_string n) = Suc (length (dec_string (n div 10)))"
      using False by (simp add: dec_string_def base_string.simps [of 10 n])
    ultimately show ?thesis using Suc.IH by simp
  qed
qed

lemma NumParam_small:
  assumes "mARGx st < mARGC st" and "mARGV st ! mARGx st = dec_string n" and "n \<le> 86400"
  shows "NumParam st = Ok (int n, st\<lparr>mARGx := mARGx st + 1\<rparr>)"
proof -
  have "length (dec_string n) \<le> 5" using assms(3) by (intro length_dec_small) simp_all
  then show ?thesis using assms NumParam_given [OF assms(1,2)] by (simp add: LONG_MAX_def to_int_small)
qed

fun item_handler :: "arg_item \<Rightarrow> arg_handler" where
  "item_handler (OptEui64 b) = H_eui64"
| "item_handler (OptPskd s) = H_pskd"
| "item_handler (OptNetworkName s) = H_netname"
| "item_handler (OptXpanid b) = H_xpanid"
| "item_handler (OptPassphrase s) = H_agent_passphrase"
| "item_handler (OptAddr s) = H_ip_addr"
| "item_handler (OptPort s) = H_ip_port"
| "item_handler (OptPskcBin b) = H_pskc_bin"
| "item_handler (OptHashmac b) = H_hashmac"
| "item_handler (OptSteering n) = H_steering_length"
| "item_handler OptAllowAll = H_allow_all_joiners"
| "item_handler (OptLogFile s) = H_log_filename"
| "item_handler OptComputePskc = H_compute_pskc"
| "item_handler OptComputeHashmac = H_compute_hashmac"
| "item_handler OptComputeSteering = H_compute_steering"
| "item_handler OptKaDisabled = H_comm_ka_disabled"
| "item_handler (OptKaRate n) = H_comm_ka_rate"
| "item_handler OptNoSyslog = H_no_syslog"
| "item_handler (OptEnvelope n) = H_comm_envelope_timeout"
| "item_handler OptCommission = H_commission_device"
| "item_handler (OptDebug n) = H_debug_level"

lemma item_option: "\<exists>v t. (hd (item_text item), item_handler item, v, t) \<in> set option_list"
  by (cases item) (simp_all add: option_list_def)

lemma pskd_okD: "pskd_ok s \<Longrightarrow> pskd_whybad s = None \<and> length s < 33"
  using pskd_whybad_ok [of s] by (simp add: pskd_ok_def)

lemma run_handler_item:
  assumes val: "length (item_text item) = 2 \<Longrightarrow> mARGx st < mARGC st \<and> mARGV st ! mARGx st = item_text item ! 1"
    and sized: "arrays_sized (arg_values st)" and ok: "item_ok fopen_ok item"
  shows "run_handler fopen_ok (item_handler item) st = Ok (0, st\<lparr>mARGx := mARGx st + (length (item_text item) - 1),
     arg_values := item_values item (arg_values st), mLog := item_log item (mLog st)\<rparr>)"
proof -
  note handlers = plain_handlers set_values_def flag_handler_def handle_steering_length_def handle_comm_ka_rate_def
    handle_comm_envelope_timeout_def handle_debug_level_def number_handler_def handle_pskd_def
    handle_log_filename_def otbrLogSetFilename_def otbrLogSetLevel_def otbrLogEnableSyslog_def level_ok_def
  note sizes = kIPAddrNameBufSize_def kPortNameBufSize_def kEui64Len_def kXpanidLength_def kNetworkNameLenMax_def
    kBorderRouterPassPhraseLen_def OT_PSKC_LENGTH_def PATH_MAX_def kPSKdLength_def log_levels
  note given = StrParam_given text_handler_given hex_handler_given NumParam_small
  show ?thesis
    using val sized ok
    by (cases item) (simp_all add: handlers sizes given arrays_sized_def pskd_okD)
qed

lemma parse_one_item:
  assumes line: "mARGV st = before @ item_text item @ after" "mARGx st = length before"
    and opts: "mOpts st = option_table" and sized: "arrays_sized (arg_values st)" and ok: "item_ok fopen_ok item"
  shows "parse_one fopen_ok st = Ok (0, st\<lparr>mARGx := length (before @ item_text item),
     arg_values := item_values item (arg_values st), mLog := item_log item (mLog st)\<rparr>)"
proof -
  let ?st = "st\<lparr>mARGx := mARGx st + 1\<rparr>"
  have name: "mARGV st ! mARGx st = hd (item_text item)" "mARGx st < mARGC st" "1 \<le> length (item_text item)"
    using line by (cases item; simp add: mARGC_def)+
  have "mARGx ?st < mARGC ?st \<and> mARGV ?st ! mARGx ?st = item_text item ! 1" if "length (item_text item) = 2"
    using that line by (simp add: mARGC_def nth_append)
  from run_handler_item [OF this, of fopen_ok] sized ok
  have "run_handler fopen_ok (item_handler item) ?st = Ok (0, st\<lparr>mARGx := length (before @ item_text item),
     arg_values := item_values item (arg_values st), mLog := item_log item (mLog st)\<rparr>)"
    using name(3) line(2) by simp
  moreover obtain v t where "(mARGV st ! mARGx st, item_handler item, v, t) \<in> set option_list"
    using item_option name(1) by metis
  ultimately show ?thesis using parse_one_option [OF opts name(2)] by simp
qed

lemma item_values_sized: "item_ok fopen_ok item \<Longrightarrow> arrays_sized a \<Longrightarrow> arrays_sized (item_values item a)"
  by (cases item) (simp_all add: arrays_sized_def)

lemma parse_loop_items:
  assumes "mARGV st = before @ concat (map item_text items)" and "mARGx st = length before"
    and "mOpts st = option_table" and "arrays_sized (arg_values st)" and "\<forall>item\<in>set items. item_ok fopen_ok item"
  shows "parse_loop fopen_ok st = Some (Ok (0, st\<lparr>mARGx := mARGC st, arg_values := fold item_values items (arg_values st),
     mLog := fold item_log items (mLog st)\<rparr>))"
  using assms
proof (induction items arbitrary: st before)
  case Nil
  then have "parse_one fopen_ok st = Ok (-1, st)" by (intro parse_one_end) (simp add: mARGC_def)
  with Nil show ?case by (subst parse_loop.simps) (simp add: mARGC_def)
next
  case (Cons item items)
  let ?st = "st\<lparr>mARGx := length (before @ item_text item), arg_values := item_values item (arg_values st),
     mLog := item_log item (mLog st)\<rparr>"
  have "parse_one fopen_ok st = Ok (0, ?st)"
    using Cons.prems by (intro parse_one_item [of st before item "concat (map item_text items)"]) simp_all
  then have "parse_loop fopen_ok st = parse_loop fopen_ok ?st" by (subst parse_loop.simps) simp
  also have "\<dots> = Some (Ok (0, ?st\<lparr>mARGx := mARGC ?st, arg_values := fold item_values items (arg_values ?st),
     mLog := fold item_log items (mLog ?st)\<rparr>))"
    using Cons.prems item_values_sized by (intro Cons.IH [of ?st "before @ item_text item"]) auto
  finally show ?case by (simp add: mARGC_def)
qed

lemma ParseArgs_loop:
  assumes "length argv \<noteq> 1"
  shows "ParseArgs now fopen_ok argv user_args err lg = parse_loop fopen_ok
    ((new_ArgcArgv argv (default_args user_args) err lg)\<lparr>mOpts := option_table\<rparr>)"
  using assms add_options_eq [of "set_values default_args (new_ArgcArgv argv user_args err lg)" now]
  by (simp add: ParseArgs_def set_values_def new_ArgcArgv_def)

lemma ParseArgs_items:
  assumes "items \<noteq> []" and "arrays_sized user_args" and "\<forall>item\<in>set items. item_ok fopen_ok item"
  shows "\<exists>st. ParseArgs now fopen_ok (name # concat (map item_text items)) user_args err lg = Some (Ok (0, st))
    \<and> arg_values st = fold item_values items (default_args user_args) \<and> mLog st = fold item_log items lg \<and> mErr st = err"
proof -
  let ?argv = "name # concat (map item_text items)"
  let ?st = "(new_ArgcArgv ?argv (default_args user_args) err lg)\<lparr>mOpts := option_table\<rparr>"
  have "length (item_text (hd items)) \<ge> 1" by (cases "hd items") simp_all
  then have "length ?argv \<noteq> 1" using assms(1) by (cases items) auto
  moreover have "arrays_sized (default_args user_args)" using assms(2) by (simp add: arrays_sized_def default_args_def)
  ultimately show ?thesis
    using parse_loop_items [of ?st "[name]" items fopen_ok] assms(3)
    by (simp add: ParseArgs_loop) (simp add: new_ArgcArgv_def)
qed

text \<open>The bytes given first: a structure that nothing has been written to.\<close>

definition zero_args :: cmd_args where
  "zero_args = \<lparr>mAgentPort_ascii = None, mAgentAddress_ascii = None, mJoinerHashmacAscii = None,
     mJoinerHashmacBin = replicate 8 0, mHasJoinerHashMac = False, mJoinerEui64Ascii = None,
     mJoinerEui64Bin = replicate 8 0, mAllowAllJoiners = False, mJoinerPSKdAscii = None, mSteeringLength = 0,
     mNeedSendCommKA = False, mSendCommKATxRate = 0, mEnvelopeTimeout = 0, mPSKcAscii = None,
     mPSKcBin = replicate 16 0, mHasPSKc = False, mXpanidAscii = None, mXpanidBin = replicate 8 0,
     mNetworkName = None, mPassPhrase = None, mNeedComputePSKc = False, mNeedComputeJoinerHashMac = False,
     mNeedComputeJoinerSteering = False, mNeedCommissionDevice = False, mDebugLevel = 0\<rparr>"

lemma zero_args_fresh: "fresh_args zero_args"
  by (simp add: fresh_args_def arrays_sized_def zero_args_def)

section \<open>Properties\<close>

text \<open>
  C24: the parser ends on every command line, and no command line makes it fault: it answers 0,
  with every argument read, or 1, unless a log file that cannot be opened ends the program.
\<close>

theorem parse_args_ends:
  assumes "argv \<noteq> []" and "fresh_args user_args" and "level_ok (sLevel lg)"
  shows "(\<exists>ret st. ParseArgs now fopen_ok argv user_args err lg = Some (Ok (ret, st))
        \<and> (ret = 1 \<or> (ret = 0 \<and> length argv \<le> mARGx st)))
    \<or> (ParseArgs now fopen_ok argv user_args err lg = Some (Fault Aborted) \<and> (\<exists>f. \<not> fopen_ok f))"
  using ParseArgs_result [OF assms, of now fopen_ok err] by auto

lemma initial_level: "level_ok (sLevel initial_logger)"
  by (simp add: level_ok_def log_levels initial_logger_def)

theorem parse_args_ends_witness:
  "\<exists>ret st. ParseArgs 0 (\<lambda>f. True) [''commissioner'', ''--xpanid''] zero_args [] initial_logger = Some (Ok (ret, st))
     \<and> (ret = 1 \<or> ret = 0 \<and> 2 \<le> mARGx st)"
  using parse_args_ends [OF _ zero_args_fresh initial_level, of "[''commissioner'', ''--xpanid'']" 0 "\<lambda>f. True" "[]"]
  by (simp add: numeral_2_eq_2)

text \<open>
  C23: whatever the command line, and whether it is accepted or not, the structure the caller gets
  is well typed: each text is terminated inside its array, a PSKd is 6 to 32 characters of the
  32-symbol alphabet, the steering length is between 1 and 16, the keep-alive rate between
  3 and 86400 seconds, the timeout between 1 and 86400, and the log level is a level.
\<close>

theorem parse_args_typed:
  assumes "ParseArgs now fopen_ok argv user_args err lg = Some (Ok (ret, st))"
    and "argv \<noteq> []" and "fresh_args user_args" and "level_ok (sLevel lg)"
  shows "args_typed (arg_values st) \<and> level_ok (sLevel (mLog st))"
  using ParseArgs_result [OF assms(2-4), of now fopen_ok err] assms(1) by (auto simp: state_typed_def)

theorem parse_args_typed_witness:
  "\<exists>ret st. ParseArgs 0 (\<lambda>f. True) [''commissioner'', ''--steering-length'', ''99''] zero_args [] initial_logger
       = Some (Ok (ret, st)) \<and> mSteeringLength (arg_values st) \<le> 16"
proof -
  obtain ret st where r: "ParseArgs 0 (\<lambda>f. True) [''commissioner'', ''--steering-length'', ''99''] zero_args [] initial_logger
      = Some (Ok (ret, st))"
    using ParseArgs_result [OF _ zero_args_fresh initial_level,
        of "[''commissioner'', ''--steering-length'', ''99'']" 0 "\<lambda>f. True" "[]"] by auto
  have "args_typed (arg_values st)"
    using parse_args_typed [OF r _ zero_args_fresh initial_level] by simp
  with r show ?thesis by (auto simp: args_typed_def)
qed

text \<open>
  C22: a command line written from well-formed options, of any number and in any order, is
  accepted: every option has the effect it stands for on the defaults, in the order given, bytes
  written in hexadecimal and numbers in decimal come back as they were, and nothing is printed.
\<close>

theorem parse_args_roundtrip:
  assumes "items \<noteq> []" and "arrays_sized user_args" and "\<forall>item\<in>set items. item_ok fopen_ok item"
  shows "\<exists>st. ParseArgs now fopen_ok (name # concat (map item_text items)) user_args err lg = Some (Ok (0, st))
    \<and> arg_values st = fold item_values items (default_args user_args) \<and> mLog st = fold item_log items lg \<and> mErr st = err"
  by (rule ParseArgs_items [OF assms])

theorem parse_args_roundtrip_witness:
  "\<exists>st. ParseArgs 0 (\<lambda>f. True)
       [''commissioner'', ''--joiner-eui64'', ''18B4300000000001'', ''--joiner-passphrase'', ''ABCDE9'', ''--comm-ka-disabled'']
       zero_args [] initial_logger = Some (Ok (0, st))
     \<and> mJoinerEui64Bin (arg_values st) = [0x18, 0xb4, 0x30, 0, 0, 0, 0, 1] \<and> mJoinerPSKdAscii (arg_values st) = Some ''ABCDE9''
     \<and> \<not> mNeedSendCommKA (arg_values st) \<and> mSendCommKATxRate (arg_values st) = 15"
proof -
  have hex: "Bytes2Hex [0x18, 0xb4, 0x30, 0, 0, 0, 0, 1] = ''18B4300000000001''" by code_simp
  let ?items = "[OptEui64 [0x18, 0xb4, 0x30, 0, 0, 0, 0, 1], OptPskd ''ABCDE9'', OptKaDisabled]"
  have "arrays_sized zero_args" "\<forall>item\<in>set ?items. item_ok (\<lambda>f. True) item"
    using zero_args_fresh by (simp_all add: fresh_args_def pskd_ok_def)
  from parse_args_roundtrip [OF _ this, of 0 "''commissioner''" "[]" initial_logger] obtain st where
    "ParseArgs 0 (\<lambda>f. True) (''commissioner'' # concat (map item_text ?items)) zero_args [] initial_logger = Some (Ok (0, st))"
    "arg_values st = fold item_values ?items (default_args zero_args)"
    by blast
  then show ?thesis
    by (intro exI [of _ st]) (simp add: hex default_args_def del: Bytes2Hex.simps)
qed

lemma ParseArgs_single:
  assumes "(opt, h, v, t) \<in> set option_list"
    and run: "run_handler fopen_ok h ((new_ArgcArgv [name, opt, p] (default_args user_args) err lg)\<lparr>mOpts := option_table, mARGx := 2\<rparr>)
       = Ok (ret, st)" and st: "ret \<noteq> 0 \<or> mARGx st = 3 \<and> mARGV st = [name, opt, p]"
  shows "ParseArgs now fopen_ok [name, opt, p] user_args err lg = Some (Ok (if ret = 0 then 0 else 1, st))"
proof -
  let ?st = "(new_ArgcArgv [name, opt, p] (default_args user_args) err lg)\<lparr>mOpts := option_table\<rparr>"
  have st0: "mOpts ?st = option_table" "mARGV ?st ! mARGx ?st = opt" "mARGx ?st < mARGC ?st"
    by (simp_all add: new_ArgcArgv_def mARGC_def)
  have fwd: "?st\<lparr>mARGx := mARGx ?st + 1\<rparr>
      = (new_ArgcArgv [name, opt, p] (default_args user_args) err lg)\<lparr>mOpts := option_table, mARGx := 2\<rparr>"
    by (simp add: new_ArgcArgv_def)
  have "parse_one fopen_ok ?st = map_res (\<lambda>(ret, st2). (if ret \<noteq> 0 then 1 else 0, st2))
      (run_handler fopen_ok h (?st\<lparr>mARGx := mARGx ?st + 1\<rparr>))"
    using assms(1) st0 by (intro parse_one_option) simp_all
  then have one: "parse_one fopen_ok ?st = Ok (if ret = 0 then 0 else 1, st)"
    unfolding fwd run by simp
  have loop: "parse_loop fopen_ok st = Some (Ok (0, st))" if "ret = 0"
    using that st by (subst parse_loop.simps) (simp add: parse_one_def mARGC_def)
  have "ParseArgs now fopen_ok [name, opt, p] user_args err lg = parse_loop fopen_ok ?st"
    by (rule ParseArgs_loop) simp
  also have "\<dots> = Some (Ok (if ret = 0 then 0 else 1, st))"
    using loop by (subst parse_loop.simps) (simp add: one)
  finally show ?thesis .
qed

text \<open>
  A joiner credential is accepted exactly when it has 6 to 32 characters, all of them digits or
  upper-case letters other than I, O, Q and Z, and only then is it stored.
\<close>

theorem parse_credential:
  "\<exists>st. ParseArgs now fopen_ok [name, ''--joiner-passphrase'', s] user_args err lg
      = Some (Ok (if pskd_ok s then 0 else 1, st))
    \<and> mJoinerPSKdAscii (arg_values st) = (if pskd_ok s then Some s else mJoinerPSKdAscii user_args)"
proof -
  let ?st = "(new_ArgcArgv [name, ''--joiner-passphrase'', s] (default_args user_args) err lg)\<lparr>mOpts := option_table, mARGx := 2\<rparr>"
  have rep: "can_report ?st"
    by (simp add: can_report_def new_ArgcArgv_def max_opts_def) (simp add: option_table_def option_list_def)
  have opt: "(''--joiner-passphrase'', H_pskd, ''VALUE'', ''PSKd for joiner'') \<in> set option_list"
    by (simp add: option_list_def)
  have user: "mJoinerPSKdAscii (arg_values ?st) = mJoinerPSKdAscii user_args"
    by (simp add: new_ArgcArgv_def default_args_def)
  have "\<exists>st. run_handler fopen_ok H_pskd ?st = Ok (if pskd_ok s then 0 else 1, st)
      \<and> mJoinerPSKdAscii (arg_values st) = (if pskd_ok s then Some s else mJoinerPSKdAscii user_args)
      \<and> (pskd_ok s \<longrightarrow> mARGx st = 3 \<and> mARGV st = [name, ''--joiner-passphrase'', s])"
    using rep
  proof (cases rule: StrParam_cases [of ?st 33])
    case (missing e)
    have "StrParam 33 ?st \<noteq> Ok (None, x)" if "length s < 33" for x
      using that StrParam_given [of ?st s 33] by (simp add: new_ArgcArgv_def mARGC_def)
    then have "\<not> pskd_ok s" using missing by (auto dest: pskd_okD)
    then show ?thesis using missing user by (simp add: plain_handlers handle_pskd_def kPSKdLength_def)
  next
    case (given cp)
    then have cp: "cp = s" by (simp add: new_ArgcArgv_def)
    show ?thesis
    proof (cases "pskd_ok s")
      case True
      then show ?thesis using given(1) pskd_okD [OF True]
        by (simp add: cp plain_handlers handle_pskd_def kPSKdLength_def set_values_def) (simp add: new_ArgcArgv_def)
    next
      case False
      then obtain w where w: "pskd_whybad s = Some w" using pskd_whybad_ok [of s] by auto
      have "can_report (?st\<lparr>mARGx := mARGx ?st + 1\<rparr>)" by (rule can_report_step [OF step_to_next rep])
      note report = usage_error_eq [OF this]
      obtain e where
        "usage_error (''Illegal PSKd: \"'' @ s @ ''\", '' @ w @ newline) (1 :: int) (?st\<lparr>mARGx := mARGx ?st + 1\<rparr>)
          = Ok (1, put_err e (?st\<lparr>mARGx := mARGx ?st + 1\<rparr>))"
        by (rule exE [OF report])
      then show ?thesis using given(1) w False user
        by (simp add: cp plain_handlers handle_pskd_def kPSKdLength_def del: append.simps)
    qed
  qed
  then show ?thesis using ParseArgs_single [OF opt, of fopen_ok name s user_args err lg] by fastforce
qed

lemma to_int_wraps: "to_int (int n) = (let m = n mod 2 ^ 32 in if m < 2 ^ 31 then int m else int m - 2 ^ 32)"
proof -
  let ?m = "n mod 2 ^ 32"
  have "to_int (int n) = (int n + 2 ^ 31) mod 2 ^ 32 - 2 ^ 31"
    unfolding to_int_def signed_of_int by (simp add: signed_take_bit_eq_take_bit_shift take_bit_eq_mod)
  also have "(int n + 2 ^ 31) mod 2 ^ 32 = (int ?m + 2 ^ 31) mod 2 ^ 32"
    by (simp add: zmod_int mod_add_left_eq)
  also have "\<dots> = (if ?m < 2 ^ 31 then int ?m + 2 ^ 31 else int ?m - 2 ^ 31)"
  proof (cases "?m < 2 ^ 31")
    case True
    then show ?thesis by (simp add: mod_pos_pos_trivial)
  next
    case False
    have "?m < 2 ^ 32" by simp
    moreover have "(int ?m + 2 ^ 31) mod 2 ^ 32 = (int ?m - 2 ^ 31) mod 2 ^ 32"
      using mod_add_self2 [of "int ?m - 2 ^ 31" "2 ^ 32"] by (simp add: add.commute)
    moreover have "(int ?m - 2 ^ 31) mod 2 ^ 32 = int ?m - 2 ^ 31"
      using False by (intro mod_pos_pos_trivial) simp_all
    ultimately show ?thesis using False by simp
  qed
  finally show ?thesis by (simp add: Let_def)
qed

text \<open>
  C40: a number is read as a 64-bit integer and then cut to 32 bits, without a check.  The keep-alive
  rate set is \<open>n mod 2\<^sup>3\<^sup>2\<close> when that is between 3 and 86400, whatever was meant; and a number
  whose low 32 bits are all ones, in particular any number of at least \<open>2\<^sup>6\<^sup>3\<close>, is mistaken
  for the error value of \<open>NumParam\<close>: it is refused, with no message at all.
\<close>

theorem parse_number_wraps:
  assumes "length (dec_string n) < 100"
  defines "m \<equiv> n mod 2 ^ 32"
  shows "\<exists>ret st. ParseArgs now fopen_ok [name, ''--comm-ka-rate'', dec_string n] user_args err lg = Some (Ok (ret, st))
    \<and> (n < 2 ^ 63 \<and> 3 \<le> m \<and> m \<le> 86400 \<longrightarrow> ret = 0 \<and> mSendCommKATxRate (arg_values st) = int m)
    \<and> (n \<ge> 2 ^ 63 \<or> m = 2 ^ 32 - 1 \<longrightarrow> ret = 1 \<and> mErr st = err \<and> mSendCommKATxRate (arg_values st) = 15)"
proof -
  let ?st = "(new_ArgcArgv [name, ''--comm-ka-rate'', dec_string n] (default_args user_args) err lg)\<lparr>mOpts := option_table, mARGx := 2\<rparr>"
  define v where "v = to_int (min LONG_MAX (int n))"
  have opt: "(''--comm-ka-rate'', H_comm_ka_rate, '''', ''Set COMM_KA transmission rate'') \<in> set option_list"
    by (simp add: option_list_def)
  have num: "NumParam ?st = Ok (v, ?st\<lparr>mARGx := 3\<rparr>)"
    using NumParam_given [of ?st n] assms(1) by (simp add: v_def new_ArgcArgv_def mARGC_def)
  have rep: "can_report (?st\<lparr>mARGx := 3\<rparr>)"
    by (simp add: can_report_def new_ArgcArgv_def max_opts_def) (simp add: option_table_def option_list_def)
  have v: "n < 2 ^ 63 \<Longrightarrow> v = (if m < 2 ^ 31 then int m else int m - 2 ^ 32)" "n \<ge> 2 ^ 63 \<Longrightarrow> v = -1"
    using to_int_wraps [of n] to_int_wraps [of "2 ^ 63 - 1"] by (simp_all add: v_def m_def LONG_MAX_def Let_def)
  show ?thesis
  proof (cases "v = -1")
    case True
    then have "run_handler fopen_ok H_comm_ka_rate ?st = Ok (1, ?st\<lparr>mARGx := 3\<rparr>)"
      by (simp add: plain_handlers handle_comm_ka_rate_def number_handler_def num)
    from ParseArgs_single [OF opt this, of now] True v show ?thesis
      by (auto simp: new_ArgcArgv_def default_args_def split: if_splits)
  next
    case False
    then have n: "n < 2 ^ 63" using v(2) by (meson not_less)
    then have m: "m \<noteq> 2 ^ 32 - 1" using v(1) False by auto
    show ?thesis
    proof (cases "v < 3 \<or> v > 86400")
      case True
      note report = usage_error_eq [OF rep]
      obtain e where "usage_error (''comm-ka rate must be (n>3) && (n < 86400), not: '' @ int_string v @ newline) (1 :: int)
          (?st\<lparr>mARGx := 3\<rparr>) = Ok (1, put_err e (?st\<lparr>mARGx := 3\<rparr>))"
        by (rule exE [OF report])
      with True False have "run_handler fopen_ok H_comm_ka_rate ?st = Ok (1, put_err e (?st\<lparr>mARGx := 3\<rparr>))"
        by (simp add: plain_handlers handle_comm_ka_rate_def number_handler_def num del: append.simps)
      from ParseArgs_single [OF opt this, of now] True v(1) [OF n] n m show ?thesis by (auto split: if_splits)
    next
      case False
      then have "run_handler fopen_ok H_comm_ka_rate ?st
          = Ok (0, set_values (\<lambda>a. a\<lparr>mSendCommKATxRate := v\<rparr>) (?st\<lparr>mARGx := 3\<rparr>))"
        using \<open>v \<noteq> -1\<close> by (simp add: plain_handlers handle_comm_ka_rate_def number_handler_def num)
      from ParseArgs_single [OF opt this, of now] v(1) [OF n] n m show ?thesis
        by (auto simp: set_values_def new_ArgcArgv_def split: if_splits)
    qed
  qed
qed

theorem parse_number_wraps_witness:
  "\<exists>st. ParseArgs 0 (\<lambda>f. True) [''commissioner'', ''--comm-ka-rate'', dec_string 4294967299] zero_args [] initial_logger
       = Some (Ok (0, st)) \<and> mSendCommKATxRate (arg_values st) = 3"
proof -
  have "length (dec_string 4294967299) \<le> 10" by (intro length_dec_small) simp_all
  with parse_number_wraps [of 4294967299 0 "\<lambda>f. True" "''commissioner''" zero_args "[]" initial_logger] show ?thesis
    by auto
qed

lemma hex_loop_digits:
  "\<forall>c\<in>set cs. hex_digit c \<noteq> None \<Longrightarrow> fst (hex_loop cs n b out) = int (length (snd (hex_loop cs n b out)))"
  by (induction cs n b out rule: hex_loop.induct) (auto simp: Let_def)

lemma Hex2Bytes_odd:
  assumes "length s = 2 * n - 1" and "0 < n" and "\<forall>c\<in>set s. hex_digit c \<noteq> None" and "length dest = n"
  shows "Hex2Bytes s dest n = (int n, snd (Hex2Bytes (CHR ''0'' # s) dest n))"
proof -
  obtain r w where w: "hex_loop s 1 0 [] = (r, w)" by (cases "hex_loop s 1 0 []")
  have odd: "length s mod 2 = 1" "(length s + 1) div 2 = n" "even (length s + 1)" using assms(1,2) by presburger+
  have r: "r = int (length w)" using hex_loop_digits [OF assms(3), of 1 0 "[]"] w by simp
  then have "length w = n" using hex_loop_full [OF w] odd by simp
  moreover have "hex_digit CHR ''0'' = Some 0" by (simp add: hex_digit_def byte_of_char_def)
  ultimately show ?thesis using w r odd assms(4) by (simp add: Hex2Bytes_def)
qed

text \<open>
  An EUI-64 may be given with 15 hexadecimal digits instead of 16: it is accepted, as the
  number it would be with a leading zero.
\<close>

theorem parse_hex_incomplete:
  assumes "length s = 15" and "\<forall>c\<in>set s. hex_digit c \<noteq> None" and "arrays_sized user_args"
  shows "\<exists>st. ParseArgs now fopen_ok [name, ''--joiner-eui64'', s] user_args err lg = Some (Ok (0, st))
    \<and> mJoinerEui64Bin (arg_values st) = snd (Hex2Bytes (CHR ''0'' # s) (mJoinerEui64Bin user_args) 8)"
proof -
  let ?st = "(new_ArgcArgv [name, ''--joiner-eui64'', s] (default_args user_args) err lg)\<lparr>mOpts := option_table, mARGx := 2\<rparr>"
  have opt: "(''--joiner-eui64'', H_eui64, ''VALUE'', ''joiner EUI64 value'') \<in> set option_list"
    by (simp add: option_list_def)
  have "StrParam 17 ?st = Ok (Some s, ?st\<lparr>mARGx := 3\<rparr>)"
    using StrParam_given [of ?st s 17] assms(1) by (simp add: new_ArgcArgv_def mARGC_def)
  then obtain st where "run_handler fopen_ok H_eui64 ?st = Ok (0, st)" "mARGx st = 3" "mARGV st = mARGV ?st"
    "mJoinerEui64Bin (arg_values st) = snd (Hex2Bytes (CHR ''0'' # s) (mJoinerEui64Bin user_args) 8)"
    using Hex2Bytes_odd [of s 8 "mJoinerEui64Bin user_args"] assms
    by (simp add: plain_handlers hex_handler_def HexParam_def kEui64Len_def arrays_sized_def set_values_def
        default_args_def new_ArgcArgv_def)
  with ParseArgs_single [OF opt this(1), of now] show ?thesis by (auto simp: new_ArgcArgv_def)
qed

theorem parse_hex_incomplete_witness:
  "\<exists>st. ParseArgs 0 (\<lambda>f. True) [''commissioner'', ''--joiner-eui64'', ''8B4300000000001''] zero_args [] initial_logger
       = Some (Ok (0, st)) \<and> mJoinerEui64Bin (arg_values st) = [0x08, 0xb4, 0x30, 0, 0, 0, 0, 1]"
proof -
  have "\<forall>c\<in>set ''8B4300000000001''. hex_digit c \<noteq> None" "length ''8B4300000000001'' = 15" "arrays_sized zero_args"
    "snd (Hex2Bytes ''08B4300000000001'' (mJoinerEui64Bin zero_args) 8) = [0x08, 0xb4, 0x30, 0, 0, 0, 0, 1]"
    by code_simp+
  with parse_hex_incomplete [of "''8B4300000000001''" zero_args 0 "\<lambda>f. True" "''commissioner''" "[]" initial_logger]
  show ?thesis by auto
qed

end
