(* ===== verification/Tools.thy ===== *)
theory Tools
  imports Steering PskcGen HexCodec Logging CmdLine
begin

text \<open>
  \<open>tools/steering_data.cpp\<close> and \<open>tools/pskc.cpp\<close>: the two command-line tools, which print the steering
  data of a list of joiners and the key of a commissioner.

  A run of a tool gives its return value and what it writes to the two streams.  The arrays on
  the stack start with arbitrary bytes, which are arguments.
\<close>

section \<open>The C library\<close>

text \<open>\<open>atoi\<close> of glibc: \<open>strtol\<close> in base 10, cut to an \<open>int\<close>.\<close>

definition atoi :: "string \<Rightarrow> int" where
  "atoi s =
     (let s1 = dropWhile is_space s;
          negative = (s1 \<noteq> [] \<and> hd s1 = CHR ''-'');
          s2 = (if s1 \<noteq> [] \<and> hd s1 \<in> {CHR ''-'', CHR ''+''} then tl s1 else s1);
          v = fst (digits_loop 10 0 s2)
      in to_int (max LONG_MIN (min LONG_MAX (if negative then - int v else int v))))"

definition print_int :: "int \<Rightarrow> string" where
  "print_int i = (if i < 0 then ''-'' @ dec_string (nat (- i)) else dec_string (nat i))"

definition print_02x :: "byte \<Rightarrow> string" where
  "print_02x b = [kHexChars ! unat (drop_bit 4 b), kHexChars ! unat (b AND 0xf)]"

definition print_bytes :: "byte list \<Rightarrow> string" where
  "print_bytes bs = concat (map print_02x bs)"

section \<open>steering-data\<close>

record tool_run =
  tr_ret :: int
  tr_stdout :: string
  tr_stderr :: string

definition steering_help :: string where
  "steering_help = ''steering-data - compute steering data'' @ newline @ ''SYNTAX:'' @ newline
     @ ''    steering-data [LENGTH] <JOINER_ID> ...'' @ newline @ ''EXAMPLE:'' @ newline
     @ ''    steering-data 18b4300000000001'' @ newline @ ''    steering-data 15 18b4300000000001'' @ newline
     @ ''    steering-data 18b4300000000001 18b4300000000002'' @ newline"

text \<open>The value returned, the joiner id, and what goes to the error stream.\<close>

definition ComputeJoinerId :: "(byte list \<Rightarrow> byte list) \<Rightarrow> string \<Rightarrow> byte list \<Rightarrow> int \<times> byte list \<times> string" where
  "ComputeJoinerId sha aEui64 aJoinerId =
     (let invalid = ''Invalid EUI64: '' @ aEui64 in
      if length aEui64 \<noteq> kSizeJoinerId * 2 then (-1, aJoinerId, invalid)
      else case Hex2Bytes aEui64 aJoinerId kSizeJoinerId of
             (n, bs) \<Rightarrow> if n \<noteq> int kSizeJoinerId then (-1, bs, invalid) else (0, sd_ComputeJoinerId sha bs, []))"

text \<open>The loop over the EUI-64s: the text of the error that ends it early.\<close>

fun joiner_loop ::
  "(byte list \<Rightarrow> byte list) \<Rightarrow> byte list \<Rightarrow> string list \<Rightarrow> steering_data \<Rightarrow> (string option \<times> steering_data) res" where
  "joiner_loop sha stack [] computer = Ok (None, computer)"
| "joiner_loop sha stack (arg # args) computer =
     (case ComputeJoinerId sha arg stack of
        (ret, joinerId, err) \<Rightarrow>
          if ret \<noteq> 0 then Ok (Some (err @ ''Invalid EUI64 : '' @ arg @ newline), computer)
          else rbind (sd_ComputeBloomFilter joinerId computer) (joiner_loop sha stack args))"

definition steering_data_of ::
  "(byte list \<Rightarrow> byte list) \<Rightarrow> byte list \<Rightarrow> nat \<Rightarrow> string list \<Rightarrow> steering_data \<Rightarrow> tool_run res" where
  "steering_data_of sha stack len args computer =
     rbind (sd_Init len computer) (\<lambda>c0.
     rbind (joiner_loop sha stack args c0) (\<lambda>(err, c1).
       case err of
         Some text \<Rightarrow> Ok \<lparr>tr_ret = -1, tr_stdout = [], tr_stderr = text\<rparr>
       | None \<Rightarrow>
           rbind (read_bytes (mBloomFilter c1) 0 len) (\<lambda>bs.
             Ok \<lparr>tr_ret = 0, tr_stdout = print_bytes bs @ newline, tr_stderr = []\<rparr>)))"

definition steering_data_main ::
  "(byte list \<Rightarrow> byte list) \<Rightarrow> byte list \<Rightarrow> steering_data \<Rightarrow> string list \<Rightarrow> tool_run res" where
  "steering_data_main sha stack computer argv =
     (if length argv < 2 then Ok \<lparr>tr_ret = -1, tr_stdout = steering_help, tr_stderr = []\<rparr>
      else if length (argv ! 1) \<noteq> kSizeJoinerId * 2
      then let len = atoi (argv ! 1) in
           if \<not> (len > 0 \<and> len \<le> int kMaxSizeOfBloomFilter)
           then Ok \<lparr>tr_ret = -1, tr_stdout = [], tr_stderr = ''Invalid bloom filter length: '' @ print_int len @ newline\<rparr>
           else steering_data_of sha stack (nat len) (drop 2 argv) computer
      else steering_data_of sha stack 16 (drop 1 argv) computer)"

section \<open>pskc\<close>

definition kMaxNetworkName :: nat where "kMaxNetworkName = 16"
definition kMaxPassphrase :: nat where "kMaxPassphrase = 255"
definition pskc_kSizeExtPanId :: nat where "pskc_kSizeExtPanId = 8"

definition pskc_help :: string where
  "pskc_help = ''pskc - compute PSKc'' @ newline @ ''SYNTAX:'' @ newline
     @ ''    pskc <PASSPHRASE> <EXTPANID> <NETWORK_NAME>'' @ newline @ ''EXAMPLE:'' @ newline
     @ ''    pskc 654321 1122334455667788 OpenThread'' @ newline"

definition is_hex_char :: "char \<Rightarrow> bool" where
  "is_hex_char c \<longleftrightarrow> char_between CHR ''0'' CHR ''9'' c \<or> char_between CHR ''a'' CHR ''f'' c \<or> char_between CHR ''A'' CHR ''F'' c"

definition refuse :: "string \<Rightarrow> tool_run" where
  "refuse msg = \<lparr>tr_ret = -1, tr_stdout = msg @ newline, tr_stderr = []\<rparr>"

definition printPSKc ::
  "(byte list \<Rightarrow> byte list \<Rightarrow> byte list) \<Rightarrow> byte list \<Rightarrow> string \<Rightarrow> string \<Rightarrow> string \<Rightarrow> tool_run res" where
  "printPSKc prf stack aPassphrase aExtPanId aNetworkName =
     (if \<not> length aPassphrase > 0 then Ok (refuse ''PASSPHRASE must not be empty.'')
      else if \<not> length aPassphrase \<le> kMaxPassphrase then Ok (refuse ''PASSPHRASE Passphrase must be no more than 255 bytes.'')
      else if length aExtPanId \<noteq> pskc_kSizeExtPanId * 2 then Ok (refuse ''EXTPANID length must be 8 bytes.'')
      else if \<not> list_all is_hex_char aExtPanId then Ok (refuse ''EXTPANID must be encoded in hex.'')
      else let extpanid = snd (Hex2Bytes aExtPanId stack pskc_kSizeExtPanId) in
      if \<not> length aNetworkName > 0 then Ok (refuse ''NETWORK_NAME must not be empty.'')
      else if \<not> length aNetworkName \<le> kMaxNetworkName then Ok (refuse ''NETWOR_KNAME length must be no more than 16 bytes.'')
      else rbind (ComputePskc prf extpanid aNetworkName aPassphrase fresh_Pskc) (\<lambda>pskc.
           rbind (read_bytes pskc 0 16) (\<lambda>bs.
             Ok \<lparr>tr_ret = 0, tr_stdout = print_bytes bs @ newline, tr_stderr = []\<rparr>)))"

definition pskc_main ::
  "(byte list \<Rightarrow> byte list \<Rightarrow> byte list) \<Rightarrow> byte list \<Rightarrow> string list \<Rightarrow> tool_run res" where
  "pskc_main prf stack argv =
     (if length argv \<noteq> 4 then Ok \<lparr>tr_ret = -1, tr_stdout = pskc_help, tr_stderr = []\<rparr>
      else printPSKc prf stack (argv ! 1) (argv ! 2) (argv ! 3))"

section \<open>Lemmas\<close>

lemma hex_digit_kHexChars: "n < 16 \<Longrightarrow> hex_digit (kHexChars ! n) = Some (word_of_nat n)"
proof -
  assume n: "n < 16"
  have "list_all (\<lambda>k. hex_digit (kHexChars ! k) = Some (word_of_nat k)) [0..<16]"
    by (simp add: upt_conv_Cons hex_digit_def kHexChars_def byte_of_char_def Let_def)
  with n show ?thesis by (simp add: list_all_iff)
qed

lemma hex_loop_print: "hex_loop (print_bytes bs @ cs) 0 0 out = hex_loop cs 0 0 (out @ bs)"
proof (induction bs arbitrary: out)
  case Nil
  then show ?case by (simp add: print_bytes_def)
next
  case (Cons b bs)
  have "hex_loop (print_02x b @ ds) 0 0 out = hex_loop ds 0 0 (out @ [b])" for ds
    by (simp add: print_02x_def hex_digit_kHexChars unat_high_nibble unat_low_nibble nibbles)
  with Cons show ?case by (simp add: print_bytes_def)
qed

lemma length_print_bytes [simp]: "length (print_bytes bs) = 2 * length bs"
  by (induction bs) (simp_all add: print_bytes_def print_02x_def)

lemma Hex2Bytes_print_bytes:
  "length dest = length bs \<Longrightarrow> Hex2Bytes (print_bytes bs) dest (length bs) = (int (length bs), bs)"
  using hex_loop_print [of bs "[]" "[]"] by (simp add: Hex2Bytes_def)

lemma hex_digit_is_hex_char: "hex_digit c \<noteq> None \<longleftrightarrow> is_hex_char c"
  by (auto simp: hex_digit_def is_hex_char_def char_between_def Let_def word_le_nat_alt unat_byte_of_char)

lemma ComputeJoinerId_Bytes2Hex:
  "length e = 8 \<Longrightarrow> length stack = 8 \<Longrightarrow> ComputeJoinerId sha (Bytes2Hex e) stack = (0, ComputeHashMac sha e, [])"
  using hex_loop_Bytes2Hex [of e "[]" "[]"]
  by (simp add: ComputeJoinerId_def Hex2Bytes_def kSizeJoinerId_def ComputeHashMac_joiner_id)

lemma joiner_loop_fold:
  assumes "length stack = 8"
  shows "list_all (\<lambda>e. length e = 8) euis \<Longrightarrow> joiner_loop sha stack (map Bytes2Hex euis) c
    = map_res (Pair None) (fold_res (ComputeSteeringData sha False) euis c)"
  by (induction euis arbitrary: c)
    (auto simp: ComputeJoinerId_Bytes2Hex [OF _ assms] ComputeSteeringData_def map_res_rbind rbind_assoc intro!: rbind_cong)

lemma joiner_loop_total:
  assumes "sha_ok sha"
  shows "sd_inv c \<Longrightarrow> \<exists>err c'. joiner_loop sha stack args c = Ok (err, c') \<and> sd_inv c' \<and> mLength c' = mLength c"
proof (induction args arbitrary: c)
  case Nil
  then show ?case by simp
next
  case (Cons arg args)
  obtain ret i err where cj: "ComputeJoinerId sha arg stack = (ret, i, err)" by (cases "ComputeJoinerId sha arg stack")
  show ?case
  proof (cases "ret = 0")
    case True
    with cj assms have "8 \<le> length i"
      by (auto simp: ComputeJoinerId_def sd_ComputeJoinerId_def sha_ok_def kSizeJoinerId_def Let_def split: if_splits prod.splits)
    from sd_ComputeBloomFilter_ok [OF Cons.prems this] obtain c1 where
      c1: "sd_ComputeBloomFilter i c = Ok c1" "sd_inv c1" "mLength c1 = mLength c" by blast
    from Cons.IH [OF c1(2)] c1 cj True show ?thesis by auto
  next
    case False
    with cj Cons.prems show ?thesis by simp
  qed
qed

lemma length_Clear: "length (mBloomFilter (sd_Clear c)) = length (mBloomFilter c)"
  by (simp add: sd_Clear_def)

lemma sd_Init_ok:
  "0 < len \<Longrightarrow> len \<le> 16 \<Longrightarrow> length (mBloomFilter c) = 16
     \<Longrightarrow> \<exists>c0. sd_Init len c = Ok c0 \<and> sd_inv c0 \<and> mLength c0 = len \<and> (\<forall>b < len * 8. \<not> sd_bit c0 b)"
  using sd_bit_Clear [of "c\<lparr>mLength := len\<rparr>"] by (simp add: sd_Init_def sd_inv_def length_Clear kMaxSizeOfBloomFilter_def)

lemma sd_bit_take: "b < mLength c * 8 \<Longrightarrow> sd_bit \<lparr>mBloomFilter = take (mLength c) (mBloomFilter c), mLength = mLength c\<rparr> b = sd_bit c b"
  by (auto simp: sd_bit_def)

lemma steering_data_of_total:
  assumes "sha_ok sha" and "0 < len" "len \<le> 16" "length (mBloomFilter c) = 16"
  shows "\<exists>run. steering_data_of sha stack len args c = Ok run"
proof -
  obtain c0 where c0: "sd_Init len c = Ok c0" "sd_inv c0" using sd_Init_ok [OF assms(2-4)] by blast
  obtain err c1 where "joiner_loop sha stack args c0 = Ok (err, c1)" "sd_inv c1"
    using joiner_loop_total [OF assms(1) c0(2)] by blast
  with c0(1) assms(3) show ?thesis
    by (cases err) (auto simp: steering_data_of_def read_bytes_def sd_inv_def kMaxSizeOfBloomFilter_def)
qed

lemma steering_data_of_joiners:
  assumes sha: "sha_ok sha" and len: "0 < len" "len \<le> 16" "length (mBloomFilter c) = 16"
    and args: "length stack = 8" "list_all (\<lambda>e. length e = 8) euis"
  shows "\<exists>filter. length filter = len
    \<and> steering_data_of sha stack len (map Bytes2Hex euis) c = Ok \<lparr>tr_ret = 0, tr_stdout = print_bytes filter @ newline, tr_stderr = []\<rparr>
    \<and> (\<forall>b < len * 8. sd_bit \<lparr>mBloomFilter = filter, mLength = len\<rparr> b \<longleftrightarrow> (\<exists>e\<in>set euis. b \<in> joiner_bits len (ComputeHashMac sha e)))"
proof -
  obtain c0 where c0: "sd_Init len c = Ok c0" "sd_inv c0" "mLength c0 = len" "\<forall>b < len * 8. \<not> sd_bit c0 b"
    using sd_Init_ok [OF len] by blast
  obtain c1 where c1: "fold_res (ComputeSteeringData sha False) euis c0 = Ok c1" "sd_inv c1" "mLength c1 = len"
    "\<forall>b < len * 8. sd_bit c1 b \<longleftrightarrow> (\<exists>e\<in>set euis. b \<in> joiner_bits len (ComputeHashMac sha e))"
    using steering_bits_exact [OF sha c0(2), of euis] c0(3,4) by auto
  have "steering_data_of sha stack len (map Bytes2Hex euis) c
      = Ok \<lparr>tr_ret = 0, tr_stdout = print_bytes (take len (mBloomFilter c1)) @ newline, tr_stderr = []\<rparr>"
    using c0(1) c1(1,2) len(2) joiner_loop_fold [OF args]
    by (simp add: steering_data_of_def read_bytes_def sd_inv_def kMaxSizeOfBloomFilter_def)
  moreover have "length (take len (mBloomFilter c1)) = len"
    using c1(2) len(2) by (simp add: sd_inv_def kMaxSizeOfBloomFilter_def)
  ultimately show ?thesis using sd_bit_take [of _ c1] c1(3,4) by (intro exI [of _ "take len (mBloomFilter c1)"]) simp
qed

lemma atoi_dec: "n < 2 ^ 31 \<Longrightarrow> atoi (dec_string n) = int n"
proof (cases "n = 0")
  case True
  have "dec_string 0 = ''0''" by (simp add: dec_string_def base_string.simps)
  then show ?thesis using True
    by (simp add: atoi_def is_space_def base_digit_def digit_val_def char_between_def LONG_MIN_def LONG_MAX_def to_int_def)
next
  case False
  assume n: "n < 2 ^ 31"
  obtain d cs where d: "dec_string n = (''0123456789abcdef'' ! d) # cs" "0 < d" "d < 10"
    using base_string_first [of n] False unfolding dec_string_def by blast
  let ?c = "''0123456789abcdef'' ! d"
  have "digits_loop 10 0 (?c # cs) = (n, [])" using digits_loop_base [of 0 n "[]"] d(1) by (simp add: dec_string_def)
  moreover have "max LONG_MIN (min LONG_MAX (int n)) = int n" "to_int (int n) = int n"
    using n by (simp_all add: LONG_MIN_def LONG_MAX_def to_int_small)
  ultimately show ?thesis
    using dec_char_facts [OF d(2,3)] by (simp add: atoi_def d(1) Let_def del: digits_loop.simps)
qed

lemma short_dec: "n \<le> 16 \<Longrightarrow> length (dec_string n) < 16"
proof -
  assume "n \<le> 16"
  then have "n \<in> set [0..<17]" by simp
  moreover have "list_all (\<lambda>k. length (dec_string k) < 16) [0..<17]" by (simp add: upt_conv_Cons dec_string_def base_string.simps)
  ultimately show ?thesis by (simp only: list_all_iff)
qed

section \<open>Properties\<close>

text \<open>
  C17: \<open>steering-data\<close> given the EUI-64s of joiners, with or without a length of 1 to 16, prints in
  hexadecimal the filter of that length (16 without one) whose set bits are exactly the CRC
  positions of the hashes of these joiners, so the text decodes to a filter that admits each of
  them; and whatever the arguments are, the tool ends without a fault.
\<close>

theorem steering_data_tool:
  assumes "sha_ok sha" and "length (mBloomFilter computer) = 16" and "length stack = 8" and "list_all (\<lambda>e. length e = 8) euis"
    and "lenarg = [] \<and> euis \<noteq> [] \<and> len = 16 \<or> lenarg = [dec_string len] \<and> 0 < len \<and> len \<le> 16"
  shows "(\<exists>filter out. length filter = len
      \<and> steering_data_main sha stack computer (prog # lenarg @ map Bytes2Hex euis)
          = Ok \<lparr>tr_ret = 0, tr_stdout = out @ newline, tr_stderr = []\<rparr>
      \<and> Hex2Bytes out (replicate len 0) len = (int len, filter)
      \<and> (\<forall>b < len * 8. sd_bit \<lparr>mBloomFilter = filter, mLength = len\<rparr> b
            \<longleftrightarrow> (\<exists>e\<in>set euis. b \<in> joiner_bits len (ComputeHashMac sha e))))
    \<and> is_ok (steering_data_main sha stack computer argv)"
proof
  have len: "0 < len" "len \<le> 16" using assms(5) by auto
  obtain filter where f: "length filter = len"
    "steering_data_of sha stack len (map Bytes2Hex euis) computer
       = Ok \<lparr>tr_ret = 0, tr_stdout = print_bytes filter @ newline, tr_stderr = []\<rparr>"
    "\<forall>b < len * 8. sd_bit \<lparr>mBloomFilter = filter, mLength = len\<rparr> b \<longleftrightarrow> (\<exists>e\<in>set euis. b \<in> joiner_bits len (ComputeHashMac sha e))"
    using steering_data_of_joiners [OF assms(1) len assms(2-4)] by blast
  have "steering_data_main sha stack computer (prog # lenarg @ map Bytes2Hex euis)
      = steering_data_of sha stack len (map Bytes2Hex euis) computer"
    using assms(4,5) short_dec [OF len(2)] atoi_dec [of len] len(2)
    by (cases euis) (auto simp: steering_data_main_def kSizeJoinerId_def kMaxSizeOfBloomFilter_def Let_def)
  with f show "\<exists>filter out. length filter = len
      \<and> steering_data_main sha stack computer (prog # lenarg @ map Bytes2Hex euis)
          = Ok \<lparr>tr_ret = 0, tr_stdout = out @ newline, tr_stderr = []\<rparr>
      \<and> Hex2Bytes out (replicate len 0) len = (int len, filter)
      \<and> (\<forall>b < len * 8. sd_bit \<lparr>mBloomFilter = filter, mLength = len\<rparr> b
            \<longleftrightarrow> (\<exists>e\<in>set euis. b \<in> joiner_bits len (ComputeHashMac sha e)))"
    using Hex2Bytes_print_bytes [of "replicate len 0" filter] by (intro exI [of _ filter] exI [of _ "print_bytes filter"]) simp
  have "is_ok (steering_data_of sha stack n args computer)" if "0 < n" "n \<le> 16" for n args
    using steering_data_of_total [OF assms(1) that assms(2)] by (simp add: is_ok_iff)
  moreover have "0 < nat i \<and> nat i \<le> 16" if "0 < i" "i \<le> 16" for i using that by linarith
  ultimately show "is_ok (steering_data_main sha stack computer argv)"
    by (simp add: steering_data_main_def kMaxSizeOfBloomFilter_def Let_def)
qed

theorem steering_data_tool_witness:
  "\<exists>filter out. length filter = 15
     \<and> steering_data_main (\<lambda>_. replicate 32 0) (replicate 8 7) \<lparr>mBloomFilter = replicate 16 7, mLength = 3\<rparr>
         (''steering-data'' # [dec_string 15] @ map Bytes2Hex [[0x18, 0xb4, 0x30, 0, 0, 0, 0, 1]])
         = Ok \<lparr>tr_ret = 0, tr_stdout = out @ newline, tr_stderr = []\<rparr>
     \<and> Hex2Bytes out (replicate 15 0) 15 = (15, filter)"
proof -
  have "sha_ok (\<lambda>_. replicate 32 0)" "length (mBloomFilter \<lparr>mBloomFilter = replicate 16 7, mLength = 3\<rparr>) = 16"
    by (simp_all add: sha_ok_def)
  moreover have "length (replicate 8 (7 :: byte)) = 8" "list_all (\<lambda>e. length e = 8) [[0x18, 0xb4, 0x30, 0, 0, 0, 0, 1 :: byte]]" by simp_all
  moreover have "[dec_string 15] = [] \<and> [[0x18, 0xb4, 0x30, 0, 0, 0, 0, 1 :: byte]] \<noteq> [] \<and> 15 = (16 :: nat)
    \<or> [dec_string 15] = [dec_string 15] \<and> 0 < (15 :: nat) \<and> 15 \<le> (16 :: nat)" by simp
  ultimately have "\<exists>filter out. length filter = 15
     \<and> steering_data_main (\<lambda>_. replicate 32 0) (replicate 8 7) \<lparr>mBloomFilter = replicate 16 7, mLength = 3\<rparr>
         (''steering-data'' # [dec_string 15] @ map Bytes2Hex [[0x18, 0xb4, 0x30, 0, 0, 0, 0, 1]])
         = Ok \<lparr>tr_ret = 0, tr_stdout = out @ newline, tr_stderr = []\<rparr>
     \<and> Hex2Bytes out (replicate 15 0) 15 = (int 15, filter)"
    using steering_data_tool [of "\<lambda>_. replicate 32 0" "\<lparr>mBloomFilter = replicate 16 7, mLength = 3\<rparr>" "replicate 8 7"
        "[[0x18, 0xb4, 0x30, 0, 0, 0, 0, 1]]" "[dec_string 15]" 15 "''steering-data''"] by blast
  then show ?thesis by (simp only: of_nat_numeral)
qed

definition pskc_accepts :: "string list \<Rightarrow> bool" where
  "pskc_accepts argv \<longleftrightarrow> length argv = 4 \<and> length (argv ! 1) \<in> {1..255} \<and> length (argv ! 2) = 16
     \<and> list_all is_hex_char (argv ! 2) \<and> length (argv ! 3) \<in> {1..16}"

lemma Hex2Bytes_hex_text:
  assumes "length s = 16" and "list_all is_hex_char s" and "length stack = 8"
  shows "\<exists>bs. Hex2Bytes s stack 8 = (8, bs) \<and> length bs = 8"
proof -
  obtain r w where w: "hex_loop s 0 0 [] = (r, w)" by fastforce
  have "\<forall>c\<in>set s. hex_digit c \<noteq> None" using assms(2) by (simp only: hex_digit_is_hex_char list_all_iff)
  from hex_loop_digits [OF this, of 0 0 "[]"] w have r: "r = int (length w)" by simp
  with hex_loop_full [OF w] assms(1) have "length w = 8" by simp
  with r w assms(1,3) show ?thesis by (simp add: Hex2Bytes_def)
qed

text \<open>
  C29: \<open>pskc\<close> ends without a fault whatever its arguments are.  It succeeds exactly for a passphrase
  of 1 to 255 bytes, 16 hexadecimal digits and a network name of 1 to 16 bytes, and then prints
  the PBKDF2 key of these: its checks keep the generator away from the names that overflow its
  salt or leave its length uninitialised.
\<close>

theorem pskc_tool:
  assumes "prf_ok prf" and "length stack = 8"
  shows "\<exists>run. pskc_main prf stack argv = Ok run \<and> (tr_ret run = 0 \<longleftrightarrow> pskc_accepts argv)
    \<and> (pskc_accepts argv \<longrightarrow> (\<exists>xpan. Hex2Bytes (argv ! 2) stack 8 = (8, xpan)
         \<and> tr_stdout run = print_bytes (pbkdf2_F prf (bytes_of_string (argv ! 1)) (saltPrefix @ xpan @ bytes_of_string (argv ! 3))
             OT_ITERATION_COUNTS 1) @ newline))"
proof (cases "pskc_accepts argv")
  case True
  then have a: "length argv = 4" "length (argv ! 1) \<in> {1..255}" "length (argv ! 2) = 16" "list_all is_hex_char (argv ! 2)"
    "length (argv ! 3) \<in> {1..16}" by (simp_all add: pskc_accepts_def)
  obtain xpan where xpan: "Hex2Bytes (argv ! 2) stack 8 = (8, xpan)" "length xpan = 8"
    using Hex2Bytes_hex_text [OF a(3,4) assms(2)] by blast
  have name: "argv ! 3 \<noteq> []" "length (argv ! 3) \<le> 16" using a(5) by auto
  have pass: "argv ! 1 \<noteq> []" "length (argv ! 1) \<le> 255" using a(2) by auto
  obtain key where key: "ComputePskc prf xpan (argv ! 3) (argv ! 1) fresh_Pskc = Ok key" "length key = OT_PSKC_LENGTH"
    "key = pbkdf2_F prf (bytes_of_string (argv ! 1)) (saltPrefix @ xpan @ bytes_of_string (argv ! 3)) OT_ITERATION_COUNTS 1"
    using ComputePskc_key [OF assms(1) xpan(2) name] by blast
  have "pskc_main prf stack argv = Ok \<lparr>tr_ret = 0, tr_stdout = print_bytes key @ newline, tr_stderr = []\<rparr>"
    using a(1,3,4) name pass xpan key(1,2)
    by (simp add: pskc_main_def printPSKc_def kMaxNetworkName_def kMaxPassphrase_def pskc_kSizeExtPanId_def read_bytes_def
        OT_PSKC_LENGTH_def Let_def)
  with True xpan(1) key(3) show ?thesis by auto
next
  case False
  then have "\<exists>run. pskc_main prf stack argv = Ok run \<and> tr_ret run = -1"
    by (auto simp: pskc_main_def printPSKc_def refuse_def pskc_accepts_def kMaxNetworkName_def kMaxPassphrase_def pskc_kSizeExtPanId_def
        Suc_le_eq)
  with False show ?thesis by auto
qed

theorem pskc_tool_witness:
  "\<exists>run. pskc_main (\<lambda>k m. replicate 16 (last m)) (replicate 8 7) [''pskc'', ''654321'', ''1122334455667788'', ''OpenThread''] = Ok run
     \<and> tr_ret run = 0"
proof -
  have "prf_ok (\<lambda>k m. replicate 16 (last m))" "length (replicate 8 (7 :: byte)) = 8" by (simp_all add: prf_ok_def)
  moreover have "pskc_accepts [''pskc'', ''654321'', ''1122334455667788'', ''OpenThread'']" by code_simp
  ultimately show ?thesis using pskc_tool [of "\<lambda>k m. replicate 16 (last m)" "replicate 8 7"] by blast
qed

end
