(* ===== verification/Programs.thy ===== *)
theory Programs
  imports Tools WebService BorderAgent
begin

text \<open>
  \<open>agent/main.cpp\<close> and \<open>web/main.cpp\<close>: the two daemons around the components, and the helpers for
  addresses of \<open>common/types.hpp\<close> and \<open>commissioner/addr_utils.cpp\<close>.

  A run of the agent's loop is the list of its rounds, each with what the system answers in it: a
  prefix of a run is a run, so what holds of every list holds at every moment.  What \<open>getopt\<close>
  itself prints and the log are left out.
\<close>

section \<open>getopt\<close>

text \<open>
  \<open>getopt\<close> of glibc for short options: arguments that are no options are passed over, \<open>--\<close> ends
  the options.  A result is an option with its argument, or \<open>None\<close> for what returns \<open>?\<close>.  An
  option without an argument leaves \<open>optarg\<close> null.
\<close>

fun takes_arg :: "string \<Rightarrow> char \<Rightarrow> bool option" where
  "takes_arg [] c = None"
| "takes_arg (o1 # os) c =
     (if c = CHR '':'' then None
      else if o1 = c then Some (os \<noteq> [] \<and> hd os = CHR '':'') else takes_arg os c)"

function getopt_from :: "string \<Rightarrow> string \<Rightarrow> string list \<Rightarrow> (char \<times> string option) option list" where
  "getopt_from opts (c # cs) args =
     (case takes_arg opts c of
        None \<Rightarrow> None # getopt_from opts cs args
      | Some False \<Rightarrow> Some (c, None) # getopt_from opts cs args
      | Some True \<Rightarrow>
          if cs \<noteq> [] then Some (c, Some cs) # getopt_from opts [] args
          else (case args of [] \<Rightarrow> [None] | a # as \<Rightarrow> Some (c, Some a) # getopt_from opts [] as))"
| "getopt_from opts [] [] = []"
| "getopt_from opts [] (a # as) =
     (if a = ''--'' then []
      else if length a \<ge> 2 \<and> hd a = CHR ''-'' then getopt_from opts (tl a) as
      else getopt_from opts [] as)"
  by pat_completeness auto
termination
  by (relation "measures [\<lambda>(opts, cs, args). length args + (if cs = [] then 0 else 1) + length args, \<lambda>(opts, cs, args). length cs]") auto

definition getopt_all :: "string \<Rightarrow> string list \<Rightarrow> (char \<times> string option) option list" where
  "getopt_all opts argv = getopt_from opts [] (tl argv)"

section \<open>The agent\<close>

definition kDefaultInterfaceName :: string where "kDefaultInterfaceName = ''wpan0''"

datatype 'a options = Leave int string | Options 'a

text \<open>The loop over the options: the interface and the level of the log so far.\<close>

fun agent_options :: "string \<Rightarrow> string \<Rightarrow> (char \<times> string option) option list \<Rightarrow> string \<times> int \<Rightarrow> (string \<times> int) options" where
  "agent_options version prog [] st = Options st"
| "agent_options version prog (opt # opts) st =
     (case opt of
        Some (c, Some arg) \<Rightarrow>
          if c = CHR ''d'' then agent_options version prog opts (fst st, atoi arg)
          else agent_options version prog opts (arg, snd st)
      | Some (c, None) \<Rightarrow> Leave 0 (version @ newline)
      | None \<Rightarrow> Leave (-1) (''Usage: '' @ prog @ '' [-I interfaceName] [-d DEBUG_LEVEL] [-v]'' @ newline))"

record agent_setup =
  st_dbus :: dbus_setup
  st_found :: "string option"
  st_env :: agent_env
  st_sock :: int
  st_bind_ok :: bool
  st_answers :: "dbus_env \<times> dbus_env \<times> dbus_env"

text \<open>A round of the loop: \<open>rd_ready\<close> is what \<open>select\<close> reports of the sets, \<open>None\<close> when it fails.\<close>

record agent_round =
  rd_info :: "nat \<Rightarrow> watch_info"
  rd_to_send :: bool
  rd_ready :: "fd_sets option"
  rd_calls :: "watch_call list list"
  rd_env :: agent_env
  rd_messages :: "(string option \<times> dbus_message) list"
  rd_received :: "datagram option"
  rd_answers :: dbus_env

definition no_fds :: fd_sets where
  "no_fds = \<lparr>fs_read = {}, fs_write = {}, fs_error = {}, fs_max = -1\<rparr>"

definition select_of :: "fd_sets \<Rightarrow> fd_sets \<Rightarrow> fd_sets" where
  "select_of ready fds = fds\<lparr>fs_read := fs_read fds \<inter> fs_read ready, fs_write := fs_write fds \<inter> fs_write ready,
     fs_error := fs_error fds \<inter> fs_error ready\<rparr>"

fun agent_loop :: "agent_round list \<Rightarrow> agent_instance \<Rightarrow> (int option \<times> agent_instance) res" where
  "agent_loop [] ai = Ok (None, ai)"
| "agent_loop (r # rs) ai =
     rbind (instance_UpdateFdSet (rd_info r) (rd_to_send r) no_fds ai) (\<lambda>fds.
       case rd_ready r of
         None \<Rightarrow> Ok (Some (-1), ai)
       | Some ready \<Rightarrow>
           rbind (instance_Process (rd_info r) (select_of ready fds) (rd_calls r) (rd_env r) (rd_messages r) (rd_received r)
             (rd_answers r) ai) (\<lambda>(handled, ai1). agent_loop rs ai1))"

definition Mainloop :: "agent_setup \<Rightarrow> agent_round list \<Rightarrow> string \<Rightarrow> (int option \<times> agent_instance) res" where
  "Mainloop st rounds aInterfaceName =
     rbind (instance_Init (st_dbus st) (st_found st) (st_env st) (st_sock st) (st_bind_ok st) (st_answers st)
       (new_AgentInstance aInterfaceName)) (\<lambda>(err, ai).
         if err \<noteq> OTBR_ERROR_NONE then Ok (Some 1, ai) else agent_loop rounds ai)"

text \<open>
  The program: what it returns (\<open>None\<close> while the loop runs), what it prints, the instance it
  made, and the log.
\<close>

definition agent_main ::
  "string \<Rightarrow> u64 \<Rightarrow> agent_setup \<Rightarrow> agent_round list \<Rightarrow> string list \<Rightarrow> logger
     \<Rightarrow> (int option \<times> string \<times> agent_instance option \<times> logger) res" where
  "agent_main version now st rounds argv lg =
     (case agent_options version (argv ! 0) (getopt_all ''d:I:v'' argv) (kDefaultInterfaceName, OTBR_LOG_INFO) of
        Leave ret text \<Rightarrow> Ok (Some ret, text, None, lg)
      | Options (interfaceName, logLevel) \<Rightarrow>
          rbind (otbrLogInit now logLevel lg) (\<lambda>lg1.
            map_res (\<lambda>(ret, ai). (ret, [], Some ai, if ret = None then lg1 else otbrLogDeinit lg1))
              (Mainloop st rounds interfaceName)))"

section \<open>The web service\<close>

definition kDefaultListenAddr :: string where "kDefaultListenAddr = ''0.0.0.0''"
definition OT_HTTP_PORT :: u16 where "OT_HTTP_PORT = 80"

record web_args =
  wa_interface :: "string option"
  wa_listen :: "string option"
  wa_http_port :: "string option"
  wa_level :: int
  wa_port :: u16

definition default_web_args :: web_args where
  "default_web_args = \<lparr>wa_interface = None, wa_listen = None, wa_http_port = None, wa_level = OTBR_LOG_INFO, wa_port = OT_HTTP_PORT\<rparr>"

fun web_options :: "string \<Rightarrow> string \<Rightarrow> (char \<times> string option) option list \<Rightarrow> web_args \<Rightarrow> web_args options" where
  "web_options version prog [] wa = Options wa"
| "web_options version prog (opt # opts) wa =
     (case opt of
        Some (c, optarg) \<Rightarrow>
          if c = CHR ''a'' then web_options version prog opts (wa\<lparr>wa_listen := optarg\<rparr>)
          else (case optarg of
                  None \<Rightarrow> Leave 0 []
                | Some arg \<Rightarrow>
                    if c = CHR ''d'' then web_options version prog opts (wa\<lparr>wa_level := atoi arg\<rparr>)
                    else if c = CHR ''I'' then web_options version prog opts (wa\<lparr>wa_interface := Some arg\<rparr>)
                    else if c = CHR ''p''
                    then web_options version prog opts (wa\<lparr>wa_http_port := Some arg, wa_port := word_of_int (atoi arg)\<rparr>)
                    else Leave 0 (version @ newline))
      | None \<Rightarrow> Leave (-1) (''Usage: '' @ prog @ '' [-d DEBUG_LEVEL] [-I interfaceName] [-p port] [-a listenAddress] [-v]'' @ newline))"

definition or_default :: "string option \<Rightarrow> string \<Rightarrow> string" where
  "or_default x d = (case x of None \<Rightarrow> d | Some s \<Rightarrow> s)"

definition web_notes :: "web_args \<Rightarrow> string" where
  "web_notes wa =
     (if wa_interface wa = None then ''interfaceName not specified, using default '' @ kDefaultInterfaceName @ newline else [])
     @ (if wa_listen wa = None then ''listenAddr not specified, using default '' @ kDefaultListenAddr @ newline else [])
     @ (if wa_http_port wa = None then ''http port not specified, using default '' @ print_int (int (unat (wa_port wa))) @ newline else [])"

text \<open>The address and the port the server is configured with, and what it starts with.\<close>

record web_run =
  wr_listen :: string
  wr_port :: u16
  wr_service :: wpan_service
  wr_resources :: "(string \<times> string \<times> web_route) list"

definition web_main ::
  "string \<Rightarrow> u64 \<Rightarrow> bus_env \<Rightarrow> wpan_service \<Rightarrow> string list \<Rightarrow> logger \<Rightarrow> (int \<times> string \<times> web_run option \<times> logger) res" where
  "web_main version now env s argv lg =
     (case web_options version (argv ! 0) (getopt_all ''d:I:p:v:a'' argv) default_web_args of
        Leave ret text \<Rightarrow> Ok (ret, text, None, lg)
      | Options wa \<Rightarrow>
          rbind (otbrLogInit now (wa_level wa) lg) (\<lambda>lg1.
          rbind (StartWebServer env (or_default (wa_interface wa) kDefaultInterfaceName) s []) (\<lambda>(s1, resources, log1).
            Ok (0, web_notes wa, Some \<lparr>wr_listen = or_default (wa_listen wa) kDefaultListenAddr, wr_port = wa_port wa,
                wr_service = s1, wr_resources = resources\<rparr>, otbrLogDeinit lg1))))"

section \<open>Addresses\<close>

text \<open>\<open>Ip6Address\<close>: its sixteen bytes.\<close>

definition Ip6Address_any :: "byte list" where
  "Ip6Address_any = replicate 16 0"

definition Ip6Address :: "u16 \<Rightarrow> byte list" where
  "Ip6Address aLocator = replicate 14 0 @ [ucast (drop_bit 8 aLocator), ucast (aLocator AND 0xff)]"

definition ToLocator :: "byte list \<Rightarrow> u16" where
  "ToLocator m8 = push_bit 8 (ucast (m8 ! 14)) OR ucast (m8 ! 15)"

lemma ToLocator_Ip6Address: "ToLocator (Ip6Address l) = l \<and> length (Ip6Address l) = 16"
  using u16_join [of l] by (simp add: ToLocator_def Ip6Address_def nth_append)

datatype sockaddr = AF_INET "byte list" | AF_INET6 "byte list" | AF_OTHER int

text \<open>\<open>inet_ntop\<close> is a parameter: what it writes into a buffer of the length, or nothing.\<close>

definition GetIPString ::
  "(sockaddr \<Rightarrow> nat \<Rightarrow> string option) \<Rightarrow> sockaddr \<Rightarrow> string \<Rightarrow> nat \<Rightarrow> string \<times> bool" where
  "GetIPString inet_ntop aAddr aOutBuf aLength =
     (case aAddr of
        AF_OTHER fam \<Rightarrow> (take aLength ''Unknown AF'', False)
      | _ \<Rightarrow> (case inet_ntop aAddr aLength of None \<Rightarrow> aOutBuf | Some text \<Rightarrow> text, True))"

section \<open>The agent program\<close>

text \<open>An emitter with some of the four registrations of \<open>Start\<close>, and no other.\<close>

definition partly_wired :: "(agent_callback, unit) emitter \<Rightarrow> bool" where
  "partly_wired em \<longleftrightarrow> (\<forall>e. mEvents em e = None \<or> mEvents em e = mEvents agent_emitter e)"

definition instance_inv :: "agent_instance \<Rightarrow> bool" where
  "instance_inv ai \<longleftrightarrow> partly_wired (ai_emitter ai) \<and> agent_inv (ai_agent ai)"

definition env_good :: "agent_env \<Rightarrow> bool" where
  "env_good env \<longleftrightarrow> avahi_good (ag_avahi env) \<and> (\<forall>sts. ag_states env = Some sts \<longrightarrow> list_all good_state sts)"

lemma env_good_step: "env_good env \<Longrightarrow> step_good (NetworkStep env ev)"
  by (simp add: env_good_def)

lemma emit_keeps:
  assumes run: "emit env ev ai = Ok ai'" and inv: "instance_inv ai" and good: "env_good env"
  shows "instance_inv ai' \<and> ai_emitter ai' = ai_emitter ai \<and> ai_ncp ai' = ai_ncp ai"
proof (cases ev)
  case None
  with run inv show ?thesis by (simp add: emit_def)
next
  case (Some e)
  with run obtain ag where ag: "emitter_Emit (agent_call env) (event_id e) e (ai_emitter ai) (ai_agent ai) = Ok ag" "ai' = ai\<lparr>ai_agent := ag\<rparr>"
    by (auto simp: emit_def res_simps)
  show ?thesis
  proof (cases "mEvents (ai_emitter ai) (event_id e)")
    case None
    with ag inv show ?thesis by (auto simp: emitter_Emit_def instance_inv_def)
  next
    case (Some hs)
    from inv have "mEvents (ai_emitter ai) (event_id e) = None \<or> mEvents (ai_emitter ai) (event_id e) = mEvents agent_emitter (event_id e)"
      by (simp add: instance_inv_def partly_wired_def)
    with Some have wired: "mEvents agent_emitter (event_id e) = Some hs" by simp
    have step: "agent_run_step (NetworkStep env e) (ai_agent ai) = Ok ag"
      using ag(1) by (simp only: agent_run_step.simps emitter_Emit_def Some wired option.case)
    have "agent_inv (ai_agent ai)" using inv by (simp add: instance_inv_def)
    from agent_event_inv [OF this env_good_step [OF good] step] ag(2) inv show ?thesis by (simp add: instance_inv_def)
  qed
qed

lemma ncp_On_keeps:
  "ncp_On e cb ai = Ok ai' \<Longrightarrow> instance_inv ai \<Longrightarrow> mEvents (ai_emitter ai) e = None
     \<Longrightarrow> mEvents agent_emitter e = Some [(cb, ())]
     \<Longrightarrow> instance_inv ai' \<and> mEvents (ai_emitter ai') = (mEvents (ai_emitter ai))(e \<mapsto> [(cb, ())])"
  by (clarsimp simp: ncp_On_def emitter_On_def handlers_at_def instance_inv_def partly_wired_def)

lemma request_event_keeps:
  "request_event env dbus e ai = Ok ai' \<Longrightarrow> instance_inv ai \<Longrightarrow> env_good env
     \<Longrightarrow> instance_inv ai' \<and> ai_emitter ai' = ai_emitter ai"
  using emit_keeps by (fastforce simp: request_event_def res_simps)

lemma agent_Start_inv:
  assumes run: "agent_Start env sock bind_ok dbus ai = Ok (err, ai')" and inv: "instance_inv ai" and good: "env_good env"
    and new: "mEvents (ai_emitter ai) = Map.empty"
  shows "instance_inv ai'"
proof -
  let ?ai = "ai\<lparr>ai_agent := (ai_agent ai)\<lparr>mSocket := Some sock\<rparr>\<rparr>"
  have inv0: "instance_inv ?ai" using inv by (simp add: instance_inv_def agent_inv_def)
  show ?thesis
  proof (cases "sock = -1 \<or> \<not> bind_ok")
    case True
    with run inv0 show ?thesis by (auto simp: agent_Start_def Let_def split: if_splits)
  next
    case False
    with run obtain a1 a2 a3 a4 a5 a6 where
      s: "ncp_On kEventExtPanId HandleExtPanId ?ai = Ok a1" "ncp_On kEventThreadState HandleThreadState a1 = Ok a2"
        "ncp_On kEventNetworkName HandleNetworkName a2 = Ok a3" "request_event env (fst dbus) kEventNetworkName a3 = Ok a4"
        "request_event env (fst (snd dbus)) kEventExtPanId a4 = Ok a5" "request_event env (snd (snd dbus)) kEventThreadState a5 = Ok a6"
        "ncp_On kEventUdpProxyStream SendToCommissioner a6 = Ok ai'"
      by (auto simp: agent_Start_def Let_def res_simps)
    note ids = ncp_event_ids agent_emitter_def
    have "mEvents (ai_emitter ?ai) = Map.empty" using new by simp
    with ncp_On_keeps [OF s(1) inv0] have i1: "instance_inv a1" "mEvents (ai_emitter a1) = [kEventExtPanId \<mapsto> [(HandleExtPanId, ())]]"
      by (simp_all add: ids)
    from ncp_On_keeps [OF s(2) i1(1)] i1(2) have i2: "instance_inv a2"
      "mEvents (ai_emitter a2) = [kEventExtPanId \<mapsto> [(HandleExtPanId, ())], kEventThreadState \<mapsto> [(HandleThreadState, ())]]"
      by (simp_all add: ids)
    from ncp_On_keeps [OF s(3) i2(1)] i2(2) have i3: "instance_inv a3" "mEvents (ai_emitter a3) kEventUdpProxyStream = None"
      by (simp_all add: ids)
    from request_event_keeps [OF s(4) i3(1) good] i3(2) have i4: "instance_inv a4" "mEvents (ai_emitter a4) kEventUdpProxyStream = None"
      by simp_all
    from request_event_keeps [OF s(5) i4(1) good] i4(2) have i5: "instance_inv a5" "mEvents (ai_emitter a5) kEventUdpProxyStream = None"
      by simp_all
    from request_event_keeps [OF s(6) i5(1) good] i5(2) have i6: "instance_inv a6" "mEvents (ai_emitter a6) kEventUdpProxyStream = None"
      by simp_all
    from ncp_On_keeps [OF s(7) i6] show ?thesis by (simp add: ids)
  qed
qed

lemma instance_inv_ncp [simp]: "instance_inv (ai\<lparr>ai_ncp := c\<rparr>) = instance_inv ai"
  by (simp add: instance_inv_def)

lemma instance_Init_inv:
  assumes "instance_Init ds found env sock bind_ok dbus (new_AgentInstance ifname) = Ok (err, ai)" and "env_good env"
  shows "instance_inv ai"
proof -
  have new: "instance_inv (new_AgentInstance ifname)" "mEvents (ai_emitter (new_AgentInstance ifname)) = Map.empty"
    by (simp_all add: instance_inv_def partly_wired_def new_AgentInstance_def new_EventEmitter_def agent_inv_def new_BorderAgent_def
        new_PublisherAvahi_def pub_idle_def registered_def)
  from assms(1) obtain e1 c where "ncp_Init ds found (ai_ncp (new_AgentInstance ifname)) = Ok (e1, c)"
    "if e1 \<noteq> OTBR_ERROR_NONE then err = e1 \<and> ai = (new_AgentInstance ifname)\<lparr>ai_ncp := c\<rparr>
     else agent_Start env sock bind_ok dbus ((new_AgentInstance ifname)\<lparr>ai_ncp := c\<rparr>) = Ok (err, ai)"
    by (auto simp: instance_Init_def Let_def res_simps split: if_splits)
  with new agent_Start_inv [OF _ _ assms(2), of sock bind_ok dbus "(new_AgentInstance ifname)\<lparr>ai_ncp := c\<rparr>" err ai]
  show ?thesis by (auto split: if_splits)
qed

lemma dispatch_inv:
  "fold_res (dispatch_message env) ms ai = Ok ai' \<Longrightarrow> env_good env \<Longrightarrow> instance_inv ai \<Longrightarrow> instance_inv ai'"
proof (induction ms arbitrary: ai)
  case Nil
  then show ?case by simp
next
  case (Cons m ms)
  then obtain ai1 where ai1: "dispatch_message env m ai = Ok ai1" "fold_res (dispatch_message env) ms ai1 = Ok ai'"
    by (auto simp: res_simps)
  then obtain res ev c where "emit env ev (ai\<lparr>ai_ncp := c\<rparr>) = Ok ai1" by (auto simp: dispatch_message_def res_simps)
  from emit_keeps [OF this _ Cons.prems(2)] Cons.prems(3) have "instance_inv ai1" by simp
  with Cons.IH [OF ai1(2) Cons.prems(2)] show ?case by blast
qed

lemma agent_loop_inv:
  "agent_loop rounds ai = Ok (ret, ai') \<Longrightarrow> \<forall>r \<in> set rounds. env_good (rd_env r) \<Longrightarrow> instance_inv ai
     \<Longrightarrow> instance_inv ai' \<and> (ret = None \<or> ret = Some (-1))"
proof (induction rounds arbitrary: ai)
  case Nil
  then show ?case by simp
next
  case (Cons r rounds)
  show ?case
  proof (cases "rd_ready r")
    case None
    with Cons.prems show ?thesis by (auto simp: res_simps)
  next
    case (Some ready)
    with Cons.prems(1) obtain fds handled ai1 where
      p: "instance_Process (rd_info r) fds (rd_calls r) (rd_env r) (rd_messages r) (rd_received r) (rd_answers r) ai = Ok (handled, ai1)"
        "agent_loop rounds ai1 = Ok (ret, ai')"
      by (auto simp: res_simps)
    from p(1) obtain c ai2 c2 where "fold_res (dispatch_message (rd_env r)) (rd_messages r) (ai\<lparr>ai_ncp := c\<rparr>) = Ok ai2" "ai1 = ai2\<lparr>ai_ncp := c2\<rparr>"
      by (auto simp: instance_Process_def res_simps)
    with dispatch_inv [OF this(1)] Cons.prems(2,3) have "instance_inv ai1" by simp
    with Cons.IH [OF p(2)] Cons.prems(2) show ?thesis by simp
  qed
qed


definition demo_setup :: agent_setup where
  "demo_setup = \<lparr>st_dbus = \<lparr>ds_bus = True, ds_registered = True, ds_primary_owner = True, ds_watch_functions = True,
       ds_match_added = True, ds_filter_added = True\<rparr>,
     st_found = Some '':1.7'', st_env = demo_env, st_sock = 5, st_bind_ok = True, st_answers = (good_dbus, good_dbus, good_dbus)\<rparr>"

definition demo_round :: "(string \<times> dbus_arg) list \<Rightarrow> agent_round" where
  "demo_round changes = \<lparr>rd_info = (\<lambda>_. \<lparr>wi_fd = 4, wi_readable = True, wi_writable = False\<rparr>), rd_to_send = False,
     rd_ready = Some no_fds, rd_calls = [], rd_env = demo_env, rd_messages = map (\<lambda>c. (None, property_changed (fst c) (snd c))) changes,
     rd_received = None, rd_answers = good_dbus\<rparr>"

definition demo_rounds :: "agent_round list" where
  "demo_rounds = [demo_round [(kWPANTUNDProperty_NetworkName, ArgString ''OpenThread'')],
     demo_round [(kWPANTUNDProperty_NetworkXPANID, ArgUint64 0xdead00beef00cafe), (kWPANTUNDProperty_NCPState, ArgString ''associated'')],
     (demo_round [])\<lparr>rd_ready := None\<rparr>]"

lemma demo_program_runs:
  "case agent_main ''1.0'' 0 demo_setup demo_rounds [''otbr-agent'', ''-I'', ''wpan1'', ''-d7''] initial_logger of
     Ok (ret, out, Some ai, lg) \<Rightarrow> mNetworkName (ai_agent ai) = Some ''OpenThread''
       \<and> mExtPanId (ai_agent ai) = Some [0xde, 0xad, 0x00, 0xbe, 0xef, 0x00, 0xca, 0xfe]
       \<and> registered (mPublisher (ai_agent ai)) \<noteq> []
   | _ \<Rightarrow> False"
  by code_simp


section \<open>The address of the web server\<close>

lemma takes_arg_web: "takes_arg ''d:I:p:v:a'' CHR ''a'' = Some False"
  by simp

lemma getopt_flag: "Some (a, x) \<in> set (getopt_from opts cs args) \<Longrightarrow> takes_arg opts a = Some False \<Longrightarrow> x = None"
proof (induction opts cs args rule: getopt_from.induct)
  case (1 opts c cs args)
  show ?case
  proof (cases "takes_arg opts c")
    case None
    with 1 show ?thesis by simp
  next
    case (Some b)
    show ?thesis
    proof (cases b)
      case True
      with Some have t: "takes_arg opts c = Some True" by simp
      show ?thesis
      proof (cases "cs = []")
        case cs: False
        with "1.prems" t have "Some (a, x) \<in> set (getopt_from opts [] args)" by auto
        then show ?thesis using "1.IH"(2) [OF t _ cs] "1.prems"(2) by blast
      next
        case cs: True
        with "1.prems" t obtain a' as where as: "args = a' # as" "Some (a, x) \<in> set (getopt_from opts [] as)"
          by (cases args) auto
        then show ?thesis using "1.IH"(3) [OF t _ _ as] cs "1.prems"(2) by blast
      qed
    next
      case False
      with 1 Some show ?thesis by auto
    qed
  qed
next
  case (2 opts)
  then show ?case by simp
next
  case (3 opts a' as)
  then show ?case by (simp split: if_splits)
qed

lemma web_options_listen:
  "web_options version prog opts wa = Options wa' \<Longrightarrow> \<forall>x. Some (CHR ''a'', x) \<in> set opts \<longrightarrow> x = None
     \<Longrightarrow> wa_listen wa = None \<Longrightarrow> wa_listen wa' = None"
  by (induction version prog opts wa rule: web_options.induct) (auto split: option.splits if_splits)

text \<open>
  Whatever the command line, the web server listens on all addresses: \<open>-a\<close> is declared without
  an argument, so its value is null and the default is used.
\<close>

theorem web_listens_everywhere:
  assumes "web_main version now env s argv lg = Ok (ret, out, Some run, lg')"
  shows "wr_listen run = ''0.0.0.0''"
proof -
  from assms obtain wa where wa: "web_options version (argv ! 0) (getopt_all ''d:I:p:v:a'' argv) default_web_args = Options wa"
    "wr_listen run = or_default (wa_listen wa) kDefaultListenAddr"
    by (auto simp: web_main_def res_simps split: options.splits)
  have "wa_listen wa = None"
    using web_options_listen [OF wa(1)] getopt_flag [OF _ takes_arg_web] by (auto simp: getopt_all_def default_web_args_def)
  with wa(2) show ?thesis by (simp add: or_default_def kDefaultListenAddr_def)
qed

end
