(* ===== verification/Spec2Isabelle.thy ===== *)
theory Spec2Isabelle
  imports HexCodec Crc Steering TlvCodec Emitter PskcGen JoinerList Logging Coap Dtls JoinerSess Commissioner
    CommProps Relay Params RestApi Admission Plugin Shutdown Ncp Mdns MdnsSd BorderAgent Encoding WebService StaticFiles CmdLine Tools Programs
begin

text \<open>
  A verification library of the Thread commissioner plugin and of the border router it is built on
  (\<open>src/lib/borderrouter/src\<close>, below \<open>BR\<close>).

  \<^bold>\<open>The program.\<close>  A Thread network admits a new device (a joiner) through a commissioner.  The plugin
  (\<open>src/comm.cpp\<close>, \<open>inc/\<close>) runs one: its REST interface sets the parameters of the network and the
  list of joiners, a manager thread waits for parameters, derives the key PSKc and starts a
  commissioner thread.  The commissioner (\<open>BR/commissioner\<close>) makes a DTLS connection to the border
  agent, petitions the leader over CoAP, keeps itself alive, announces which joiners may come as
  steering data (a Bloom filter over the hashes of their EUI-64s), and takes the relayed records of
  joiners to a DTLS server of its own, whose session learns the credential from the joiner list,
  answers joiner-finalize and hands over the key (KEK).  The border agent (\<open>BR/agent\<close>) is the other
  end on the router: it forwards datagrams between commissioners and the co-processor, which it
  reaches over D-Bus, and announces its service by mDNS, with either of two publishers.  The web
  service (\<open>BR/web\<close>) forms, joins and scans networks over D-Bus.

  \<^bold>\<open>The theories\<close>, each after the theories it calls; a definition has the name of the function or type it
  models, with a prefix where two classes share it.
  \<^item> \<open>Prelude\<close>: bytes, C strings, bounded buffers, the result type \<open>res\<close>, whose \<open>Fault\<close> is an
    execution the source does not define (out of bounds, a dangling or null pointer, an
    uninitialised value, a failed assertion), and the lemma collections \<open>res_simps\<close>,
    \<open>frame_simps\<close>, \<open>inv_intros\<close>.  \<open>Constants\<close>: \<open>commissioner_constants.hpp\<close>.
  \<^item> \<open>HexCodec\<close>, \<open>Crc\<close>, \<open>Steering\<close>, \<open>TlvCodec\<close>, \<open>Emitter\<close>, \<open>PskcGen\<close>, \<open>Encoding\<close>: \<open>BR/utils\<close>,
    \<open>BR/common/tlv.hpp\<close>, \<open>event_emitter.cpp\<close>, \<open>BR/web/pskc-generator\<close>, \<open>BR/web/utils\<close>.  Their lemmas are
    round trips, equivalence with a bit-serial register and with PBKDF2, and the exact bits of the
    filter.
  \<^item> \<open>Logging\<close>, \<open>Json\<close>, \<open>JoinerList\<close>, \<open>Params\<close>, \<open>RestApi\<close>, \<open>Plugin\<close>, \<open>Shutdown\<close>: \<open>BR/common/logging.cpp\<close>, \<open>inc/\<close>,
    \<open>src/comm.cpp\<close>, \<open>src/comm_rest_api.cpp\<close>.  The joiner list, kept as JSON, as a vector and as a
    filter, refines a list of pairs; the status channel is modelled statement by statement, and the
    threads as steps on shared state, so a run is any interleaving; \<open>Shutdown\<close> deletes the plugin
    and shows with a rank of the threads that stopping one always ends.
  \<^item> \<open>Coap\<close>, \<open>Dtls\<close>, \<open>JoinerSess\<close>, \<open>Commissioner\<close>: \<open>BR/agent/coap_libcoap.cpp\<close>, \<open>dtls_mbedtls.cpp\<close>,
    \<open>BR/commissioner\<close>.  The sessions are a state machine with an inductive edge relation; what the
    libraries answer is a list of results consumed call by call.  \<open>CommProps\<close>, \<open>Relay\<close>, \<open>Admission\<close>
    hold what these promise together: the reaction to the leader, the relay in both directions,
    and what a REST request means for the device it names.
  \<^item> \<open>Ncp\<close>, \<open>Mdns\<close>, \<open>MdnsSd\<close>, \<open>BorderAgent\<close>: \<open>BR/agent/ncp_wpantund.cpp\<close>, \<open>mdns_avahi.cpp\<close>,
    \<open>mdns_mdnssd.cpp\<close>, \<open>border_agent.cpp\<close>, \<open>agent_instance.cpp\<close>.  The lemmas carry the invariant of what is
    registered through every event, the round trip of proxied datagrams, and the contract both
    publishers keep.
  \<^item> \<open>WpanDbus\<close>, \<open>WebService\<close>, \<open>StaticFiles\<close>: \<open>BR/web/wpan-controller\<close>, \<open>BR/web/web-service\<close>.  Every request to the daemon
    is an entry of a log, so forming a network is shown to be a transaction of requests; the files served lie
    within the root of the server.
  \<^item> \<open>CmdLine\<close>, \<open>Tools\<close>, \<open>Programs\<close>: the command lines of the commissioner, of the two tools and of
    the two daemons, with the parts of the C library they use (\<open>strtol\<close>, \<open>atoi\<close>, \<open>getopt\<close>), and the
    agent's loop, over which the invariant of the border agent is lifted to the program.

  \<^bold>\<open>The interfaces.\<close>  \<open>membership_filter\<close> (\<open>Steering\<close>): what a client of a filter relies on, interpreted
  for the Bloom filter on hashes and on EUI-64s.  \<open>tlv_handler\<close> (\<open>TlvCodec\<close>): a loop over the TLVs of
  a payload is a fold over them; interpreted for the responses and the relay of the commissioner.
  \<open>event_registry\<close> (\<open>Emitter\<close>), \<open>session_observer\<close> (\<open>Dtls\<close>, interpreted for the joiner session), and
  \<open>mdns_publisher\<close> (\<open>Mdns\<close>, interpreted for Avahi there and for mDNSResponder in \<open>MdnsSd\<close>).

  \<^bold>\<open>Parameters.\<close>  Code that is not in the repository is an argument: SHA-256 and the PRF (mbed TLS) are
  functions with the length of their results as the only hypothesis; jansson and jsoncpp are
  records of operations; what mbed TLS, libcoap, libdbus, Avahi, mDNSResponder, Boost (its file system too) and the system
  calls answer is data given to each step.  \<open>be_dead\<close> of \<open>WpanDbus\<close> is what the memory of a returned
  frame holds.

  \<^bold>\<open>Loops and fuel.\<close>  Loops over lists recurse on them; loops over numbers have a measure.
  \<open>find_eui_loop\<close> of \<open>Commissioner\<close> takes one more step than there are entries of the list, which is
  enough (shown in \<open>Relay\<close>); the parser loop of \<open>CmdLine\<close> is an optional value and shown to be defined for
  every command line; the retry loop of \<open>Dtls\<close> ends with \<open>Fault Blocked\<close> when the answers given
  never stop asking.  The endless loops of the threads and of the agent are lists of rounds: what
  holds of every list holds at every moment.  Machine integers are words of their width.

  \<^bold>\<open>Not modelled.\<close>  What is printed or logged, except by the log itself and by the tools;
  \<open>BR/commissioner/main.cpp\<close>, which calls functions with parameters they no longer have; encoding,
  retransmission and matching of CoAP messages, which are libcoap's; and the generated registration with the plugin manager.  The frontend, the tests,
  the build files and the libraries of third parties are not part of the program.
\<close>

end
